(* ===== verification/Prelude.thy ===== *)
theory Prelude
  imports Main "HOL-Library.Monad_Syntax" "HOL-Library.Multiset" "HOL-Library.Word"
begin

text \<open>
  Shared vocabulary of the development: Go's machine integers, the postcondition calculus of
  the explicit state passing in which every operation of Robin is written, iteration orders of
  Go maps, and the generic list facts several components need.

  An operation that touches the outside world has the type
  \<open>'s \<Rightarrow> ('r \<times> 's) option\<close>: the result and the state after it, or
  \<open>None\<close> where the Go code panics (a slice or index out of range, a nil pointer).
\<close>

section \<open>Go integers\<close>

text \<open>Go's \<open>int\<close> is 64 bits wide on every platform the operator is built for. \<open>i64\<close>
  is the value a 64-bit register holds after an addition, subtraction or multiplication.\<close>

definition i64 :: "int \<Rightarrow> int" where
  "i64 x = (x + 2 ^ 63) mod 2 ^ 64 - 2 ^ 63"

definition maxInt64 :: int where "maxInt64 = 2 ^ 63 - 1"
definition minInt64 :: int where "minInt64 = - (2 ^ 63)"
definition maxUint64 :: int where "maxUint64 = 2 ^ 64 - 1"

lemma i64_id: "minInt64 \<le> x \<Longrightarrow> x \<le> maxInt64 \<Longrightarrow> i64 x = x"
  by (simp add: i64_def minInt64_def maxInt64_def)

lemma i64_range: "minInt64 \<le> i64 x \<and> i64 x \<le> maxInt64"
  unfolding i64_def minInt64_def maxInt64_def
  using pos_mod_bound [of "2 ^ 64" "x + 2 ^ 63"] pos_mod_sign [of "2 ^ 64" "x + 2 ^ 63"] by auto

lemma i64_add_left: "i64 (i64 x + y) = i64 (x + y)"
proof -
  have "(i64 x + y + 2 ^ 63) mod 2 ^ 64 = ((x + 2 ^ 63) mod 2 ^ 64 + y) mod 2 ^ 64"
    by (simp add: i64_def)
  also have "\<dots> = (x + 2 ^ 63 + y) mod 2 ^ 64"
    by (rule mod_add_left_eq)
  also have "\<dots> = (x + y + 2 ^ 63) mod 2 ^ 64"
    by (simp add: algebra_simps)
  finally show ?thesis by (simp add: i64_def)
qed

section \<open>Postconditions of state-passing operations\<close>

named_theorems post_intro "rules of the postcondition calculus"

definition post :: "('r \<times> 's) option \<Rightarrow> ('r \<Rightarrow> 's \<Rightarrow> bool) \<Rightarrow> bool" where
  "post m Q = (\<forall>r s'. m = Some (r, s') \<longrightarrow> Q r s')"

lemma post_Some [post_intro]: "Q r s \<Longrightarrow> post (Some (r, s)) Q"
  by (simp add: post_def)

lemma post_None [post_intro]: "post None Q"
  by (simp add: post_def)

lemma post_bind: "post m (\<lambda>r s. post (f (r, s)) Q) \<Longrightarrow> post (m \<bind> f) Q"
  by (cases m) (auto simp: post_def)

lemma post_if [post_intro]:
  "(c \<Longrightarrow> post m Q) \<Longrightarrow> (\<not> c \<Longrightarrow> post n Q) \<Longrightarrow> post (if c then m else n) Q"
  by simp

lemma post_weaken: "post m P \<Longrightarrow> (\<And>r s. P r s \<Longrightarrow> Q r s) \<Longrightarrow> post m Q"
  by (auto simp: post_def)

lemma post_bindI:
  "post m P \<Longrightarrow> (\<And>r s. P r s \<Longrightarrow> post (f (r, s)) Q) \<Longrightarrow> post (m \<bind> f) Q"
  by (rule post_bind) (auto simp: post_def)

lemma postD: "post m Q \<Longrightarrow> m = Some (r, s') \<Longrightarrow> Q r s'"
  by (simp add: post_def)

lemma post_let [post_intro]: "(\<And>x. x = e \<Longrightarrow> post (f x) Q) \<Longrightarrow> post (let x = e in f x) Q"
  by simp

lemma post_case_sum [post_intro]:
  "(\<And>a. x = Inl a \<Longrightarrow> post (f a) Q) \<Longrightarrow> (\<And>b. x = Inr b \<Longrightarrow> post (g b) Q)
   \<Longrightarrow> post (case x of Inl a \<Rightarrow> f a | Inr b \<Rightarrow> g b) Q"
  by (cases x) auto

lemma post_case_option [post_intro]:
  "(x = None \<Longrightarrow> post f Q) \<Longrightarrow> (\<And>b. x = Some b \<Longrightarrow> post (g b) Q)
   \<Longrightarrow> post (case x of None \<Rightarrow> f | Some b \<Rightarrow> g b) Q"
  by (cases x) auto

lemma post_case_prod [post_intro]:
  "(\<And>a b. x = (a, b) \<Longrightarrow> post (f a b) Q) \<Longrightarrow> post (case x of (a, b) \<Rightarrow> f a b) Q"
  by (cases x) auto

lemma post_case_list [post_intro]:
  "(x = [] \<Longrightarrow> post f Q) \<Longrightarrow> (\<And>a b. x = a # b \<Longrightarrow> post (g a b) Q)
   \<Longrightarrow> post (case x of [] \<Rightarrow> f | a # b \<Rightarrow> g a b) Q"
  by (cases x) auto

section \<open>Iteration orders\<close>

text \<open>Ranging over a Go map visits its entries in an unspecified order. The environment
  supplies a code (a list of naturals) and \<open>shuffle\<close> turns the code into a permutation of
  the entries: the next entry visited is the one the next number selects among those left.
  Every permutation is reached by some code and no code reaches anything else.\<close>

function shuffle :: "nat list \<Rightarrow> 'a list \<Rightarrow> 'a list" where
  "shuffle code [] = []"
| "shuffle [] (x # xs) = x # xs"
| "shuffle (k # code) (x # xs) =
     (let j = k mod length (x # xs)
      in (x # xs) ! j # shuffle code (take j (x # xs) @ drop (Suc j) (x # xs)))"
  by pat_completeness auto
termination
  by (relation "measure (\<lambda>(c, xs). length c)") auto

lemma mset_shuffle: "mset (shuffle code xs) = mset xs"
proof (induction code xs rule: shuffle.induct)
  case (3 k code x xs)
  define j where "j = k mod length (x # xs)"
  have j: "j < length (x # xs)" by (simp add: j_def)
  have "mset (shuffle (k # code) (x # xs))
        = add_mset ((x # xs) ! j) (mset (take j (x # xs) @ drop (Suc j) (x # xs)))"
    using 3 [OF j_def] by (simp add: j_def Let_def del: mset_append)
  also have "\<dots> = mset (take j (x # xs) @ (x # xs) ! j # drop (Suc j) (x # xs))" by simp
  also have "\<dots> = mset (x # xs)" using id_take_nth_drop [OF j] by metis
  finally show ?case .
qed auto

lemma set_shuffle [simp]: "set (shuffle code xs) = set xs"
  by (rule mset_eq_setD [OF mset_shuffle])

lemma length_shuffle [simp]: "length (shuffle code xs) = length xs"
  by (metis mset_shuffle size_mset)

lemma distinct_shuffle [simp]: "distinct (shuffle code xs) = distinct xs"
  by (metis mset_shuffle mset_eq_imp_distinct_iff)

section \<open>Lists\<close>

text \<open>A Go slice expression \<open>xs[:n]\<close> beyond the length panics (up to the capacity, which
  the model takes to be the length).\<close>

definition slice_upto :: "int \<Rightarrow> 'a list \<Rightarrow> 'a list option" where
  "slice_upto n xs = (if 0 \<le> n \<and> n \<le> int (length xs) then Some (take (nat n) xs) else None)"

definition slice_from :: "int \<Rightarrow> 'a list \<Rightarrow> 'a list option" where
  "slice_from n xs = (if 0 \<le> n \<and> n \<le> int (length xs) then Some (drop (nat n) xs) else None)"

definition index_at :: "int \<Rightarrow> 'a list \<Rightarrow> 'a option" where
  "index_at n xs = (if 0 \<le> n \<and> n < int (length xs) then Some (xs ! nat n) else None)"

lemma slice_upto_set: "slice_upto n xs = Some ys \<Longrightarrow> set ys \<subseteq> set xs"
  by (auto simp: slice_upto_def dest: in_set_takeD split: if_splits)

lemma slice_from_set: "slice_from n xs = Some ys \<Longrightarrow> set ys \<subseteq> set xs"
  by (auto simp: slice_from_def dest: in_set_dropD split: if_splits)

lemma index_at_mem: "index_at n xs = Some x \<Longrightarrow> x \<in> set xs"
  by (auto simp: index_at_def split: if_splits)

fun find_index :: "('a \<Rightarrow> bool) \<Rightarrow> 'a list \<Rightarrow> nat option" where
  "find_index p [] = None"
| "find_index p (x # xs) = (if p x then Some 0 else map_option Suc (find_index p xs))"

lemma find_index_Some:
  "find_index p xs = Some i \<Longrightarrow> i < length xs \<and> p (xs ! i) \<and> (\<forall>j<i. \<not> p (xs ! j))"
proof (induction xs arbitrary: i)
  case (Cons x xs)
  then show ?case by (cases i) (auto simp: less_Suc_eq_0_disj split: if_splits)
qed simp

lemma find_index_None: "find_index p xs = None \<longleftrightarrow> (\<forall>x\<in>set xs. \<not> p x)"
  by (induction xs) auto

end
