(* ===== verification/Go_Strings.thy ===== *)
theory Go_Strings
  imports Prelude "HOL-Library.Char_ord" "HOL-Library.List_Lexorder" "HOL-Library.Sublist"
begin

text \<open>
  The functions of Go's \<open>strings\<close>, \<open>strconv\<close> and \<open>unicode\<close> packages that Robin calls, on
  ASCII text: a Go string is the list of its bytes. Redis replies, Kubernetes names and the
  configuration Robin handles are ASCII, where bytes and runes coincide.
\<close>

section \<open>Searching and cutting\<close>

definition is_space :: "char \<Rightarrow> bool" where
  "is_space c = (c \<in> {CHR 0x09, CHR 0x0A, CHR 0x0B, CHR 0x0C, CHR 0x0D, CHR 0x20})"

abbreviation newline :: char where "newline \<equiv> CHR 0x0A"

definition TrimSpace :: "string \<Rightarrow> string" where
  "TrimSpace s = rev (dropWhile is_space (rev (dropWhile is_space s)))"

definition HasPrefix :: "string \<Rightarrow> string \<Rightarrow> bool" where
  "HasPrefix s p = prefix p s"

fun Contains :: "string \<Rightarrow> string \<Rightarrow> bool" where
  "Contains [] sub = (sub = [])"
| "Contains (c # cs) sub = (prefix sub (c # cs) \<or> Contains cs sub)"

text \<open>\<open>Cut s sep = Some (before, after)\<close> around the first occurrence of \<open>sep\<close>;
  \<open>None\<close> when Go returns \<open>found == false\<close> (then \<open>before == s\<close>).\<close>

fun Cut :: "string \<Rightarrow> string \<Rightarrow> (string \<times> string) option" where
  "Cut [] sep = (if sep = [] then Some ([], []) else None)"
| "Cut (c # cs) sep =
     (if prefix sep (c # cs) then Some ([], drop (length sep) (c # cs))
      else map_option (\<lambda>(a, b). (c # a, b)) (Cut cs sep))"

text \<open>\<open>strings.Split\<close> and \<open>strings.SplitSeq\<close> with a one-byte separator.\<close>

fun Split :: "char \<Rightarrow> string \<Rightarrow> string list" where
  "Split sep [] = [[]]"
| "Split sep (c # cs) =
     (if c = sep then [] # Split sep cs
      else case Split sep cs of [] \<Rightarrow> [[c]] | p # ps \<Rightarrow> (c # p) # ps)"

text \<open>\<open>strings.FieldsFunc\<close>: the maximal runs of bytes that do not satisfy \<open>p\<close>.\<close>

fun fields_from :: "(char \<Rightarrow> bool) \<Rightarrow> string \<Rightarrow> string \<Rightarrow> string list" where
  "fields_from p cur [] = (if cur = [] then [] else [cur])"
| "fields_from p cur (c # cs) =
     (if p c then (if cur = [] then fields_from p [] cs else cur # fields_from p [] cs)
      else fields_from p (cur @ [c]) cs)"

definition FieldsFunc :: "(char \<Rightarrow> bool) \<Rightarrow> string \<Rightarrow> string list" where
  "FieldsFunc p s = fields_from p [] s"

definition Fields :: "string \<Rightarrow> string list" where
  "Fields s = FieldsFunc is_space s"

fun Join :: "string list \<Rightarrow> string \<Rightarrow> string" where
  "Join [] sep = []"
| "Join [x] sep = x"
| "Join (x # y # ys) sep = x @ sep @ Join (y # ys) sep"

text \<open>\<open>strings.ReplaceAll\<close> with a non-empty pattern.\<close>

function ReplaceAll :: "string \<Rightarrow> string \<Rightarrow> string \<Rightarrow> string" where
  "ReplaceAll [] old new = []"
| "ReplaceAll (c # cs) old new =
     (if old \<noteq> [] \<and> prefix old (c # cs)
      then new @ ReplaceAll (drop (length old) (c # cs)) old new
      else c # ReplaceAll cs old new)"
  by pat_completeness auto
termination
  by (relation "measure (\<lambda>(s, _, _). length s)") auto

definition Index :: "string \<Rightarrow> string \<Rightarrow> int" where
  "Index s sep = (case Cut s sep of None \<Rightarrow> -1 | Some (a, _) \<Rightarrow> int (length a))"

fun last_index_from :: "string \<Rightarrow> string \<Rightarrow> int \<Rightarrow> int \<Rightarrow> int" where
  "last_index_from [] sep i best = (if sep = [] then i else best)"
| "last_index_from (c # cs) sep i best =
     last_index_from cs sep (i + 1) (if prefix sep (c # cs) then i else best)"

definition LastIndex :: "string \<Rightarrow> string \<Rightarrow> int" where
  "LastIndex s sep = last_index_from s sep 0 (-1)"

section \<open>Numbers\<close>

definition is_digit :: "char \<Rightarrow> bool" where
  "is_digit c = (48 \<le> (of_char c :: nat) \<and> (of_char c :: nat) \<le> 57)"

definition digit_val :: "char \<Rightarrow> int" where
  "digit_val c = int (of_char c) - 48"

definition digit_char :: "nat \<Rightarrow> char" where
  "digit_char d = char_of (48 + d)"

datatype num_error = ErrSyntax | ErrRange

text \<open>\<open>strconv.ParseUint(s, 10, 64)\<close>: each byte is checked to be a digit before the value is
  checked against the range, so a value that is out of range wins over a later bad byte.\<close>

fun parse_uint :: "int \<Rightarrow> string \<Rightarrow> int \<times> num_error option" where
  "parse_uint n [] = (n, None)"
| "parse_uint n (c # cs) =
     (if \<not> is_digit c then (0, Some ErrSyntax)
      else if maxUint64 < 10 * n + digit_val c then (maxUint64, Some ErrRange)
      else parse_uint (10 * n + digit_val c) cs)"

text \<open>\<open>strconv.Atoi\<close>: the value and the error, both of which the code may use (on a range
  error the value is the nearest bound, on a syntax error 0).\<close>

definition atoi_signed :: "bool \<Rightarrow> string \<Rightarrow> int \<times> num_error option" where
  "atoi_signed neg ds =
     (if ds = [] then (0, Some ErrSyntax)
      else case parse_uint 0 ds of
             (_, Some ErrSyntax) \<Rightarrow> (0, Some ErrSyntax)
           | (u, _) \<Rightarrow>
               if \<not> neg \<and> 2 ^ 63 \<le> u then (maxInt64, Some ErrRange)
               else if neg \<and> 2 ^ 63 < u then (minInt64, Some ErrRange)
               else (if neg then - u else u, None))"

definition Atoi :: "string \<Rightarrow> int \<times> num_error option" where
  "Atoi s = (case s of
       [] \<Rightarrow> (0, Some ErrSyntax)
     | c # cs \<Rightarrow> if c = CHR ''-'' then atoi_signed True cs
                else if c = CHR ''+'' then atoi_signed False cs
                else atoi_signed False s)"

definition atoi :: "string \<Rightarrow> int option" where
  "atoi s = (case Atoi s of (v, None) \<Rightarrow> Some v | (_, Some _) \<Rightarrow> None)"

fun nat_digits :: "nat \<Rightarrow> string" where
  "nat_digits n = (if n < 10 then [digit_char n] else nat_digits (n div 10) @ [digit_char (n mod 10)])"

declare nat_digits.simps [simp del]

definition Itoa :: "int \<Rightarrow> string" where
  "Itoa i = (if i < 0 then CHR ''-'' # nat_digits (nat (- i)) else nat_digits (nat i))"

definition quote :: "string \<Rightarrow> string" where
  "quote s = [CHR 0x22] @ s @ [CHR 0x22]"

definition wrap :: "string \<Rightarrow> string \<Rightarrow> string" where
  "wrap context e = context @ '': '' @ e"

definition num_error_text :: "string \<Rightarrow> num_error \<Rightarrow> string" where
  "num_error_text s e = ''strconv.Atoi: parsing '' @ quote s @ '': '' @
     (case e of ErrSyntax \<Rightarrow> ''invalid syntax'' | ErrRange \<Rightarrow> ''value out of range'')"

section \<open>Facts\<close>

lemma is_digit_digit_char: "d < 10 \<Longrightarrow> is_digit (digit_char d)"
  by (simp add: is_digit_def digit_char_def of_char_of)

lemma digit_val_digit_char: "d < 10 \<Longrightarrow> digit_val (digit_char d) = int d"
  by (simp add: digit_val_def digit_char_def of_char_of)

lemma digit_val_bounds: "is_digit c \<Longrightarrow> 0 \<le> digit_val c \<and> digit_val c \<le> 9"
  by (auto simp: is_digit_def digit_val_def)

lemma is_digit_not_space: "is_digit c \<Longrightarrow> \<not> is_space c"
  by (auto simp: is_digit_def is_space_def of_char_def)

lemma is_digit_not_special:
  "is_digit c \<Longrightarrow> c \<noteq> CHR ''-'' \<and> c \<noteq> CHR ''+'' \<and> c \<noteq> CHR '','' \<and> c \<noteq> CHR ''['' \<and> c \<noteq> CHR '']''"
  by (auto simp: is_digit_def of_char_def)

lemma nat_digits_digits: "c \<in> set (nat_digits n) \<Longrightarrow> is_digit c"
proof (induction n rule: nat_digits.induct)
  case (1 n)
  then show ?case
    by (subst (asm) nat_digits.simps) (auto simp: is_digit_digit_char split: if_splits)
qed

lemma nat_digits_not_Nil [simp]: "nat_digits n \<noteq> []"
  by (subst nat_digits.simps) simp

lemma parse_uint_append:
  "parse_uint n xs = (v, None) \<Longrightarrow> parse_uint n (xs @ ys) = parse_uint v ys"
  by (induction xs arbitrary: n) (auto split: if_splits)

lemma parse_uint_nat_digits:
  "int m \<le> maxUint64 \<Longrightarrow> parse_uint 0 (nat_digits m) = (int m, None)"
proof (induction m rule: nat_digits.induct)
  case (1 m)
  show ?case
  proof (cases "m < 10")
    case True
    then show ?thesis
      using 1(2)
      by (subst nat_digits.simps) (simp add: is_digit_digit_char digit_val_digit_char)
  next
    case False
    have le: "int (m div 10) \<le> maxUint64" using 1(2) by linarith
    have split: "10 * int (m div 10) + int (m mod 10) = int m"
      by (metis mult_div_mod_eq of_nat_add of_nat_mult of_nat_numeral)
    show ?thesis
      using False 1(2) parse_uint_append [OF 1(1) [OF False le]] split
      by (subst nat_digits.simps) (simp add: is_digit_digit_char digit_val_digit_char)
  qed
qed

lemma Atoi_nat_digits:
  assumes "int m \<le> maxInt64"
  shows "Atoi (nat_digits m) = (int m, None)"
proof -
  obtain c cs where c: "nat_digits m = c # cs" by (cases "nat_digits m") auto
  have d: "is_digit c" using nat_digits_digits [of c m] c by simp
  have "parse_uint 0 (nat_digits m) = (int m, None)"
    using assms by (intro parse_uint_nat_digits) (simp add: maxInt64_def maxUint64_def)
  then show ?thesis
    using assms is_digit_not_special [OF d]
    by (simp add: Atoi_def c atoi_signed_def maxInt64_def)
qed

lemma Atoi_Itoa: "0 \<le> i \<Longrightarrow> i \<le> maxInt64 \<Longrightarrow> Atoi (Itoa i) = (i, None)"
  using Atoi_nat_digits [of "nat i"] by (simp add: Itoa_def)

lemma parse_uint_bounds:
  "parse_uint n s = (v, e) \<Longrightarrow> 0 \<le> n \<Longrightarrow> n \<le> maxUint64 \<Longrightarrow> 0 \<le> v \<and> v \<le> maxUint64"
proof (induction s arbitrary: n)
  case (Cons c cs)
  then show ?case
    using digit_val_bounds [of c] by (auto simp: maxUint64_def split: if_splits)
qed auto

lemma atoi_signed_bounds: "minInt64 \<le> fst (atoi_signed neg ds) \<and> fst (atoi_signed neg ds) \<le> maxInt64"
proof -
  obtain u e where u: "parse_uint 0 ds = (u, e)" by fastforce
  have "0 \<le> u" using parse_uint_bounds [OF u] by (simp add: maxUint64_def)
  then show ?thesis
    by (cases e; cases "the e") (simp_all add: atoi_signed_def u minInt64_def maxInt64_def)
qed

lemma Atoi_bounds: "minInt64 \<le> fst (Atoi s) \<and> fst (Atoi s) \<le> maxInt64"
  using atoi_signed_bounds by (cases s) (simp_all add: Atoi_def minInt64_def maxInt64_def)

lemma fields_from_run: "\<forall>c\<in>set w. \<not> p c \<Longrightarrow> fields_from p cur (w @ s) = fields_from p (cur @ w) s"
  by (induction w arbitrary: cur) auto

lemma fields_from_nonsep:
  "list_all (\<lambda>c. \<not> p c) cur \<Longrightarrow> list_all (\<lambda>w. w \<noteq> [] \<and> list_all (\<lambda>c. \<not> p c) w) (fields_from p cur s)"
  by (induction s arbitrary: cur) simp_all

lemma FieldsFunc_nonsep: "w \<in> set (FieldsFunc p s) \<Longrightarrow> w \<noteq> [] \<and> (\<forall>c\<in>set w. \<not> p c)"
  using fields_from_nonsep [of p "[]" s] by (simp add: FieldsFunc_def list_all_iff)

lemma FieldsFunc_Join:
  assumes "\<And>w. w \<in> set ws \<Longrightarrow> w \<noteq> [] \<and> (\<forall>c\<in>set w. \<not> p c)" and "p sep"
  shows "FieldsFunc p (Join ws [sep]) = ws"
  using assms(1)
proof (induction ws "[sep]" rule: Join.induct)
  case (2 x)
  then show ?case using fields_from_run [of x p "[]" "[]"] by (simp add: FieldsFunc_def)
next
  case (3 x y ys)
  have x: "x \<noteq> []" "\<forall>c\<in>set x. \<not> p c" using 3(2) [of x] by simp_all
  have "FieldsFunc p (Join (y # ys) [sep]) = y # ys" using 3(2) by (intro 3(1)) auto
  then show ?case
    using fields_from_run [OF x(2), of "[]" "sep # Join (y # ys) [sep]"] assms(2) x(1)
    by (simp add: FieldsFunc_def)
qed (simp add: FieldsFunc_def)

lemma TrimSpace_id:
  assumes "s \<noteq> []" and "\<not> is_space (hd s)" and "\<not> is_space (last s)"
  shows "TrimSpace s = s"
proof -
  have "dropWhile is_space s = s" using assms by (cases s) auto
  moreover have "dropWhile is_space (rev s) = rev s"
    using assms by (cases "rev s") (auto simp: hd_rev [symmetric])
  ultimately show ?thesis by (simp add: TrimSpace_def)
qed

lemma Contains_single: "Contains s [c] = (c \<in> set s)"
  by (induction s) auto

lemma Contains_iff: "Contains s sub = (\<exists>a b. s = a @ sub @ b)"
proof (induction s)
  case (Cons c cs)
  have "(\<exists>a b. c # cs = a @ sub @ b) = ((\<exists>b. c # cs = sub @ b) \<or> (\<exists>a b. cs = a @ sub @ b))"
    by (metis append_Cons append_eq_Cons_conv append_Nil)
  then show ?case by (simp add: Cons.IH prefix_def)
qed auto

lemma Split_not_Nil [simp]: "Split sep s \<noteq> []"
  by (cases s) (auto split: list.splits)

lemma Split_no_sep: "sep \<notin> set s \<Longrightarrow> Split sep s = [s]"
  by (induction s) auto

lemma Split_append_sep: "sep \<notin> set a \<Longrightarrow> Split sep (a @ sep # b) = a # Split sep b"
  by (induction a) (auto split: list.splits)

lemma Cut_single:
  "sep \<notin> set a \<Longrightarrow> Cut (a @ sep # b) [sep] = Some (a, b)"
  by (induction a) auto

lemma Cut_single_None: "sep \<notin> set s \<Longrightarrow> Cut s [sep] = None"
  by (induction s) auto

lemma Join_hd: "ws \<noteq> [] \<Longrightarrow> hd ws \<noteq> [] \<Longrightarrow> Join ws sep \<noteq> [] \<and> hd (Join ws sep) = hd (hd ws)"
  by (induction ws sep rule: Join.induct) auto

lemma Join_last: "ws \<noteq> [] \<Longrightarrow> last ws \<noteq> [] \<Longrightarrow> last (Join ws sep) = last (last ws) \<and> Join ws sep \<noteq> []"
  by (induction ws sep rule: Join.induct) auto

lemma Itoa_zero: "Itoa 0 = ''0''"
  by code_simp

end
