(* ===== verification/Redis_Slots.thy ===== *)
theory Redis_Slots
  imports Go_Strings
begin

text \<open>
  Slot expressions of the \<open>redis\<close> package: \<open>slot_ranges.go\<close> (\<open>ParseSlotRanges\<close>,
  \<open>CountSlots\<close>) and the slot parsing of \<open>cluster_reshard.go\<close> (\<open>CountSlotsFromRanges\<close>,
  \<open>ParseOpenSlots\<close> and their local string helpers). An error is its message; a function that
  returns a value and an error returns \<open>Inl message\<close> or \<open>Inr value\<close>.
\<close>

type_synonym err = string

section \<open>slot_ranges.go\<close>

datatype slot_range = SlotRange (Start: int) (End: int)

text \<open>The order \<open>slotsCovered\<close> sorts by: start first, then end.\<close>

instantiation slot_range :: linorder
begin

definition less_eq_slot_range :: "slot_range \<Rightarrow> slot_range \<Rightarrow> bool" where
  "less_eq_slot_range a b = (Start a < Start b \<or> Start a = Start b \<and> End a \<le> End b)"

definition less_slot_range :: "slot_range \<Rightarrow> slot_range \<Rightarrow> bool" where
  "less_slot_range a b = (Start a < Start b \<or> Start a = Start b \<and> End a < End b)"

instance
  by standard (auto simp: less_eq_slot_range_def less_slot_range_def intro: slot_range.expand)

end

fun parseSlotToken :: "string \<Rightarrow> err + slot_range" where
  "parseSlotToken token =
     (if token = [] then Inl ''empty slot token''
      else if Contains token ''['' \<or> Contains token '']''
      then Inl (''unsupported slot token '' @ quote token)
      else if Contains token ''-'' then
        (case Split (CHR ''-'') token of
           [a, b] \<Rightarrow>
             (case Atoi a of
                (_, Some e) \<Rightarrow> Inl (wrap (''invalid slot range '' @ quote token) (num_error_text a e))
              | (start, None) \<Rightarrow>
                (case Atoi b of
                   (_, Some e) \<Rightarrow> Inl (wrap (''invalid slot range '' @ quote token) (num_error_text b e))
                 | (end', None) \<Rightarrow>
                     if start < 0 \<or> end' < start then Inl (''invalid slot range '' @ quote token)
                     else Inr (SlotRange start end')))
         | _ \<Rightarrow> Inl (''invalid slot range '' @ quote token))
      else
        (case Atoi token of
           (_, Some e) \<Rightarrow> Inl (wrap (''invalid slot token '' @ quote token) (num_error_text token e))
         | (slot, None) \<Rightarrow>
             if slot < 0 then Inl (''invalid slot token '' @ quote token)
             else Inr (SlotRange slot slot)))"

declare parseSlotToken.simps [simp del]

definition slot_separator :: "char \<Rightarrow> bool" where
  "slot_separator r = (is_space r \<or> r = CHR '','')"

fun parse_slot_tokens :: "string list \<Rightarrow> slot_range list \<Rightarrow> err + slot_range list" where
  "parse_slot_tokens [] ranges = Inr ranges"
| "parse_slot_tokens (token # rest) ranges =
     (case parseSlotToken token of
        Inl e \<Rightarrow> Inl e
      | Inr rng \<Rightarrow> parse_slot_tokens rest (ranges @ [rng]))"

definition ParseSlotRanges :: "string \<Rightarrow> err + slot_range list" where
  "ParseSlotRanges raw0 =
     (let raw = TrimSpace raw0
      in if raw = [] then Inr []
         else parse_slot_tokens (FieldsFunc slot_separator raw) [])"

fun count_slots_from :: "int \<Rightarrow> slot_range list \<Rightarrow> int" where
  "count_slots_from tot [] = tot"
| "count_slots_from tot (rng # rest) =
     count_slots_from (i64 (tot + i64 (End rng - Start rng + 1))) rest"

definition CountSlots :: "slot_range list \<Rightarrow> int" where
  "CountSlots ranges = count_slots_from 0 ranges"

section \<open>cluster_reshard.go\<close>

text \<open>\<open>splitFields\<close> splits at blanks and tabs only.\<close>

definition splitFields :: "string \<Rightarrow> string list" where
  "splitFields s = fields_from (\<lambda>c. c = CHR '' '' \<or> c = CHR 0x09) [] s"

text \<open>\<open>cutString\<close> looks for the separator at every index of the string; with the non-empty
  separator it is called with it is \<open>strings.Cut\<close>.\<close>

fun cutString :: "string \<Rightarrow> string \<Rightarrow> string \<times> string \<times> bool" where
  "cutString [] sep = ([], [], False)"
| "cutString (c # cs) sep =
     (if prefix sep (c # cs) then ([], drop (length sep) (c # cs), True)
      else (case cutString cs sep of
              (before, after, True) \<Rightarrow> (c # before, after, True)
            | (_, _, False) \<Rightarrow> (c # cs, [], False)))"

definition count_part :: "int \<Rightarrow> string \<Rightarrow> int" where
  "count_part tot part =
     (if prefix ''['' part then tot
      else case cutString part ''-'' of
        (_, _, False) \<Rightarrow> i64 (tot + 1)
      | (lo, hi, True) \<Rightarrow>
         (case (Atoi lo, Atoi hi) of
            ((loVal, None), (hiVal, None)) \<Rightarrow> i64 (tot + i64 (hiVal - loVal + 1))
          | _ \<Rightarrow> tot))"

definition CountSlotsFromRanges :: "string \<Rightarrow> int" where
  "CountSlotsFromRanges slotStr =
     (if slotStr = [] then 0 else foldl count_part 0 (splitFields slotStr))"

definition open_slot_part :: "int list \<Rightarrow> string \<Rightarrow> int list" where
  "open_slot_part slots part =
     (if length part < 2 \<or> hd part \<noteq> CHR ''['' then slots
      else let inner = tl part; digits = takeWhile is_digit inner
           in if digits = [] then slots
              else case Atoi digits of
                     (slot, None) \<Rightarrow> slots @ [slot]
                   | (_, Some _) \<Rightarrow> slots)"

definition ParseOpenSlots :: "string \<Rightarrow> int list" where
  "ParseOpenSlots slotStr = foldl open_slot_part [] (splitFields slotStr)"

section \<open>What the parsers compute\<close>

definition valid_range :: "slot_range \<Rightarrow> bool" where
  "valid_range r = (0 \<le> Start r \<and> Start r \<le> End r \<and> End r \<le> maxInt64)"

definition slots_of :: "slot_range \<Rightarrow> int set" where
  "slots_of r = {Start r..End r}"

definition slots_of_all :: "slot_range list \<Rightarrow> int set" where
  "slots_of_all rs = (\<Union>r\<in>set rs. slots_of r)"

lemma slots_of_all_simps [simp]:
  "slots_of_all [] = {}"
  "slots_of_all (r # rs) = slots_of r \<union> slots_of_all rs"
  "slots_of_all (xs @ ys) = slots_of_all xs \<union> slots_of_all ys"
  by (auto simp: slots_of_all_def)

lemma parseSlotToken_valid: "parseSlotToken t = Inr r \<Longrightarrow> valid_range r"
proof -
  assume *: "parseSlotToken t = Inr r"
  have bound: "\<And>s v e. Atoi s = (v, e) \<Longrightarrow> v \<le> maxInt64"
    using Atoi_bounds by (metis fst_conv)
  show ?thesis
    using *
    by (auto simp: parseSlotToken.simps valid_range_def
        split: if_splits prod.splits option.splits list.splits dest: bound)
qed

lemma parse_slot_tokens_acc:
  "parse_slot_tokens ts acc = map_sum id (\<lambda>rs. acc @ rs) (parse_slot_tokens ts [])"
proof (induction ts arbitrary: acc)
  case (Cons t ts)
  show ?case
  proof (cases "parseSlotToken t")
    case (Inr r)
    then show ?thesis
      using Cons.IH [of "acc @ [r]"] Cons.IH [of "[r]"]
      by (cases "parse_slot_tokens ts []") simp_all
  qed simp
qed simp

lemma parse_slot_tokens_Inr:
  "parse_slot_tokens ts [] = Inr rs \<longleftrightarrow> list_all2 (\<lambda>t r. parseSlotToken t = Inr r) ts rs"
proof (induction ts arbitrary: rs)
  case (Cons t ts)
  show ?case
    using Cons.IH parse_slot_tokens_acc [of ts "[r]" for r]
    by (cases "parseSlotToken t"; cases rs; cases "parse_slot_tokens ts []") auto
qed auto

lemma parse_slot_tokens_append:
  "parse_slot_tokens (xs @ ys) [] =
     (case parse_slot_tokens xs [] of
        Inl e \<Rightarrow> Inl e
      | Inr rs \<Rightarrow> map_sum id (\<lambda>qs. rs @ qs) (parse_slot_tokens ys []))"
proof (induction xs)
  case (Cons x xs)
  show ?case
    using Cons.IH parse_slot_tokens_acc [of "xs @ ys" "[r]" for r] parse_slot_tokens_acc [of xs "[r]" for r]
    by (cases "parseSlotToken x"; cases "parse_slot_tokens xs []"; cases "parse_slot_tokens ys []") auto
qed (cases "parse_slot_tokens ys []"; simp)

lemma parse_slot_tokens_valid:
  "parse_slot_tokens ts [] = Inr rs \<Longrightarrow> \<forall>r\<in>set rs. valid_range r"
  unfolding parse_slot_tokens_Inr
  by (induction rule: list_all2_induct) (auto dest: parseSlotToken_valid)

lemma ParseSlotRanges_valid:
  "ParseSlotRanges s = Inr rs \<Longrightarrow> \<forall>r\<in>set rs. valid_range r"
  by (auto simp: ParseSlotRanges_def Let_def dest: parse_slot_tokens_valid split: if_splits)

section \<open>The slots column as Redis writes it\<close>

text \<open>Abstractly the last column of a CLUSTER NODES line is a list of entries: ranges the node
  owns, and slots it is migrating to or importing from another node. \<open>entries_text\<close> is the text
  Redis prints for it.\<close>

datatype slot_entry =
    Owned slot_range
  | Migrating int string
  | Importing int string

definition range_text :: "slot_range \<Rightarrow> string" where
  "range_text r = (if Start r = End r then Itoa (Start r) else Itoa (Start r) @ ''-'' @ Itoa (End r))"

fun entry_text :: "slot_entry \<Rightarrow> string" where
  "entry_text (Owned r) = range_text r"
| "entry_text (Migrating s i) = ''['' @ Itoa s @ ''->-'' @ i @ '']''"
| "entry_text (Importing s i) = ''['' @ Itoa s @ ''-<-'' @ i @ '']''"

definition entries_text :: "slot_entry list \<Rightarrow> string" where
  "entries_text es = Join (map entry_text es) '' ''"

fun valid_entry :: "slot_entry \<Rightarrow> bool" where
  "valid_entry (Owned r) = valid_range r"
| "valid_entry (Migrating s i) = (0 \<le> s \<and> s \<le> maxInt64 \<and> (\<forall>c\<in>set i. \<not> is_space c))"
| "valid_entry (Importing s i) = (0 \<le> s \<and> s \<le> maxInt64 \<and> (\<forall>c\<in>set i. \<not> is_space c))"

fun owned_ranges :: "slot_entry list \<Rightarrow> slot_range list" where
  "owned_ranges [] = []"
| "owned_ranges (Owned r # es) = r # owned_ranges es"
| "owned_ranges (Migrating s i # es) = owned_ranges es"
| "owned_ranges (Importing s i # es) = owned_ranges es"

fun open_slots :: "slot_entry list \<Rightarrow> int list" where
  "open_slots [] = []"
| "open_slots (Owned r # es) = open_slots es"
| "open_slots (Migrating s i # es) = s # open_slots es"
| "open_slots (Importing s i # es) = s # open_slots es"

lemma Itoa_digits: "0 \<le> i \<Longrightarrow> c \<in> set (Itoa i) \<Longrightarrow> is_digit c"
  by (auto simp: Itoa_def nat_digits_digits)

lemma Itoa_nonempty [simp]: "Itoa i \<noteq> []"
  by (simp add: Itoa_def)

lemma Itoa_plain:
  "0 \<le> i \<Longrightarrow> CHR ''-'' \<notin> set (Itoa i) \<and> CHR ''['' \<notin> set (Itoa i) \<and> CHR '']'' \<notin> set (Itoa i)"
  using Itoa_digits is_digit_not_special by metis

lemma range_text_chars: "valid_range r \<Longrightarrow> c \<in> set (range_text r) \<Longrightarrow> is_digit c \<or> c = CHR ''-''"
  using Itoa_digits [of "Start r" c] Itoa_digits [of "End r" c]
  by (auto simp: range_text_def valid_range_def split: if_splits)

lemma range_text_brackets:
  assumes "valid_range r"
  shows "CHR ''['' \<notin> set (range_text r)" and "CHR '']'' \<notin> set (range_text r)"
proof -
  have "c \<noteq> CHR ''['' \<and> c \<noteq> CHR '']''" if "c \<in> set (range_text r)" for c
    using range_text_chars [OF assms that] is_digit_not_special [of c] by auto
  then show "CHR ''['' \<notin> set (range_text r)" and "CHR '']'' \<notin> set (range_text r)" by blast+
qed

lemma range_text_nonempty [simp]: "range_text r \<noteq> []"
  by (simp add: range_text_def)

lemma minus_not_separator: "\<not> is_space (CHR ''-'') \<and> \<not> slot_separator (CHR ''-'')"
  by (simp add: slot_separator_def is_space_def)

lemma range_text_clean: "valid_range r \<Longrightarrow> c \<in> set (range_text r) \<Longrightarrow> \<not> slot_separator c"
  using range_text_chars [of r c] is_digit_not_space [of c] is_digit_not_special [of c] minus_not_separator
  by (auto simp: slot_separator_def)

lemma parseSlotToken_range_text: "valid_range r \<Longrightarrow> parseSlotToken (range_text r) = Inr r"
proof -
  assume v: "valid_range r"
  then have b: "0 \<le> Start r" "Start r \<le> maxInt64" "0 \<le> End r" "End r \<le> maxInt64" "Start r \<le> End r"
    by (simp_all add: valid_range_def)
  note nb = range_text_brackets [OF v]
  show ?thesis
  proof (cases "Start r = End r")
    case True
    then have "range_text r = Itoa (Start r)" by (simp add: range_text_def)
    then show ?thesis
      using b True Itoa_plain [of "Start r"] Atoi_Itoa [of "Start r"] nb
      by (simp add: parseSlotToken.simps Contains_single slot_range.expand)
  next
    case False
    then have t: "range_text r = Itoa (Start r) @ CHR ''-'' # Itoa (End r)" by (simp add: range_text_def)
    have "Split (CHR ''-'') (range_text r) = [Itoa (Start r), Itoa (End r)]"
      using b Itoa_plain by (simp add: t Split_append_sep Split_no_sep)
    then show ?thesis
      using b nb Atoi_Itoa [of "Start r"] Atoi_Itoa [of "End r"]
      by (simp add: parseSlotToken.simps Contains_single t slot_range.expand)
  qed
qed

lemma parse_slot_tokens_range_texts:
  "\<forall>r\<in>set rs. valid_range r \<Longrightarrow> parse_slot_tokens (map range_text rs) [] = Inr rs"
  unfolding parse_slot_tokens_Inr
  by (simp add: list_all2_conv_all_nth parseSlotToken_range_text)

text \<open>C30: the slot parser inverts Redis's printer: on the text of any list of well-formed
  ranges (blank separated, single slots printed without a dash) \<open>ParseSlotRanges\<close> returns exactly
  that list.\<close>

theorem ParseSlotRanges_roundtrip:
  assumes "\<forall>r\<in>set rs. valid_range r"
  shows "ParseSlotRanges (Join (map range_text rs) '' '') = Inr rs"
proof (cases "rs = []")
  case False
  let ?t = "Join (map range_text rs) '' ''"
  have ne: "map range_text rs \<noteq> []" using False by simp
  have hd: "hd (map range_text rs) \<noteq> []" and la: "last (map range_text rs) \<noteq> []"
    using False by (simp_all add: hd_map last_map)
  have clean: "\<And>w. w \<in> set (map range_text rs) \<Longrightarrow> w \<noteq> [] \<and> (\<forall>c\<in>set w. \<not> slot_separator c)"
    using assms range_text_clean by auto
  have ends: "\<not> is_space (hd ?t)" "\<not> is_space (last ?t)"
  proof -
    have "hd (hd (map range_text rs)) \<in> set (hd (map range_text rs))" using hd by simp
    then show "\<not> is_space (hd ?t)"
      using clean [OF hd_in_set [OF ne]] Join_hd [OF ne hd] by (auto simp: slot_separator_def)
    have "last (last (map range_text rs)) \<in> set (last (map range_text rs))" using la by simp
    then show "\<not> is_space (last ?t)"
      using clean [OF last_in_set [OF ne]] Join_last [OF ne la] by (auto simp: slot_separator_def)
  qed
  have "TrimSpace ?t = ?t" using ends Join_hd [OF ne hd] by (intro TrimSpace_id) auto
  moreover have "FieldsFunc slot_separator ?t = map range_text rs"
    by (rule FieldsFunc_Join) (use clean in \<open>auto simp: slot_separator_def is_space_def\<close>)
  ultimately show ?thesis
    using Join_hd [OF ne hd] parse_slot_tokens_range_texts [OF assms]
    by (simp add: ParseSlotRanges_def)
qed (simp add: ParseSlotRanges_def TrimSpace_def)

lemma ParseSlotRanges_roundtrip_witness:
  "ParseSlotRanges (Join (map range_text [SlotRange 0 5460, SlotRange 7000 7000]) '' '')
   = Inr [SlotRange 0 5460, SlotRange 7000 7000]"
  by (rule ParseSlotRanges_roundtrip) (simp add: valid_range_def maxInt64_def)

section \<open>Counting and open slots on that text\<close>

lemma i64_nest: "i64 (i64 (t + i64 x) + y) = i64 (t + (x + y))"
proof -
  have "i64 (i64 (t + i64 x) + y) = i64 (i64 x + (t + y))"
    using i64_add_left [of "t + i64 x" y] by (simp add: algebra_simps)
  then show ?thesis using i64_add_left [of x "t + y"] by (simp add: algebra_simps)
qed

lemma i64_add_right: "i64 (t + i64 x) = i64 (t + x)"
  using i64_add_left [of x t] by (simp add: add.commute)

lemma count_slots_from_sum:
  "count_slots_from tot rs = (if rs = [] then tot else i64 (tot + (\<Sum>r\<leftarrow>rs. End r - Start r + 1)))"
proof (induction rs arbitrary: tot)
  case (Cons r rs)
  show ?case
    using i64_nest [of tot "End r - Start r + 1" "\<Sum>r\<leftarrow>rs. End r - Start r + 1"]
      i64_add_right [of tot "End r - Start r + 1"]
    by (simp add: Cons.IH)
qed simp

lemma card_slots_of: "valid_range r \<Longrightarrow> int (card (slots_of r)) = End r - Start r + 1"
  by (simp add: slots_of_def valid_range_def)

lemma CountSlots_card:
  assumes "\<forall>r\<in>set rs. valid_range r"
  shows "CountSlots rs = i64 (\<Sum>r\<leftarrow>rs. int (card (slots_of r)))"
proof -
  have "(\<Sum>r\<leftarrow>rs. End r - Start r + 1) = (\<Sum>r\<leftarrow>rs. int (card (slots_of r)))"
    using assms by (induction rs) (simp_all add: card_slots_of)
  moreover have "i64 0 = 0" by (simp add: i64_def)
  ultimately show ?thesis by (cases "rs = []") (simp_all add: CountSlots_def count_slots_from_sum)
qed

lemma cutString_at:
  "sep \<notin> set a \<Longrightarrow> cutString (a @ sep # b) [sep] = (a, b, True)"
  by (induction a) auto

lemma cutString_none: "sep \<notin> set s \<Longrightarrow> cutString s [sep] = (s, [], False)"
  by (induction s) auto

lemma count_part_range:
  assumes "valid_range r"
  shows "count_part tot (range_text r) = i64 (tot + i64 (End r - Start r + 1))"
proof -
  have b: "0 \<le> Start r" "Start r \<le> maxInt64" "0 \<le> End r" "End r \<le> maxInt64"
    using assms by (simp_all add: valid_range_def)
  have nb: "\<not> prefix ''['' (range_text r)"
    using range_text_brackets [OF assms] by (cases "range_text r") auto
  show ?thesis
  proof (cases "Start r = End r")
    case True
    then show ?thesis
      using nb b cutString_none [of "CHR ''-''" "Itoa (Start r)"] Itoa_plain [of "Start r"]
      by (simp add: count_part_def range_text_def i64_def)
  next
    case False
    then show ?thesis
      using nb b cutString_at [of "CHR ''-''" "Itoa (Start r)" "Itoa (End r)"]
        Itoa_plain [of "Start r"] Atoi_Itoa [of "Start r"] Atoi_Itoa [of "End r"]
      by (simp add: count_part_def range_text_def)
  qed
qed

lemma count_part_marker:
  "count_part tot (entry_text (Migrating s i)) = tot"
  "count_part tot (entry_text (Importing s i)) = tot"
  by (simp_all add: count_part_def)

lemma open_slot_marker:
  assumes "0 \<le> s" "s \<le> maxInt64"
  shows "open_slot_part acc (entry_text (Migrating s i)) = acc @ [s]"
    and "open_slot_part acc (entry_text (Importing s i)) = acc @ [s]"
proof -
  have nd: "\<not> is_digit (CHR ''-'')" by (simp add: is_digit_def)
  have tw: "takeWhile is_digit (Itoa s @ CHR ''-'' # t) = Itoa s" for t
    using Itoa_digits [OF assms(1)] nd by (simp add: takeWhile_append)
  show "open_slot_part acc (entry_text (Migrating s i)) = acc @ [s]"
    and "open_slot_part acc (entry_text (Importing s i)) = acc @ [s]"
    using assms tw by (simp_all add: open_slot_part_def Let_def Atoi_Itoa)
qed

lemma open_slot_range:
  "valid_range r \<Longrightarrow> open_slot_part acc (range_text r) = acc"
  using range_text_brackets [of r]
  by (cases "range_text r") (auto simp: open_slot_part_def)

lemma Itoa_no_space: "0 \<le> i \<Longrightarrow> list_all (\<lambda>c. \<not> is_space c) (Itoa i)"
  by (simp add: list_all_iff Itoa_digits is_digit_not_space)

lemma marker_no_space:
  "\<not> is_space (CHR ''['')" "\<not> is_space (CHR '']'')" "\<not> is_space (CHR ''-'')"
  "\<not> is_space (CHR ''>'')" "\<not> is_space (CHR ''<'')"
  by (simp_all add: is_space_def)

lemma entry_text_clean:
  "valid_entry e \<Longrightarrow> entry_text e \<noteq> [] \<and> list_all (\<lambda>c. \<not> is_space c) (entry_text e)"
proof (cases e)
  case (Owned r)
  then show "valid_entry e \<Longrightarrow> ?thesis"
    using range_text_clean [of r] by (simp add: slot_separator_def list_all_iff)
qed (simp_all add: Itoa_no_space marker_no_space list_all_iff [symmetric])

lemma fields_entries:
  assumes "\<forall>e\<in>set es. valid_entry e"
  shows "splitFields (entries_text es) = map entry_text es"
proof -
  have "FieldsFunc (\<lambda>c. c = CHR '' '' \<or> c = CHR 0x09) (Join (map entry_text es) '' '') = map entry_text es"
  proof (rule FieldsFunc_Join)
    fix w assume "w \<in> set (map entry_text es)"
    then have "w \<noteq> [] \<and> list_all (\<lambda>c. \<not> is_space c) w" using assms entry_text_clean by auto
    then show "w \<noteq> [] \<and> (\<forall>c\<in>set w. \<not> (c = CHR '' '' \<or> c = CHR 0x09))"
      by (auto simp: list_all_iff is_space_def)
  qed simp
  then show ?thesis by (simp add: splitFields_def entries_text_def FieldsFunc_def)
qed

lemma foldl_count_entries:
  "\<forall>e\<in>set es. valid_entry e \<Longrightarrow>
   foldl count_part tot (map entry_text es) = count_slots_from tot (owned_ranges es)"
  by (induction es arbitrary: tot rule: owned_ranges.induct)
    (simp_all add: count_part_range count_part_marker del: entry_text.simps(2,3))

lemma foldl_open_entries:
  "\<forall>e\<in>set es. valid_entry e \<Longrightarrow>
   foldl open_slot_part acc (map entry_text es) = acc @ open_slots es"
  by (induction es arbitrary: acc rule: open_slots.induct)
    (simp_all add: open_slot_range open_slot_marker del: entry_text.simps(2,3))

text \<open>On any slots column Redis prints, migration markers included, the slot counter counts
  exactly the slots of the owned ranges, as \<open>CountSlots\<close> does on the parsed list, and the
  open-slot scanner returns exactly the slots of the migrating and importing markers, in order.\<close>

lemma slots_column_parsers:
  assumes "\<forall>e\<in>set es. valid_entry e"
  shows "CountSlotsFromRanges (entries_text es) = CountSlots (owned_ranges es)
       \<and> ParseOpenSlots (entries_text es) = open_slots es"
proof -
  have "CountSlotsFromRanges (entries_text es) = foldl count_part 0 (map entry_text es)"
    using fields_entries [OF assms]
    by (cases "entries_text es = []") (auto simp: CountSlotsFromRanges_def splitFields_def)
  then show ?thesis
    using assms fields_entries [OF assms]
    by (simp add: foldl_count_entries foldl_open_entries CountSlots_def ParseOpenSlots_def)
qed

lemma slots_column_parsers_witness:
  "CountSlotsFromRanges (entries_text [Owned (SlotRange 0 99), Migrating 7 ''abc'', Owned (SlotRange 200 200)]) = 101
   \<and> ParseOpenSlots (entries_text [Owned (SlotRange 0 99), Migrating 7 ''abc'', Owned (SlotRange 200 200)]) = [7]"
  using slots_column_parsers [of "[Owned (SlotRange 0 99), Migrating 7 ''abc'', Owned (SlotRange 200 200)]"]
  by (simp add: valid_range_def maxInt64_def is_space_def CountSlots_def i64_def)

section \<open>Fields within fields\<close>

lemma TrimSpace_split:
  obtains a b where "s = a @ TrimSpace s @ b" "\<forall>c\<in>set a. is_space c" "\<forall>c\<in>set b. is_space c"
proof -
  define t where "t = dropWhile is_space s"
  have 1: "s = takeWhile is_space s @ t" by (simp add: t_def)
  have 2: "t = rev (dropWhile is_space (rev t)) @ rev (takeWhile is_space (rev t))"
    by (metis rev_append rev_rev_ident takeWhile_dropWhile_id)
  show ?thesis
    by (rule that [of "takeWhile is_space s" "rev (takeWhile is_space (rev t))"])
      (use 1 2 in \<open>auto simp: TrimSpace_def t_def [symmetric] dest: set_takeWhileD\<close>)
qed

lemma fields_from_trailing: "\<forall>c\<in>set b. p c \<Longrightarrow> fields_from p cur (s @ b) = fields_from p cur s"
proof (induction s arbitrary: cur)
  case Nil
  then show ?case
  proof (induction b arbitrary: cur)
    case (Cons c b)
    then show ?case using Cons.IH [of "[]"] by simp
  qed simp
qed simp

lemma fields_from_leading: "\<forall>c\<in>set a. p c \<Longrightarrow> fields_from p [] (a @ s) = fields_from p [] s"
  by (induction a) simp_all

lemma FieldsFunc_TrimSpace:
  assumes "\<And>c. is_space c \<Longrightarrow> p c"
  shows "FieldsFunc p (TrimSpace s) = FieldsFunc p s"
proof -
  obtain a b where s: "s = a @ TrimSpace s @ b"
    and a: "\<forall>c\<in>set a. is_space c" and b: "\<forall>c\<in>set b. is_space c"
    by (rule TrimSpace_split)
  have "fields_from p [] (a @ (TrimSpace s @ b)) = fields_from p [] (TrimSpace s)"
    using a b assms fields_from_leading [of a p] fields_from_trailing [of b p] by simp
  then show ?thesis unfolding FieldsFunc_def using s by simp
qed

text \<open>Splitting at blanks and commas is splitting at blanks and then each field at commas.\<close>

lemma fields_from_nested:
  assumes "\<And>c. p c \<Longrightarrow> q c"
  shows "\<forall>c\<in>set cur. \<not> p c \<Longrightarrow>
    fields_from q [] (cur @ s) = concat (map (fields_from q []) (fields_from p cur s))"
proof (induction s arbitrary: cur)
  case (Cons c s)
  show ?case
  proof (cases "p c")
    case True
    have split: "fields_from q k (cur @ c # s) = fields_from q k cur @ fields_from q [] s" for k
      using assms [OF True]
      by (induction cur arbitrary: k) simp_all
    show ?thesis
      using True Cons.IH [of "[]"] split [of "[]"] by simp
  next
    case False
    then show ?thesis using Cons.IH [of "cur @ [c]"] Cons.prems by simp
  qed
qed simp

lemma FieldsFunc_nested:
  assumes "\<And>c. p c \<Longrightarrow> q c"
  shows "FieldsFunc q s = concat (map (FieldsFunc q) (FieldsFunc p s))"
  using fields_from_nested [of p q "[]" s, OF assms] by (simp add: FieldsFunc_def [abs_def])

text \<open>Parsing a whole slots column is parsing each blank-separated field of it.\<close>

lemma ParseSlotRanges_fields:
  "ParseSlotRanges s = parse_slot_tokens (FieldsFunc slot_separator s) []"
proof -
  have "FieldsFunc slot_separator (TrimSpace s) = FieldsFunc slot_separator s"
    by (rule FieldsFunc_TrimSpace) (simp add: slot_separator_def)
  then show ?thesis
    by (cases "TrimSpace s = []") (auto simp: ParseSlotRanges_def Let_def FieldsFunc_def)
qed

lemma parse_append_InrD:
  assumes "parse_slot_tokens (xs @ ys) [] = Inr rs"
  shows "\<exists>r1 r2. parse_slot_tokens xs [] = Inr r1 \<and> parse_slot_tokens ys [] = Inr r2 \<and> rs = r1 @ r2"
proof (cases "parse_slot_tokens xs []")
  case (Inr r1)
  then show ?thesis
    using assms by (cases "parse_slot_tokens ys []") (simp_all add: parse_slot_tokens_append)
qed (use assms in \<open>simp add: parse_slot_tokens_append\<close>)

lemma parse_concat:
  "parse_slot_tokens (concat tss) [] = Inr rs \<Longrightarrow>
   (\<forall>ts\<in>set tss. \<exists>qs. parse_slot_tokens ts [] = Inr qs) \<and>
   slots_of_all rs = (\<Union>ts\<in>set tss. slots_of_all (projr (parse_slot_tokens ts [])))"
proof (induction tss arbitrary: rs)
  case (Cons ts tss)
  obtain r1 r2 where r: "parse_slot_tokens ts [] = Inr r1"
    "parse_slot_tokens (concat tss) [] = Inr r2" "rs = r1 @ r2"
    using parse_append_InrD [of ts "concat tss" rs] Cons.prems unfolding concat.simps by blast
  show ?case using Cons.IH [OF r(2)] r by simp
qed simp

lemma ParseSlotRanges_per_field:
  assumes "ParseSlotRanges s = Inr rs"
  shows "(\<forall>f\<in>set (Fields s). \<exists>qs. ParseSlotRanges f = Inr qs)
       \<and> slots_of_all rs = (\<Union>f\<in>set (Fields s). slots_of_all (projr (ParseSlotRanges f)))"
proof -
  have "FieldsFunc slot_separator s = concat (map (FieldsFunc slot_separator) (Fields s))"
    unfolding Fields_def by (rule FieldsFunc_nested) (simp add: slot_separator_def)
  then show ?thesis
    using parse_concat [of "map (FieldsFunc slot_separator) (Fields s)" rs] assms
    by (simp add: ParseSlotRanges_fields)
qed

end
