(* ===== verification/Redis_Nodes.thy ===== *)
theory Redis_Nodes
  imports Redis_Slots
begin

text \<open>
  The pure part of the \<open>redis\<close> package: the parsers of CLUSTER NODES, CLUSTER INFO, INFO and
  of the output of \<open>redis-cli --cluster check\<close>, the tests on a list of cluster nodes
  (\<open>HasInFlightSlots\<close>, \<open>SlotsFullyCovered\<close>), and the construction of the command lines and
  messages of \<open>redis-cli\<close>. The commands themselves are in \<open>Redis_Client\<close>.
\<close>

section \<open>CLUSTER NODES\<close>

record cluster_node =
  cn_ID :: string
  cn_Addr :: string
  cn_IP :: string
  cn_Flags :: string
  cn_Primary :: string
  cn_PingSent :: int
  cn_PongRecv :: int
  cn_Epoch :: int
  cn_State :: string
  cn_Slots :: string

definition ip_of_addr :: "string \<Rightarrow> string" where
  "ip_of_addr addr = (case Cut addr '':'' of Some (before, _) \<Rightarrow> before | None \<Rightarrow> addr)"

text \<open>One line of the output: \<open>None\<close> for the lines the loop skips.\<close>

definition parse_node_line :: "string \<Rightarrow> cluster_node option" where
  "parse_node_line line0 =
     (let line = TrimSpace line0; parts = Fields line
      in if line = [] then None
         else if length parts < 8 then None
         else Some \<lparr>cn_ID = parts ! 0, cn_Addr = parts ! 1, cn_IP = ip_of_addr (parts ! 1),
                    cn_Flags = parts ! 2, cn_Primary = parts ! 3,
                    cn_PingSent = fst (Atoi (parts ! 4)), cn_PongRecv = fst (Atoi (parts ! 5)),
                    cn_Epoch = fst (Atoi (parts ! 6)), cn_State = parts ! 7,
                    cn_Slots = (if 8 < length parts then Join (drop 8 parts) '' '' else [])\<rparr>)"

fun parse_node_lines :: "string list \<Rightarrow> cluster_node list" where
  "parse_node_lines [] = []"
| "parse_node_lines (line # rest) =
     (case parse_node_line line of
        None \<Rightarrow> parse_node_lines rest
      | Some n \<Rightarrow> n # parse_node_lines rest)"

definition ParseClusterNodesOutput :: "string \<Rightarrow> cluster_node list" where
  "ParseClusterNodesOutput output = parse_node_lines (Split newline (TrimSpace output))"

definition HasInFlightSlots :: "cluster_node list \<Rightarrow> bool" where
  "HasInFlightSlots nodes = list_ex (\<lambda>n. Contains (cn_Slots n) ''['') nodes"

definition TotalClusterSlots :: nat where "TotalClusterSlots = 16384"

text \<open>The inner loop of \<open>SlotsFullyCovered\<close> marks the slots of one range in the boolean array.\<close>

function mark_range :: "int \<Rightarrow> int \<Rightarrow> bool list \<Rightarrow> bool list" where
  "mark_range s e covered =
     (if s \<le> e \<and> s < int TotalClusterSlots
      then mark_range (s + 1) e (if 0 \<le> s then covered[nat s := True] else covered)
      else covered)"
  by pat_completeness auto
termination
  by (relation "measure (\<lambda>(s, e, c). nat (int TotalClusterSlots - s))") auto

declare mark_range.simps [simp del]

definition mark_token :: "bool list \<Rightarrow> string \<Rightarrow> bool list" where
  "mark_token covered token =
     (if HasPrefix token ''['' then covered
      else case ParseSlotRanges token of
             Inl _ \<Rightarrow> covered
           | Inr ranges \<Rightarrow> foldl (\<lambda>cov r. mark_range (Start r) (End r) cov) covered ranges)"

definition mark_node :: "bool list \<Rightarrow> cluster_node \<Rightarrow> bool list" where
  "mark_node covered n =
     (if \<not> Contains (cn_Flags n) ''master'' then covered
      else foldl mark_token covered (Fields (cn_Slots n)))"

definition SlotsFullyCovered :: "cluster_node list \<Rightarrow> bool" where
  "SlotsFullyCovered nodes =
     list_all (\<lambda>c. c) (foldl mark_node (replicate TotalClusterSlots False) nodes)"

section \<open>INFO and CLUSTER INFO\<close>

definition info_line :: "(string \<Rightarrow> string option) \<Rightarrow> string \<Rightarrow> (string \<Rightarrow> string option)" where
  "info_line result line0 =
     (let line = TrimSpace line0
      in if line = [] \<or> HasPrefix line ''#'' then result
         else case Cut line '':'' of
                None \<Rightarrow> result
              | Some (key, value) \<Rightarrow> result(TrimSpace key \<mapsto> TrimSpace value))"

definition ParseInfoAll :: "string \<Rightarrow> string \<Rightarrow> string option" where
  "ParseInfoAll raw = foldl info_line Map.empty (Split newline raw)"

record cluster_info =
  ci_State :: string
  ci_SlotsOK :: int
  ci_SlotsFail :: int
  ci_KnownNodes :: int
  ci_ClusterSize :: int
  ci_raw :: "string \<Rightarrow> string option"

definition cluster_info_line :: "cluster_info \<Rightarrow> string \<Rightarrow> cluster_info" where
  "cluster_info_line info line0 =
     (case Cut (TrimSpace line0) '':'' of
        None \<Rightarrow> info
      | Some (key0, value0) \<Rightarrow>
          let key = TrimSpace key0; value = TrimSpace value0;
              info1 = info\<lparr>ci_raw := (ci_raw info)(key \<mapsto> value)\<rparr>
          in if key = ''cluster_state'' then info1\<lparr>ci_State := value\<rparr>
             else if key = ''cluster_slots_ok'' then info1\<lparr>ci_SlotsOK := fst (Atoi value)\<rparr>
             else if key = ''cluster_slots_fail'' then info1\<lparr>ci_SlotsFail := fst (Atoi value)\<rparr>
             else if key = ''cluster_known_nodes'' then info1\<lparr>ci_KnownNodes := fst (Atoi value)\<rparr>
             else if key = ''cluster_size'' then info1\<lparr>ci_ClusterSize := fst (Atoi value)\<rparr>
             else info1)"

definition parseClusterInfo :: "string \<Rightarrow> cluster_info" where
  "parseClusterInfo text =
     foldl cluster_info_line
       \<lparr>ci_State = [], ci_SlotsOK = 0, ci_SlotsFail = 0, ci_KnownNodes = 0, ci_ClusterSize = 0,
        ci_raw = Map.empty\<rparr>
       (Split newline (TrimSpace text))"

text \<open>\<open>ReplicaLinkUp\<close> and \<open>IsReplica\<close> read the first line with a given key of INFO.\<close>

fun info_field_is :: "string \<Rightarrow> string \<Rightarrow> string list \<Rightarrow> bool" where
  "info_field_is name expected [] = False"
| "info_field_is name expected (line # rest) =
     (case Cut (TrimSpace line) '':'' of
        Some (key, value) \<Rightarrow> if key = name then value = expected else info_field_is name expected rest
      | None \<Rightarrow> info_field_is name expected rest)"

section \<open>redis-cli\<close>

record cluster_check_result =
  CommandCodeOutput :: int
  Errors :: "string list"
  Warnings :: "string list"

text \<open>\<open>bufio.Scanner\<close> yields the lines without their line end and stops at the first line that
  does not fit its buffer of 64 KiB; a final empty line is not a line.\<close>

definition drop_cr :: "string \<Rightarrow> string" where
  "drop_cr l = (if l \<noteq> [] \<and> last l = CHR 0x0D then butlast l else l)"

definition scan_lines :: "string \<Rightarrow> string list" where
  "scan_lines text =
     (let ls = Split newline text;
          ls' = (if last ls = [] then butlast ls else ls)
      in map drop_cr (takeWhile (\<lambda>l. length l < 65536) ls'))"

definition add_once :: "string \<Rightarrow> string list \<Rightarrow> string list" where
  "add_once x xs = (if x \<in> set xs then xs else xs @ [x])"

definition check_line :: "cluster_check_result \<Rightarrow> string \<Rightarrow> cluster_check_result" where
  "check_line result line0 =
     (let line = TrimSpace line0;
          result1 = (if Contains line ''[ERR]''
                     then result\<lparr>Errors := add_once (TrimSpace (ReplaceAll line ''[ERR]'' [])) (Errors result)\<rparr>
                     else result)
      in if Contains line ''[WARNING]''
         then result1\<lparr>Warnings := add_once (TrimSpace (ReplaceAll line ''[WARNING]'' [])) (Warnings result1)\<rparr>
         else result1)"

definition parseClusterCheckOutput :: "string \<Rightarrow> cluster_check_result" where
  "parseClusterCheckOutput output =
     foldl check_line \<lparr>CommandCodeOutput = 0, Errors = [], Warnings = []\<rparr> (scan_lines output)"

definition clusterCLIErrorOutputLimit :: nat where
  "clusterCLIErrorOutputLimit = 2000"

definition truncateClusterCLIOutput :: "string \<Rightarrow> nat \<Rightarrow> string" where
  "truncateClusterCLIOutput output maxLen =
     (if length output \<le> maxLen then output else take maxLen output @ ''...(truncated)'')"

definition formatClusterCLIExitCodeError :: "string \<Rightarrow> string \<Rightarrow> int \<Rightarrow> string \<Rightarrow> err" where
  "formatClusterCLIExitCodeError operation addr exitCode output =
     ''redis-cli --cluster '' @ operation @ '' on '' @ addr @ '' exited with code '' @ Itoa exitCode
     @ '': '' @ truncateClusterCLIOutput output clusterCLIErrorOutputLimit"

text \<open>A Go map as its entries, each key once; \<open>sort.Strings\<close> on its keys.\<close>

definition sorted_entries :: "(string \<times> 'v) list \<Rightarrow> (string \<times> 'v) list" where
  "sorted_entries m = sort_key fst m"

definition formatCommandEnv :: "(string \<times> string) list \<Rightarrow> string list" where
  "formatCommandEnv env = map (\<lambda>(k, v). k @ ''='' @ v) (sorted_entries env)"

definition rebalancePipeline :: int where "rebalancePipeline = 50"

definition clusterFixConfirmations :: string where
  "clusterFixConfirmations = concat (replicate 5 (''yes'' @ [newline]))"

definition rebalance_args :: "string \<Rightarrow> string list" where
  "rebalance_args addr =
     [''--cluster'', ''rebalance'', addr, ''--cluster-use-empty-masters'',
      ''--cluster-pipeline'', Itoa rebalancePipeline, ''--cluster-replace'', ''--cluster-yes'']"

definition weighted_rebalance_args :: "string \<Rightarrow> (string \<times> int) list \<Rightarrow> string list" where
  "weighted_rebalance_args addr weights =
     (if weights = [] then rebalance_args addr
      else [''--cluster'', ''rebalance'', addr, ''--cluster-use-empty-masters'',
            ''--cluster-pipeline'', Itoa rebalancePipeline, ''--cluster-replace'']
           @ [''--cluster-weight'']
           @ map (\<lambda>(i, w). i @ ''='' @ Itoa w) (sorted_entries weights)
           @ [''--cluster-yes''])"

definition reshard_args :: "string \<Rightarrow> string \<Rightarrow> string \<Rightarrow> int \<Rightarrow> string list" where
  "reshard_args addr source target numSlots =
     [''--cluster'', ''reshard'', addr, ''--cluster-from'', source, ''--cluster-to'', target,
      ''--cluster-slots'', Itoa numSlots, ''--cluster-pipeline'', Itoa rebalancePipeline,
      ''--cluster-replace'', ''--cluster-yes'']"

definition isShutdownConnError :: "err option \<Rightarrow> bool" where
  "isShutdownConnError e = (case e of None \<Rightarrow> False | Some msg \<Rightarrow>
     Contains msg ''EOF'' \<or> Contains msg ''connection closed'' \<or> Contains msg ''connection reset''
     \<or> Contains msg ''broken pipe'' \<or> Contains msg ''use of closed network connection'')"

section \<open>Coverage\<close>

text \<open>The slots a list of nodes owns for \<open>SlotsFullyCovered\<close>: what the parsable, stable tokens of
  the masters say.\<close>

definition token_slots :: "string \<Rightarrow> int set" where
  "token_slots t = (if HasPrefix t ''['' then {} else
     case ParseSlotRanges t of Inl _ \<Rightarrow> {} | Inr rs \<Rightarrow> slots_of_all rs)"

definition master_slots :: "cluster_node list \<Rightarrow> int set" where
  "master_slots nodes = (\<Union>n\<in>{n \<in> set nodes. Contains (cn_Flags n) ''master''}.
     \<Union>t\<in>set (Fields (cn_Slots n)). token_slots t)"

definition marked :: "bool list \<Rightarrow> int set" where
  "marked cov = {s. 0 \<le> s \<and> s < int (length cov) \<and> cov ! nat s}"

lemma length_mark_range [simp]: "length (mark_range s e cov) = length cov"
  by (induction s e cov rule: mark_range.induct) (subst mark_range.simps, simp)

lemma marked_update:
  "marked (cov[i := True]) = marked cov \<union> (if i < length cov then {int i} else {})"
  by (auto simp: marked_def nth_list_update)

lemma marked_mark_range:
  "length cov = TotalClusterSlots \<Longrightarrow>
   marked (mark_range s e cov) = marked cov \<union> ({s..e} \<inter> {0..<int TotalClusterSlots})"
proof (induction s e cov rule: mark_range.induct)
  case (1 s e cov)
  show ?case
  proof (cases "s \<le> e \<and> s < int TotalClusterSlots")
    case True
    let ?c = "if 0 \<le> s then cov[nat s := True] else cov"
    have "marked (mark_range s e cov) = marked (mark_range (s + 1) e ?c)"
      using True by (subst mark_range.simps) simp
    also have "\<dots> = marked ?c \<union> ({s + 1..e} \<inter> {0..<int TotalClusterSlots})"
      using 1(1) [OF True] 1(2) by simp
    also have "marked ?c = marked cov \<union> ({s} \<inter> {0..<int TotalClusterSlots})"
      using True 1(2) nat_less_iff [of s TotalClusterSlots] by (simp add: marked_update)
    also have "\<dots> \<union> ({s + 1..e} \<inter> {0..<int TotalClusterSlots})
        = marked cov \<union> ({s..e} \<inter> {0..<int TotalClusterSlots})" using True by auto
    finally show ?thesis .
  next
    case False
    then show ?thesis by (subst mark_range.simps) auto
  qed
qed

lemma marked_foldl:
  assumes "\<And>cov x. length cov = TotalClusterSlots \<Longrightarrow> length (f cov x) = TotalClusterSlots
      \<and> marked (f cov x) = marked cov \<union> (g x \<inter> {0..<int TotalClusterSlots})"
  shows "length cov = TotalClusterSlots \<Longrightarrow> length (foldl f cov xs) = TotalClusterSlots
      \<and> marked (foldl f cov xs) = marked cov \<union> ((\<Union>x\<in>set xs. g x) \<inter> {0..<int TotalClusterSlots})"
proof (induction xs arbitrary: cov)
  case (Cons x xs)
  show ?case using assms [OF Cons.prems, of x] Cons.IH [of "f cov x"] by auto
qed simp

lemma marked_token:
  assumes "length cov = TotalClusterSlots"
  shows "length (mark_token cov t) = TotalClusterSlots
    \<and> marked (mark_token cov t) = marked cov \<union> (token_slots t \<inter> {0..<int TotalClusterSlots})"
proof (cases "HasPrefix t ''[''")
  case False
  have "length (foldl (\<lambda>cov r. mark_range (Start r) (End r) cov) cov rs) = TotalClusterSlots
    \<and> marked (foldl (\<lambda>cov r. mark_range (Start r) (End r) cov) cov rs)
      = marked cov \<union> (slots_of_all rs \<inter> {0..<int TotalClusterSlots})" for rs
    unfolding slots_of_all_def
    by (rule marked_foldl [OF _ assms]) (simp add: marked_mark_range slots_of_def)
  then show ?thesis
    using assms False by (cases "ParseSlotRanges t") (simp_all add: mark_token_def token_slots_def)
qed (simp add: assms mark_token_def token_slots_def)

lemma marked_node:
  assumes "length cov = TotalClusterSlots"
  shows "length (mark_node cov n) = TotalClusterSlots
    \<and> marked (mark_node cov n) = marked cov \<union> ((if Contains (cn_Flags n) ''master''
        then \<Union>t\<in>set (Fields (cn_Slots n)). token_slots t else {}) \<inter> {0..<int TotalClusterSlots})"
  using marked_foldl [of mark_token token_slots cov "Fields (cn_Slots n)", OF marked_token assms] assms
  by (simp add: mark_node_def)

lemma all_marked: "list_all (\<lambda>c. c) cov = ({0..<int (length cov)} \<subseteq> marked cov)"
proof
  assume *: "{0..<int (length cov)} \<subseteq> marked cov"
  show "list_all (\<lambda>c. c) cov"
    unfolding list_all_length
  proof (intro allI impI)
    fix i assume "i < length cov"
    then have "int i \<in> marked cov" using * by auto
    then show "cov ! i" by (simp add: marked_def)
  qed
qed (auto simp: marked_def list_all_length)

lemma SlotsFullyCovered_master_slots:
  "SlotsFullyCovered nodes = ({0..<int TotalClusterSlots} \<subseteq> master_slots nodes)"
proof -
  let ?g = "\<lambda>n. if Contains (cn_Flags n) ''master''
    then \<Union>t\<in>set (Fields (cn_Slots n)). token_slots t else {}"
  let ?cov = "foldl mark_node (replicate TotalClusterSlots False) nodes"
  have "length ?cov = TotalClusterSlots \<and> marked ?cov = marked (replicate TotalClusterSlots False)
      \<union> ((\<Union>n\<in>set nodes. ?g n) \<inter> {0..<int TotalClusterSlots})"
    by (rule marked_foldl [where g = ?g, OF marked_node]) simp_all
  moreover have "marked (replicate TotalClusterSlots False) = {}"
    by (simp add: marked_def)
  moreover have "(\<Union>n\<in>set nodes. ?g n) = master_slots nodes"
    by (auto simp: master_slots_def split: if_splits)
  ultimately show ?thesis by (simp add: SlotsFullyCovered_def all_marked)
qed

section \<open>Reading back CLUSTER NODES\<close>

text \<open>The line Redis prints for a node, and the nodes that have one: the eight fixed columns are
  blank-free words and the slots column is a blank-separated list.\<close>

definition node_columns :: "cluster_node \<Rightarrow> string list" where
  "node_columns n = [cn_ID n, cn_Addr n, cn_Flags n, cn_Primary n, Itoa (cn_PingSent n),
     Itoa (cn_PongRecv n), Itoa (cn_Epoch n), cn_State n] @ Fields (cn_Slots n)"

definition node_text :: "cluster_node \<Rightarrow> string" where
  "node_text n = Join (node_columns n) '' ''"

definition word_ok :: "string \<Rightarrow> bool" where
  "word_ok w = (w \<noteq> [] \<and> list_all (\<lambda>c. \<not> is_space c) w)"

definition printable_node :: "cluster_node \<Rightarrow> bool" where
  "printable_node n =
     (list_all word_ok [cn_ID n, cn_Addr n, cn_Flags n, cn_Primary n, cn_State n]
      \<and> cn_IP n = ip_of_addr (cn_Addr n)
      \<and> list_all (\<lambda>i. 0 \<le> i \<and> i \<le> maxInt64) [cn_PingSent n, cn_PongRecv n, cn_Epoch n]
      \<and> cn_Slots n = Join (Fields (cn_Slots n)) '' '')"

lemma Split_Join:
  "list_all (\<lambda>w. sep \<notin> set w) ws \<Longrightarrow> ws \<noteq> [] \<Longrightarrow> Split sep (Join ws [sep]) = ws"
  by (induction ws "[sep]" rule: Join.induct) (simp_all add: Split_no_sep Split_append_sep)

lemma Fields_Join:
  "list_all word_ok ws \<Longrightarrow> Fields (Join ws '' '') = ws"
  unfolding Fields_def
  by (rule FieldsFunc_Join) (auto simp: list_all_iff word_ok_def is_space_def)

lemma TrimSpace_Join:
  assumes ws: "list_all (\<lambda>w. w \<noteq> [] \<and> \<not> is_space (hd w) \<and> \<not> is_space (last w)) ws" and ne: "ws \<noteq> []"
  shows "TrimSpace (Join ws sep) = Join ws sep \<and> Join ws sep \<noteq> []"
proof -
  have h: "hd ws \<noteq> []" "\<not> is_space (hd (hd ws))" and l: "last ws \<noteq> []" "\<not> is_space (last (last ws))"
    using ws ne hd_in_set [OF ne] last_in_set [OF ne] unfolding list_all_iff by blast+
  show ?thesis
    using Join_hd [OF ne h(1), of sep] Join_last [OF ne l(1), of sep] h l
    by (simp add: TrimSpace_id)
qed

lemma word_ok_ends: "word_ok w \<Longrightarrow> w \<noteq> [] \<and> \<not> is_space (hd w) \<and> \<not> is_space (last w)"
  using hd_in_set [of w] last_in_set [of w] unfolding word_ok_def list_all_iff by blast

lemma word_ok_Itoa: "0 \<le> i \<Longrightarrow> word_ok (Itoa i)"
  by (simp add: word_ok_def Itoa_no_space)

lemma word_ok_Fields: "list_all word_ok (Fields s)"
  using FieldsFunc_nonsep [of _ is_space s] by (auto simp: list_all_iff word_ok_def Fields_def)

lemma columns_ok: "printable_node n \<Longrightarrow> list_all word_ok (node_columns n)"
  using word_ok_Fields [of "cn_Slots n"] by (simp add: node_columns_def printable_node_def word_ok_Itoa)

lemma node_text_trim:
  assumes "printable_node n"
  shows "TrimSpace (node_text n) = node_text n \<and> node_text n \<noteq> []"
proof -
  have "list_all (\<lambda>w. w \<noteq> [] \<and> \<not> is_space (hd w) \<and> \<not> is_space (last w)) (node_columns n)"
    using columns_ok [OF assms] word_ok_ends by (simp add: list_all_iff)
  then show ?thesis
    unfolding node_text_def by (rule TrimSpace_Join) (simp add: node_columns_def)
qed

lemma parse_node_text:
  assumes "printable_node n"
  shows "parse_node_line (node_text n) = Some n"
proof -
  have fields: "Fields (node_text n) = node_columns n"
    unfolding node_text_def by (rule Fields_Join) (rule columns_ok [OF assms])
  show ?thesis
    using assms node_text_trim [OF assms]
    by (cases "Fields (cn_Slots n)")
      (simp_all add: parse_node_line_def fields node_columns_def printable_node_def Atoi_Itoa)
qed

lemma Join_chars: "c \<in> set (Join ws sep) \<Longrightarrow> (\<exists>w\<in>set ws. c \<in> set w) \<or> c \<in> set sep"
  by (induction ws sep rule: Join.induct) auto

lemma node_text_no_newline: "printable_node n \<Longrightarrow> newline \<notin> set (node_text n)"
proof
  assume n: "printable_node n" and "newline \<in> set (node_text n)"
  then have "\<exists>w\<in>set (node_columns n). newline \<in> set w"
    unfolding node_text_def by (auto dest: Join_chars)
  then show False
    using columns_ok [OF n] by (auto simp: list_all_iff word_ok_def is_space_def)
qed

lemma parse_cluster_nodes_text:
  assumes "list_all printable_node ns"
  shows "ParseClusterNodesOutput (Join (map node_text ns) [newline]) = ns"
proof (cases "ns = []")
  case False
  let ?t = "Join (map node_text ns) [newline]"
  have "list_all (\<lambda>w. w \<noteq> [] \<and> \<not> is_space (hd w) \<and> \<not> is_space (last w)) (map node_text ns)"
    unfolding list_all_iff
  proof
    fix w assume "w \<in> set (map node_text ns)"
    then obtain n where n: "printable_node n" "w = node_text n" using assms by (auto simp: list_all_iff)
    have "list_all (\<lambda>w. w \<noteq> [] \<and> \<not> is_space (hd w) \<and> \<not> is_space (last w)) (node_columns n)"
      using columns_ok [OF n(1)] word_ok_ends by (simp add: list_all_iff)
    then show "w \<noteq> [] \<and> \<not> is_space (hd w) \<and> \<not> is_space (last w)"
      using Join_hd [of "node_columns n" "'' ''"] Join_last [of "node_columns n" "'' ''"]
        hd_in_set [of "node_columns n"] last_in_set [of "node_columns n"]
      unfolding n(2) node_text_def list_all_iff by (simp add: node_columns_def)
  qed
  then have trim: "TrimSpace ?t = ?t" using False TrimSpace_Join by blast
  have "Split newline ?t = map node_text ns"
    using False assms by (intro Split_Join) (auto simp: list_all_iff node_text_no_newline)
  moreover have "parse_node_lines (map node_text ms) = ms" if "list_all printable_node ms" for ms
    using that by (induction ms) (simp_all add: parse_node_text)
  ultimately show ?thesis using assms trim by (simp add: ParseClusterNodesOutput_def)
qed (simp add: ParseClusterNodesOutput_def parse_node_line_def TrimSpace_def)

text \<open>C31: \<open>ParseClusterNodesOutput\<close> reads back every node of a CLUSTER NODES reply, in order and
  with every column, however many slot ranges and markers the line carries.\<close>

theorem ParseClusterNodes_roundtrip:
  assumes "list_all printable_node ns"
  shows "ParseClusterNodesOutput (Join (map node_text ns) [newline]) = ns"
  using assms by (rule parse_cluster_nodes_text)

definition sample_node :: cluster_node where
  "sample_node = \<lparr>cn_ID = ''a1'', cn_Addr = ''10.0.0.1:6379'', cn_IP = ''10.0.0.1'',
     cn_Flags = ''myself,master'', cn_Primary = ''-'', cn_PingSent = 0, cn_PongRecv = 7,
     cn_Epoch = 3, cn_State = ''connected'', cn_Slots = ''0-5460 [77->-b2]''\<rparr>"

lemma ParseClusterNodes_roundtrip_witness:
  "ParseClusterNodesOutput (Join (map node_text [sample_node, sample_node]) [newline])
   = [sample_node, sample_node]"
  by (rule ParseClusterNodes_roundtrip)
    (simp add: sample_node_def printable_node_def word_ok_def is_space_def ip_of_addr_def
      maxInt64_def Fields_def FieldsFunc_def)

end
