(* ===== verification/Health_Checks.thy ===== *)
theory Health_Checks
  imports Redis_Nodes
begin

text \<open>
  The structural checks of the \<open>health\<close> package (\<open>checker.go\<close>) on the list of cluster nodes one
  node reports: visibility of the members, slot coverage, balance and replica spread. The checker
  that gathers the reports is in \<open>Checker\<close>.

  \<open>slotsCovered\<close> and \<open>balanced\<close> read each primary's slots through the slot parser of the \<open>redis\<close>
  package; what they need of it is the interface \<open>slot_parser\<close>, interpreted on \<open>ParseSlotRanges\<close> and
  \<open>CountSlots\<close>.
\<close>

section \<open>The checks\<close>

definition clusterTotalSlots :: int where "clusterTotalSlots = 16384"
definition unbalancedThresholdPct :: int where "unbalancedThresholdPct = 2"
definition defaultClusterCheckCode :: int where "defaultClusterCheckCode = -1"

definition membershipFailFlags :: "string list" where
  "membershipFailFlags = [''fail'', ''handshake'', ''noaddr'', ''pfail'']"

definition splitFlags :: "string \<Rightarrow> string list" where
  "splitFlags flags = filter (\<lambda>p. p \<noteq> []) (map TrimSpace (Split (CHR '','') flags))"

definition hasFailingFlag :: "string \<Rightarrow> bool" where
  "hasFailingFlag flags = list_ex (\<lambda>f. f \<in> set membershipFailFlags) (splitFlags flags)"

definition isPrimary :: "cluster_node \<Rightarrow> bool" where
  "isPrimary n = (''master'' \<in> set (splitFlags (cn_Flags n)))"

definition isReplica :: "cluster_node \<Rightarrow> bool" where
  "isReplica n = (''slave'' \<in> set (splitFlags (cn_Flags n)))"

text \<open>The set of visible identifiers (a Go map used as a set), or \<open>None\<close> when \<open>ok\<close> is false.\<close>

fun visible_ids_from :: "string set \<Rightarrow> cluster_node list \<Rightarrow> string set option" where
  "visible_ids_from ids [] = Some ids"
| "visible_ids_from ids (node # rest) =
     (if cn_ID node = [] then None
      else if cn_State node \<noteq> ''connected'' then None
      else if hasFailingFlag (cn_Flags node) then None
      else visible_ids_from (insert (cn_ID node) ids) rest)"

definition visibleNodeIDs :: "cluster_node list \<Rightarrow> string set option" where
  "visibleNodeIDs nodes = visible_ids_from {} nodes"

text \<open>The loop both \<open>slotsCovered\<close> and \<open>balanced\<close> run over the primaries; the parser is the call
  it makes.\<close>

fun primary_ranges ::
  "(string \<Rightarrow> err + slot_range list) \<Rightarrow> cluster_node list \<Rightarrow> slot_range list list option" where
  "primary_ranges parse [] = Some []"
| "primary_ranges parse (node # rest) =
     (if \<not> isPrimary node then primary_ranges parse rest
      else case parse (cn_Slots node) of
             Inl _ \<Rightarrow> None
           | Inr parsed \<Rightarrow> map_option (\<lambda>ps. parsed # ps) (primary_ranges parse rest))"

fun contiguous_from :: "int \<Rightarrow> slot_range list \<Rightarrow> int option" where
  "contiguous_from currentEnd [] = Some currentEnd"
| "contiguous_from currentEnd (rng # rest) =
     (if Start rng \<le> currentEnd then None
      else if Start rng \<noteq> i64 (currentEnd + 1) then None
      else contiguous_from (End rng) rest)"

definition slotsCovered :: "cluster_node list \<Rightarrow> bool" where
  "slotsCovered nodes =
     (case primary_ranges ParseSlotRanges nodes of
        None \<Rightarrow> False
      | Some parsed \<Rightarrow>
          let ranges = concat parsed
          in if ranges = [] then False
             else let sorted = sort ranges
                  in if Start (hd sorted) \<noteq> 0 then False
                     else contiguous_from (-1) sorted = Some (clusterTotalSlots - 1))"

fun nonzero_counts :: "(slot_range list \<Rightarrow> int) \<Rightarrow> slot_range list list \<Rightarrow> int list option" where
  "nonzero_counts cnt [] = Some []"
| "nonzero_counts cnt (parsed # rest) =
     (if cnt parsed = 0 then None
      else map_option (\<lambda>cs. cnt parsed # cs) (nonzero_counts cnt rest))"

text \<open>\<open>int(math.Ceil(float64(16384) / float64(n)))\<close>: the division is exact when \<open>n\<close> is a power of
  two, and otherwise the quotient is at least \<open>1/n\<close> away from an integer, far more than a rounding
  error for any number of nodes, so the result is the integer ceiling.\<close>

definition slots_per_primary :: "int \<Rightarrow> int" where
  "slots_per_primary n = (clusterTotalSlots + n - 1) div n"

definition within_threshold :: "int \<Rightarrow> int \<Rightarrow> bool" where
  "within_threshold n slotCount =
     (let slotsPerPrimary = slots_per_primary n;
          maximumSlots = slotsPerPrimary + (slotsPerPrimary * unbalancedThresholdPct) div 100;
          minimumSlots = slotsPerPrimary - (slotsPerPrimary * unbalancedThresholdPct) div 100
      in \<not> (slotCount < minimumSlots \<or> slotCount > maximumSlots))"

definition balanced :: "cluster_node list \<Rightarrow> bool" where
  "balanced nodes =
     (case primary_ranges ParseSlotRanges nodes of
        None \<Rightarrow> False
      | Some parsed \<Rightarrow>
         (case nonzero_counts CountSlots parsed of
            None \<Rightarrow> False
          | Some primaryCounts \<Rightarrow>
              primaryCounts \<noteq> [] \<and>
              list_all (within_threshold (int (length primaryCounts))) primaryCounts))"

text \<open>\<open>replicaSpreadOK\<close> counts the replicas of each primary in a map; a missing key counts 0.\<close>

fun count_replicas :: "string set \<Rightarrow> (string \<Rightarrow> int) \<Rightarrow> cluster_node list \<Rightarrow> (string \<Rightarrow> int) option" where
  "count_replicas ids m [] = Some m"
| "count_replicas ids m (r # rest) =
     (if cn_Primary r \<notin> ids then None
      else count_replicas ids (m(cn_Primary r := m (cn_Primary r) + 1)) rest)"

definition replicaSpreadOK :: "cluster_node list \<Rightarrow> int \<Rightarrow> int \<Rightarrow> bool" where
  "replicaSpreadOK nodes desiredPrimaries desiredReplicasPerPrimary =
     (if desiredReplicasPerPrimary = 0 then \<not> list_ex isReplica nodes
      else let primaryIDs = remdups (map cn_ID (filter isPrimary nodes));
               replicas = filter (\<lambda>n. \<not> isPrimary n \<and> isReplica n) nodes
           in if int (length primaryIDs) \<noteq> desiredPrimaries then False
              else case count_replicas (set primaryIDs) (\<lambda>_. 0) replicas of
                     None \<Rightarrow> False
                   | Some replicaCount \<Rightarrow>
                       list_all (\<lambda>i. replicaCount i = desiredReplicasPerPrimary) primaryIDs)"

section \<open>The interface to the slot parser\<close>

locale slot_parser =
  fixes parse :: "string \<Rightarrow> err + slot_range list"
    and cnt :: "slot_range list \<Rightarrow> int"
  assumes parse_valid: "parse s = Inr rs \<Longrightarrow> \<forall>r\<in>set rs. valid_range r"
    and count_card: "\<forall>r\<in>set rs. valid_range r \<Longrightarrow> cnt rs = i64 (\<Sum>r\<leftarrow>rs. int (card (slots_of r)))"
begin

lemma primary_ranges_valid:
  "primary_ranges parse nodes = Some ps \<Longrightarrow> \<forall>r\<in>set (concat ps). valid_range r"
proof (induction nodes arbitrary: ps)
  case (Cons n nodes)
  then show ?case
    using parse_valid [of "cn_Slots n"] by (cases "parse (cn_Slots n)") (auto split: if_splits)
qed simp

lemma primary_ranges_Some:
  "primary_ranges parse nodes = Some ps \<longleftrightarrow>
   list_all2 (\<lambda>n p. parse (cn_Slots n) = Inr p) (filter isPrimary nodes) ps"
  by (induction nodes arbitrary: ps) (auto simp: list_all2_Cons1 split: sum.splits)

lemma primary_ranges_None:
  "primary_ranges parse nodes = None \<longleftrightarrow> (\<exists>n\<in>set nodes. isPrimary n \<and> (\<exists>e. parse (cn_Slots n) = Inl e))"
  by (induction nodes) (auto split: sum.splits)

lemma nonzero_counts_Some:
  "nonzero_counts cnt ps = Some cs \<longleftrightarrow> cs = map cnt ps \<and> 0 \<notin> set cs"
  by (induction ps arbitrary: cs) auto

lemma range_counts:
  "primary_ranges parse nodes = Some ps \<Longrightarrow> p \<in> set ps \<Longrightarrow>
   cnt p = i64 (\<Sum>r\<leftarrow>p. int (card (slots_of r)))"
  using primary_ranges_valid by (intro count_card) auto

end

interpretation redis_parser: slot_parser ParseSlotRanges CountSlots
  by unfold_locales (simp_all add: ParseSlotRanges_valid CountSlots_card)

section \<open>Slot coverage is an exact partition\<close>

definition times_covered :: "int \<Rightarrow> slot_range list \<Rightarrow> nat" where
  "times_covered s rs = length (filter (\<lambda>r. s \<in> slots_of r) rs)"

lemma times_covered_simps [simp]:
  "times_covered s [] = 0"
  "times_covered s (r # rs) = (if s \<in> slots_of r then 1 else 0) + times_covered s rs"
  by (simp_all add: times_covered_def)

lemma times_covered_sort: "times_covered s (sort rs) = times_covered s rs"
  unfolding times_covered_def by (metis filter_sort length_sort)

lemma times_covered_pos: "times_covered s rs \<noteq> 0 \<longleftrightarrow> (\<exists>r\<in>set rs. s \<in> slots_of r)"
  by (induction rs) auto

lemma contiguous_counts:
  "contiguous_from c rs = Some e \<Longrightarrow> \<forall>r\<in>set rs. valid_range r \<Longrightarrow> -1 \<le> c \<Longrightarrow> c < maxInt64 \<or> rs = [] \<Longrightarrow>
   c \<le> e \<and> (\<forall>s. times_covered s rs = (if c < s \<and> s \<le> e then 1 else 0))"
proof (induction rs arbitrary: c)
  case (Cons r rs)
  have c: "i64 (c + 1) = c + 1"
    using Cons.prems(3,4) by (intro i64_id) (auto simp: minInt64_def)
  have r: "Start r = c + 1" "contiguous_from (End r) rs = Some e" "valid_range r"
    using Cons.prems c by (auto split: if_splits)
  have b: "-1 \<le> End r" "Start r \<le> End r" "0 \<le> Start r" "End r \<le> maxInt64"
    using r Cons.prems(3) by (auto simp: valid_range_def)
  have "End r < maxInt64 \<or> rs = []"
  proof (rule ccontr)
    assume *: "\<not> (End r < maxInt64 \<or> rs = [])"
    then obtain r' rs' where rs: "rs = r' # rs'" by (cases rs) auto
    have "End r = maxInt64" using * b by simp
    then show False
      using r(2) rs Cons.prems(2) by (auto simp: i64_def maxInt64_def valid_range_def split: if_splits)
  qed
  then have "End r \<le> e \<and> (\<forall>s. times_covered s rs = (if End r < s \<and> s \<le> e then 1 else 0))"
    using Cons.IH [OF r(2)] Cons.prems(2) b by simp
  then show ?case using r(1) b by (auto simp: slots_of_def)
qed auto

lemma counts_contiguous:
  "sorted rs \<Longrightarrow> \<forall>r\<in>set rs. valid_range r \<Longrightarrow> -1 \<le> c \<Longrightarrow> c \<le> e \<Longrightarrow> e < maxInt64 \<Longrightarrow>
   \<forall>s. times_covered s rs = (if c < s \<and> s \<le> e then 1 else 0) \<Longrightarrow> contiguous_from c rs = Some e"
proof (induction rs arbitrary: c)
  case Nil
  have "\<not> c < e" using Nil.prems(6) [rule_format, of e] by auto
  then have "c = e" using Nil.prems(4) by simp
  then show ?case by simp
next
  case (Cons r rs)
  have v: "0 \<le> Start r" "Start r \<le> End r" using Cons.prems(2) by (auto simp: valid_range_def)
  have in_range: "c < s \<and> s \<le> e" if "s \<in> slots_of r" for s
    using Cons.prems(6) [rule_format, of s] that by (auto split: if_splits)
  have ends: "c < Start r" "End r \<le> e"
    using in_range [of "Start r"] in_range [of "End r"] v by (auto simp: slots_of_def)
  have "times_covered (c + 1) (r # rs) \<noteq> 0"
    using Cons.prems(6) ends v by simp
  then obtain r' where r': "r' \<in> set (r # rs)" "c + 1 \<in> slots_of r'"
    unfolding times_covered_pos by blast
  have "r \<le> r'" using Cons.prems(1) r'(1) by auto
  then have "Start r \<le> Start r'" by (auto simp: less_eq_slot_range_def)
  then have s: "Start r = c + 1" using r'(2) ends by (auto simp: slots_of_def)
  have "contiguous_from (End r) rs = Some e"
  proof (rule Cons.IH)
    show "\<forall>s. times_covered s rs = (if End r < s \<and> s \<le> e then 1 else 0)"
    proof
      fix t
      show "times_covered t rs = (if End r < t \<and> t \<le> e then 1 else 0)"
        using Cons.prems(6) [rule_format, of t] s ends v by (auto simp: slots_of_def split: if_splits)
    qed
  qed (use Cons.prems ends v in auto)
  moreover have "i64 (c + 1) = c + 1"
    using Cons.prems(3,4,5) by (intro i64_id) (auto simp: minInt64_def)
  ultimately show ?case using s by simp
qed

lemma slotsCovered_times_covered:
  "slotsCovered nodes =
     (\<exists>ps. primary_ranges ParseSlotRanges nodes = Some ps \<and>
       (\<forall>s. times_covered s (concat ps) = (if 0 \<le> s \<and> s < clusterTotalSlots then 1 else 0)))"
proof (cases "primary_ranges ParseSlotRanges nodes")
  case (Some ps)
  let ?rs = "concat ps"
  have v: "\<forall>r\<in>set (sort ?rs). valid_range r"
    using redis_parser.primary_ranges_valid [OF Some] by simp
  have empty: "times_covered 0 ?rs = 0" if "?rs = []" unfolding that by simp
  have shift: "((-1 < s \<and> s \<le> 16383)) = (0 \<le> s \<and> s < 16384)" for s :: int by auto
  have eq: "contiguous_from (-1) (sort ?rs) = Some 16383 \<longleftrightarrow>
      (\<forall>s. times_covered s ?rs = (if 0 \<le> s \<and> s < 16384 then 1 else 0))"
  proof
    assume "contiguous_from (-1) (sort ?rs) = Some 16383"
    from contiguous_counts [OF this v]
    show "\<forall>s. times_covered s ?rs = (if 0 \<le> s \<and> s < 16384 then 1 else 0)"
      unfolding times_covered_sort shift by (simp add: maxInt64_def)
  next
    assume "\<forall>s. times_covered s ?rs = (if 0 \<le> s \<and> s < 16384 then 1 else 0)"
    then have "\<forall>s. times_covered s (sort ?rs) = (if -1 < s \<and> s \<le> 16383 then 1 else 0)"
      unfolding times_covered_sort shift .
    from counts_contiguous [OF sorted_sort v _ _ _ this]
    show "contiguous_from (-1) (sort ?rs) = Some 16383" by (simp add: maxInt64_def)
  qed
  have hd0: "Start (hd (sort ?rs)) = 0" if "contiguous_from (-1) (sort ?rs) = Some 16383"
    using that by (cases "sort ?rs") (auto simp: i64_def split: if_splits)
  show ?thesis
  proof (cases "?rs = []")
    case True
    have "\<not> (\<forall>s. times_covered s ?rs = (if 0 \<le> s \<and> s < 16384 then 1 else 0))"
      using empty [OF True] by (auto intro!: exI [of _ 0])
    then show ?thesis
      using True Some unfolding slotsCovered_def clusterTotalSlots_def
      by (simp del: concat_eq_Nil_conv)
  next
    case False
    then show ?thesis
      using eq hd0 Some unfolding slotsCovered_def clusterTotalSlots_def Let_def
      by (auto simp del: concat_eq_Nil_conv)
  qed
qed (simp add: slotsCovered_def)

text \<open>C17: the coverage check of the health report is an exact partition: it passes if and only if
  every primary's slots column parses and each of the 16384 slots lies in exactly one of the parsed
  ranges of the primaries, and nothing else does (no gap, no overlap, no slot out of range).\<close>

theorem slotsCovered_iff_partition:
  "slotsCovered nodes =
     (\<exists>ps. primary_ranges ParseSlotRanges nodes = Some ps \<and>
       (\<forall>s. times_covered s (concat ps) = (if 0 \<le> s \<and> s < clusterTotalSlots then 1 else 0)))"
  by (rule slotsCovered_times_covered)

text \<open>Sub-multiset facts that relate the two coverage checks of the code base.\<close>

lemma splitFlags_Contains:
  assumes "f \<in> set (splitFlags flags)"
  shows "Contains flags f"
proof -
  obtain p where p: "p \<in> set (Split (CHR '','') flags)" "f = TrimSpace p"
    using assms by (auto simp: splitFlags_def)
  obtain a b where ab: "p = a @ f @ b" using TrimSpace_split [of p] p(2) by metis
  have "\<exists>x y. flags = x @ p @ y" using p(1)
  proof (induction flags arbitrary: p)
    case (Cons c cs)
    show ?case
    proof (cases "c = CHR '',''")
      case True
      then consider "p = []" | "p \<in> set (Split (CHR '','') cs)" using Cons.prems by auto
      then show ?thesis
      proof cases
        case 1
        then show ?thesis by (intro exI [of _ "[]"] exI [of _ "c # cs"]) simp
      next
        case 2
        then obtain x y where "cs = x @ p @ y" using Cons.IH by blast
        then show ?thesis by (intro exI [of _ "c # x"] exI [of _ y]) simp
      qed
    next
      case False
      obtain q qs where q: "Split (CHR '','') cs = q # qs" by (cases "Split (CHR '','') cs") auto
      then consider "p = c # q" | "p \<in> set qs" using Cons.prems False by auto
      then show ?thesis
      proof cases
        case 1
        have "prefix q cs" using q
        proof (induction cs arbitrary: q qs)
          case (Cons d ds)
          then show ?case by (cases "Split (CHR '','') ds") (auto split: if_splits)
        qed simp
        then obtain y where "cs = q @ y" by (auto simp: prefix_def)
        then show ?thesis using 1 by (intro exI [of _ "[]"] exI [of _ y]) simp
      next
        case 2
        then obtain x y where "cs = x @ p @ y" using Cons.IH [of p] q by auto
        then show ?thesis by (intro exI [of _ "c # x"] exI [of _ y]) simp
      qed
    qed
  qed simp
  then show ?thesis using ab unfolding Contains_iff by (metis append.assoc)
qed

lemma isPrimary_Contains: "isPrimary n \<Longrightarrow> Contains (cn_Flags n) ''master''"
  by (simp add: isPrimary_def splitFlags_Contains)

lemma bracket_not_parsed:
  assumes "HasPrefix t ''[''"
  shows "ParseSlotRanges t \<noteq> Inr rs"
proof
  assume p: "ParseSlotRanges t = Inr rs"
  obtain u where t: "t = CHR ''['' # u" using assms by (auto simp: HasPrefix_def prefix_def)
  have "fields_from slot_separator [CHR ''[''] u = f # fs \<Longrightarrow> CHR ''['' \<in> set f" for f fs
  proof -
    have "fields_from slot_separator cur u = f # fs \<Longrightarrow> x \<in> set cur \<Longrightarrow> x \<in> set f" for cur x
      by (induction u arbitrary: cur) (auto split: if_splits)
    then show "fields_from slot_separator [CHR ''[''] u = f # fs \<Longrightarrow> CHR ''['' \<in> set f" by force
  qed
  moreover have "fields_from slot_separator cur u \<noteq> []" if "cur \<noteq> []" for cur
    using that by (induction u arbitrary: cur) auto
  ultimately obtain f fs where f: "fields_from slot_separator [CHR ''[''] u = f # fs" "CHR ''['' \<in> set f"
    by (metis list.exhaust list.distinct(1))
  have "parse_slot_tokens (f # fs) [] = Inr rs"
    using p f(1) unfolding ParseSlotRanges_fields t
    by (simp add: FieldsFunc_def slot_separator_def is_space_def)
  then show False
    using f(2) by (cases rs) (auto simp: parse_slot_tokens_Inr parseSlotToken.simps Contains_single split: if_splits)
qed

lemma list_all2_in_right:
  "list_all2 P xs ys \<Longrightarrow> y \<in> set ys \<Longrightarrow> \<exists>x\<in>set xs. P x y"
  by (induction rule: list_all2_induct) auto

text \<open>C29: the strict check of the health report implies the lenient one the scaling and upgrade
  reconcilers use before a rebalance: whenever \<open>slotsCovered\<close> holds, \<open>SlotsFullyCovered\<close> holds.\<close>

theorem slotsCovered_implies_SlotsFullyCovered:
  assumes "slotsCovered nodes"
  shows "SlotsFullyCovered nodes"
  unfolding SlotsFullyCovered_master_slots
proof
  fix s assume s: "s \<in> {0..<int TotalClusterSlots}"
  from assms obtain ps where ps: "primary_ranges ParseSlotRanges nodes = Some ps"
    and once: "\<And>s. times_covered s (concat ps) = (if 0 \<le> s \<and> s < clusterTotalSlots then 1 else 0)"
    unfolding slotsCovered_times_covered by blast
  have "times_covered s (concat ps) \<noteq> 0"
    using s once [of s] by (simp add: TotalClusterSlots_def clusterTotalSlots_def)
  then obtain p r where pr: "p \<in> set ps" "r \<in> set p" "s \<in> slots_of r"
    unfolding times_covered_pos by auto
  from ps pr(1) obtain n where n: "n \<in> set nodes" "isPrimary n" "ParseSlotRanges (cn_Slots n) = Inr p"
    unfolding redis_parser.primary_ranges_Some using list_all2_in_right [of _ "filter isPrimary nodes" ps p]
    by fastforce
  have "s \<in> slots_of_all p" using pr by (auto simp: slots_of_all_def)
  then obtain f where f: "f \<in> set (Fields (cn_Slots n))" "s \<in> slots_of_all (projr (ParseSlotRanges f))"
    "\<exists>qs. ParseSlotRanges f = Inr qs"
    using ParseSlotRanges_per_field [OF n(3)] by blast
  then have "s \<in> token_slots f" using bracket_not_parsed [of f] by (auto simp: token_slots_def)
  then show "s \<in> master_slots nodes"
    using n f(1) isPrimary_Contains [OF n(2)] by (auto simp: master_slots_def)
qed

section \<open>Balance\<close>

lemma sum_times_covered:
  assumes "finite S" and "slots_of_all rs \<subseteq> S" and "\<forall>r\<in>set rs. valid_range r"
  shows "(\<Sum>r\<leftarrow>rs. int (card (slots_of r))) = (\<Sum>s\<in>S. int (times_covered s rs))"
  using assms(2,3)
proof (induction rs)
  case (Cons r rs)
  have "(\<Sum>s\<in>S. int (if s \<in> slots_of r then 1 else 0)) = int (card (S \<inter> slots_of r))"
    using assms(1) by (simp add: if_distrib [of int] sum.If_cases cong: if_cong)
  moreover have "S \<inter> slots_of r = slots_of r" using Cons.prems(1) by auto
  ultimately show ?case
    using Cons.IH Cons.prems by (simp only: times_covered_simps of_nat_add sum.distrib list.map sum_list.Cons) simp
qed simp

lemma covered_total:
  assumes "slotsCovered nodes" and "primary_ranges ParseSlotRanges nodes = Some ps"
  shows "(\<Sum>p\<leftarrow>ps. CountSlots p) = clusterTotalSlots"
proof -
  from assms have once: "\<And>s. times_covered s (concat ps) = (if 0 \<le> s \<and> s < clusterTotalSlots then 1 else 0)"
    unfolding slotsCovered_times_covered by auto
  let ?S = "{0..<clusterTotalSlots}"
  have v: "\<forall>r\<in>set (concat ps). valid_range r" by (rule redis_parser.primary_ranges_valid [OF assms(2)])
  have sub: "slots_of_all (concat ps) \<subseteq> ?S"
  proof
    fix s assume "s \<in> slots_of_all (concat ps)"
    then have "times_covered s (concat ps) \<noteq> 0" unfolding times_covered_pos slots_of_all_def by blast
    then show "s \<in> ?S" using once [of s] by (auto split: if_splits)
  qed
  have tot: "(\<Sum>r\<leftarrow>concat ps. int (card (slots_of r))) = clusterTotalSlots"
    using sum_times_covered [OF _ sub v] once by (simp add: clusterTotalSlots_def)
  have nonneg: "0 \<le> (\<Sum>r\<leftarrow>q. int (card (slots_of r)))" for q by (induction q) simp_all
  have le: "(\<Sum>r\<leftarrow>q. int (card (slots_of r))) \<le> (\<Sum>r\<leftarrow>concat qs. int (card (slots_of r)))"
    if "q \<in> set qs" for q qs using that
  proof (induction qs)
    case (Cons a qs)
    then show ?case using nonneg [of a] nonneg [of "concat qs"] by auto
  qed simp
  have count: "CountSlots p = (\<Sum>r\<leftarrow>p. int (card (slots_of r)))" if "p \<in> set ps" for p
    using redis_parser.range_counts [OF assms(2) that] le [OF that] nonneg [of p] tot
    by (simp add: i64_id minInt64_def maxInt64_def clusterTotalSlots_def)
  have "(\<Sum>p\<leftarrow>ps. CountSlots p) = (\<Sum>p\<leftarrow>ps. \<Sum>r\<leftarrow>p. int (card (slots_of r)))"
    using count by (intro arg_cong [where f = sum_list] map_cong) auto
  also have "\<dots> = (\<Sum>r\<leftarrow>concat ps. int (card (slots_of r)))" by (induction ps) simp_all
  finally show ?thesis using tot by simp
qed

lemma balanced_counts:
  "balanced nodes \<longleftrightarrow> (\<exists>ps. primary_ranges ParseSlotRanges nodes = Some ps \<and> ps \<noteq> []
     \<and> list_all (\<lambda>p. CountSlots p \<noteq> 0 \<and> within_threshold (int (length ps)) (CountSlots p)) ps)"
proof (cases "primary_ranges ParseSlotRanges nodes")
  case (Some ps)
  then show ?thesis
  proof (cases "nonzero_counts CountSlots ps")
    case None
    then show ?thesis
      using Some redis_parser.nonzero_counts_Some [of ps "map CountSlots ps"]
      by (auto simp: balanced_def list_all_iff)
  next
    case (Some cs)
    then have "cs = map CountSlots ps" "0 \<notin> set cs" by (auto simp: redis_parser.nonzero_counts_Some)
    then show ?thesis
      using Some \<open>primary_ranges ParseSlotRanges nodes = Some ps\<close>
      by (auto simp: balanced_def list_all_iff)
  qed
qed (simp add: balanced_def)

lemma within_threshold_iff:
  "within_threshold n k \<longleftrightarrow> \<bar>k - slots_per_primary n\<bar> \<le> (slots_per_primary n * 2) div 100"
  unfolding within_threshold_def Let_def unbalancedThresholdPct_def by (simp add: abs_le_iff) arith

lemma within_threshold_bounds:
  "within_threshold n k \<Longrightarrow> 100 * \<bar>k - slots_per_primary n\<bar> \<le> 2 * slots_per_primary n"
proof -
  have scale: "x \<le> q \<Longrightarrow> q * 100 \<le> m \<Longrightarrow> 100 * x \<le> m" for x q m :: int by linarith
  have floor: "m div 100 * 100 \<le> m" for m :: int by linarith
  show "within_threshold n k \<Longrightarrow> ?thesis"
    unfolding within_threshold_iff using scale [OF _ floor] by (metis mult.commute)
qed

text \<open>A balanced cluster really is: every primary's parsed slots column holds a positive number
  of slots, within two percent of the fair share (the ceiling of 16384 over the number of primaries).\<close>

lemma balanced_within_two_percent:
  assumes "balanced nodes" and "primary_ranges ParseSlotRanges nodes = Some ps" and "p \<in> set ps"
  shows "CountSlots p \<noteq> 0 \<and> 100 * \<bar>CountSlots p - slots_per_primary (int (length ps))\<bar>
      \<le> 2 * slots_per_primary (int (length ps))"
proof -
  have "ps \<noteq> []" using assms(3) by auto
  then show ?thesis
    using assms within_threshold_bounds [of "int (length ps)" "CountSlots p"]
    by (auto simp: balanced_counts list_all_iff)
qed

definition primary_of :: "string \<Rightarrow> string \<Rightarrow> cluster_node" where
  "primary_of i slots = \<lparr>cn_ID = i, cn_Addr = ''10.0.0.1:6379'', cn_IP = ''10.0.0.1'', cn_Flags = ''master'',
     cn_Primary = ''-'', cn_PingSent = 0, cn_PongRecv = 0, cn_Epoch = 1, cn_State = ''connected'',
     cn_Slots = slots\<rparr>"

lemma isPrimary_primary_of [simp]: "isPrimary (primary_of i slots)"
  by (simp add: isPrimary_def primary_of_def splitFlags_def TrimSpace_def is_space_def)

lemma primary_of_slots [simp]: "cn_Slots (primary_of i slots) = slots" "cn_ID (primary_of i slots) = i"
  by (simp_all add: primary_of_def)

lemma parse_single_range: "valid_range r \<Longrightarrow> ParseSlotRanges (range_text r) = Inr [r]"
  using ParseSlotRanges_fields [of "range_text r"] FieldsFunc_Join [of "[range_text r]" slot_separator "CHR '',''"]
    parse_slot_tokens_range_texts [of "[r]"] range_text_clean [of r]
  by (simp add: slot_separator_def)

lemma balanced_within_two_percent_witness:
  "CountSlots [SlotRange 0 8191] \<noteq> 0
   \<and> 100 * \<bar>CountSlots [SlotRange 0 8191] - slots_per_primary (int (length [[SlotRange 0 8191], [SlotRange 8192 16383]]))\<bar>
      \<le> 2 * slots_per_primary (int (length [[SlotRange 0 8191], [SlotRange 8192 16383]]))"
proof -
  let ?nodes = "[primary_of ''a'' (range_text (SlotRange 0 8191)), primary_of ''b'' (range_text (SlotRange 8192 16383))]"
  have p: "primary_ranges ParseSlotRanges ?nodes = Some [[SlotRange 0 8191], [SlotRange 8192 16383]]"
    by (simp add: parse_single_range valid_range_def maxInt64_def)
  have b: "balanced ?nodes"
    unfolding balanced_counts p
    by (simp add: CountSlots_def i64_def within_threshold_def slots_per_primary_def
        clusterTotalSlots_def unbalancedThresholdPct_def)
  show ?thesis by (rule balanced_within_two_percent [OF b p]) simp
qed

lemma all_equal_sum: "list_all (\<lambda>x. f x = (k::int)) xs \<Longrightarrow> (\<Sum>x\<leftarrow>xs. f x) = int (length xs) * k"
  by (induction xs) (simp_all add: algebra_simps)

text \<open>C34: the integer two-percent margin vanishes for large clusters: with 335 primaries or more, a
  cluster whose slots are all covered can only be reported balanced when the number of primaries
  divides 16384. A layout of floor and ceiling shares, as \<open>assignSlots\<close> makes, is reported
  unbalanced for every other number of primaries.\<close>

theorem balanced_large_cluster:
  assumes "slotsCovered nodes" and "balanced nodes"
    and "primary_ranges ParseSlotRanges nodes = Some ps" and "335 \<le> length ps"
  shows "int (length ps) dvd clusterTotalSlots"
proof -
  let ?n = "int (length ps)" let ?k = "slots_per_primary ?n"
  have n: "16384 + ?n - 1 < 50 * ?n" "0 < ?n" using assms(4) by linarith+
  have "?k * ?n \<le> 16384 + ?n - 1"
    using n(2) div_mult_mod_eq [of "16384 + ?n - 1" ?n] pos_mod_sign [of ?n "16384 + ?n - 1"]
    unfolding slots_per_primary_def clusterTotalSlots_def by linarith
  then have "?k * ?n < 50 * ?n" using n by linarith
  then have "?k < 50" using n(2) by (simp add: mult_less_cancel_right)
  moreover have "0 \<le> ?k"
    using n unfolding slots_per_primary_def clusterTotalSlots_def by (intro div_int_pos_iff [THEN iffD2]) auto
  ultimately have k: "0 \<le> ?k" "?k < 50" by auto
  have "(?k * 2) div 100 = 0" using k by simp
  then have "list_all (\<lambda>p. CountSlots p = ?k) ps"
    using assms(2,3) k by (auto simp: balanced_counts list_all_iff within_threshold_iff)
  then have "clusterTotalSlots = ?n * ?k"
    using all_equal_sum [of CountSlots ?k ps] covered_total [OF assms(1,3)] by simp
  then show ?thesis by (rule dvdI)
qed

text \<open>A cluster of \<open>n\<close> primaries with \<open>k\<close> consecutive slots each.\<close>

definition even_range :: "int \<Rightarrow> nat \<Rightarrow> slot_range" where
  "even_range k i = SlotRange (k * int i) (k * int i + k - 1)"

definition even_nodes :: "int \<Rightarrow> nat \<Rightarrow> cluster_node list" where
  "even_nodes k n = map (\<lambda>i. primary_of (Itoa (int i)) (range_text (even_range k i))) [0..<n]"

lemma even_ranges:
  assumes "0 < k" and "k * int n \<le> maxInt64"
  shows "primary_ranges ParseSlotRanges (even_nodes k n) = Some (map (\<lambda>i. [even_range k i]) [0..<n])"
proof -
  have v: "valid_range (even_range k i)" if "i < n" for i
  proof -
    have "k * (int i + 1) \<le> k * int n" using that assms(1) by (intro mult_left_mono) auto
    then show ?thesis
      using assms that by (simp add: valid_range_def even_range_def algebra_simps) 
  qed
  have "primary_ranges ParseSlotRanges (map (\<lambda>i. primary_of (Itoa (int i)) (range_text (even_range k i))) xs)
      = Some (map (\<lambda>i. [even_range k i]) xs)" if "set xs \<subseteq> {..<n}" for xs
    using that by (induction xs) (simp_all add: parse_single_range v)
  from this [of "[0..<n]"] show ?thesis unfolding even_nodes_def by (auto simp: subset_iff)
qed

lemma even_times_covered:
  assumes "0 < k"
  shows "times_covered s (concat (map (\<lambda>i. [even_range k i]) [0..<n])) = (if 0 \<le> s \<and> s < k * int n then 1 else 0)"
proof (induction n)
  case (Suc n)
  define m where "m = k * int n"
  have app: "times_covered s (xs @ ys) = times_covered s xs + times_covered s ys" for xs ys
    by (simp add: times_covered_def)
  have m: "0 \<le> m" "k * int (Suc n) = m + k" using assms by (simp_all add: m_def algebra_simps)
  have "times_covered s (concat (map (\<lambda>i. [even_range k i]) [0..<Suc n]))
      = (if 0 \<le> s \<and> s < m then 1 else 0) + (if m \<le> s \<and> s < m + k then 1 else 0)"
    using Suc.IH by (simp add: app m_def [symmetric]) (auto simp: even_range_def slots_of_def m_def [symmetric])
  then show ?case using m assms by auto
qed simp

lemma balanced_large_cluster_witness:
  "int (length (map (\<lambda>i. [even_range 32 i]) [0..<512])) dvd clusterTotalSlots"
proof -
  let ?ps = "map (\<lambda>i. [even_range 32 i]) [0..<512]"
  have p: "primary_ranges ParseSlotRanges (even_nodes 32 512) = Some ?ps"
    by (rule even_ranges) (simp_all add: maxInt64_def)
  have c: "slotsCovered (even_nodes 32 512)"
    unfolding slotsCovered_times_covered
    using p even_times_covered [of 32 _ 512] by (simp add: clusterTotalSlots_def)
  have k: "CountSlots [even_range 32 i] = 32" for i
    by (simp add: CountSlots_def even_range_def i64_def)
  have "list_all (\<lambda>p. CountSlots p \<noteq> 0 \<and> within_threshold (int (length ?ps)) (CountSlots p)) ?ps"
    unfolding list_all_iff by (auto simp: k within_threshold_iff slots_per_primary_def clusterTotalSlots_def)
  then have b: "balanced (even_nodes 32 512)" unfolding balanced_counts using p by auto
  show ?thesis by (rule balanced_large_cluster [OF c b p]) simp
qed

section \<open>Replica spread\<close>

lemma count_replicas_Some:
  "count_replicas ids m rs = Some m' \<longleftrightarrow>
   (cn_Primary ` set rs \<subseteq> ids \<and> m' = (\<lambda>i. m i + int (length (filter (\<lambda>r. cn_Primary r = i) rs))))"
proof (induction rs arbitrary: m)
  case (Cons r rs)
  have "(\<lambda>i. (m(cn_Primary r := m (cn_Primary r) + 1)) i + int (length (filter (\<lambda>r. cn_Primary r = i) rs)))
      = (\<lambda>i. m i + int (length (filter (\<lambda>r. cn_Primary r = i) (r # rs))))" by auto
  then show ?case by (simp add: Cons.IH)
qed auto

definition replicas_of :: "cluster_node list \<Rightarrow> string \<Rightarrow> cluster_node list" where
  "replicas_of nodes i = filter (\<lambda>n. \<not> isPrimary n \<and> isReplica n \<and> cn_Primary n = i) nodes"

text \<open>C32: the replica spread check, characterised: with replicas expected, it holds exactly when the
  number of distinct primaries is the desired one, every replica follows one of them (no orphan and
  no chain), and every primary has exactly the desired number of replicas; with none expected, when
  no node is a replica.\<close>

theorem replicaSpreadOK_iff:
  "replicaSpreadOK nodes P R =
     (if R = 0 then filter isReplica nodes = []
      else int (card (cn_ID ` {n \<in> set nodes. isPrimary n})) = P
        \<and> cn_Primary ` {n \<in> set nodes. \<not> isPrimary n \<and> isReplica n} \<subseteq> cn_ID ` {n \<in> set nodes. isPrimary n}
        \<and> (\<lambda>i. int (length (replicas_of nodes i))) ` cn_ID ` {n \<in> set nodes. isPrimary n} \<subseteq> {R})"
proof (cases "R = 0")
  case True
  then show ?thesis by (simp add: replicaSpreadOK_def filter_empty_conv list_ex_iff)
next
  case False
  let ?ids = "map cn_ID (filter isPrimary nodes)"
  let ?reps = "filter (\<lambda>n. \<not> isPrimary n \<and> isReplica n) nodes"
  have ids: "set ?ids = cn_ID ` {n \<in> set nodes. isPrimary n}" by auto
  have card: "length (remdups ?ids) = card (cn_ID ` {n \<in> set nodes. isPrimary n})"
    unfolding ids [symmetric] by (simp add: length_remdups_card_conv)
  have reps: "length (filter (\<lambda>r. cn_Primary r = i) ?reps) = length (replicas_of nodes i)" for i
    by (simp add: replicas_of_def conj_ac)
  have sub: "set ?reps = {n \<in> set nodes. \<not> isPrimary n \<and> isReplica n}" by auto
  show ?thesis
  proof (cases "count_replicas (set ?ids) (\<lambda>_. 0) ?reps")
    case None
    then have "\<not> cn_Primary ` set ?reps \<subseteq> set ?ids"
      using count_replicas_Some [of "set ?ids" "\<lambda>_. 0" ?reps] by (metis option.distinct(1))
    then have "\<not> cn_Primary ` {n \<in> set nodes. \<not> isPrimary n \<and> isReplica n} \<subseteq> cn_ID ` {n \<in> set nodes. isPrimary n}"
      unfolding sub ids .
    moreover have "\<not> replicaSpreadOK nodes P R"
      using False None by (simp add: replicaSpreadOK_def Let_def)
    ultimately show ?thesis using False by simp
  next
    case (Some m)
    then have "cn_Primary ` set ?reps \<subseteq> set ?ids" "m = (\<lambda>i. int (length (replicas_of nodes i)))"
      by (simp_all only: count_replicas_Some reps add_0)
    note m = this(2) this(1) [unfolded sub ids]
    have "replicaSpreadOK nodes P R = (int (length (remdups ?ids)) = P \<and> list_all (\<lambda>i. m i = R) (remdups ?ids))"
      using False Some by (simp add: replicaSpreadOK_def Let_def)
    also have "list_all (\<lambda>i. m i = R) (remdups ?ids) = (m ` set ?ids \<subseteq> {R})"
      by (simp only: list_all_iff set_remdups) blast
    finally show ?thesis using False m unfolding card ids by simp
  qed
qed

lemma slotsCovered_implies_SlotsFullyCovered_witness:
  "SlotsFullyCovered [primary_of ''a1'' (range_text (SlotRange 0 16383))]"
proof (rule slotsCovered_implies_SlotsFullyCovered)
  have "primary_ranges ParseSlotRanges [primary_of ''a1'' (range_text (SlotRange 0 16383))] = Some [[SlotRange 0 16383]]"
    using parse_single_range [of "SlotRange 0 16383"] by (simp add: valid_range_def maxInt64_def)
  then show "slotsCovered [primary_of ''a1'' (range_text (SlotRange 0 16383))]"
    unfolding slotsCovered_times_covered by (auto simp: slots_of_def clusterTotalSlots_def)
qed

end
