(* ===== verification/Config_Model.thy ===== *)
theory Config_Model
  imports Go_Strings
begin

text \<open>
  The RedkeyConfig resource as Robin sees it, and the pure decisions on it: what changed between two
  configurations (\<open>reconciler/config_changes.go\<close>), which changes are topology-only
  (\<open>config_superseding.go\<close>) and which status a change leads to (\<open>status_transitions.go\<close>).

  The resource types belong to the operator's API package. Its string constants (phases, statuses,
  substatuses) are the constructors of datatypes, with a constructor for every other text. Nested
  values the code only compares with \<open>reflect.DeepEqual\<close> (resource requirements, overrides, the
  budget's sizes) are opaque strings, and \<open>sp_Other\<close> stands for the fields of the spec that no
  code here reads by name. A Go map is a partial function, \<open>None\<close> the nil map; a pointer is an
  option.
\<close>

section \<open>The resource\<close>

type_synonym go_map = "(string \<rightharpoonup> string) option"

datatype config_phase =
    PhaseEmpty
  | Pending
  | InProgress
  | Applied
  | Superseded
  | PhaseOther string

datatype cluster_status =
    StatusEmpty
  | Initializing
  | Configuring
  | Ready
  | Upgrading
  | ScalingUp
  | ScalingDown
  | ScalingToZero
  | Maintenance
  | StatusOther string

datatype substatus_name =
    SubEmpty
  | UpgradeScalingUp
  | UpgradeResharding
  | UpgradeRollingUpdate
  | UpgradeEnding
  | UpgradeScalingDown
  | FastUpgrading
  | EndingFastUpgrade
  | Verifying
  | WaitingForPods
  | AttachingReplicas
  | ShrinkingStatefulSet
  | RemovingNodes
  | Remediating
  | RecreatingCluster
  | Rebalancing
  | InitializingNodes
  | FormingCluster
  | DrainingPrimaries
  | DeletingStatefulSet
  | DeletingResources
  | DeletingPVCs
  | SubOther string

record robin_reconciler =
  IntervalSeconds :: "int option"
  IntervalOnErrorSeconds :: "int option"
  IntervalOnWaitSeconds :: "int option"

record robin_cluster =
  ConnectionMaxRetries :: "int option"
  ConnectionBackOffSeconds :: "int option"
  ClusterCommandTimeoutSeconds :: "int option"
  ClusterMeetWaitSeconds :: "int option"
  RebalanceTimeoutSeconds :: "int option"

record robin_metrics =
  CollectionIntervalSeconds :: "int option"
  RedisInfoKeys :: "string list option"
  MetricsLabels :: go_map

record robin_config =
  rb_Reconciler :: "robin_reconciler option"
  rb_Cluster :: "robin_cluster option"
  rb_Metrics :: "robin_metrics option"
  rb_Profiling :: "bool option option"

record pdb_spec =
  pdb_Enabled :: bool
  pdb_SizeUnavailable :: string
  pdb_SizeAvailable :: string

text \<open>Of an override block the code reads the metadata, whether it brings volume claim templates and
  the pod template's metadata; the rest is merged by the Kubernetes library.\<close>

record partial_template =
  pt_Labels :: go_map
  pt_Annotations :: go_map

record partial_sts_spec =
  ps_VolumeClaimTemplates :: "string list"
  ps_Template :: "partial_template option"
  ps_Rest :: string

record partial_sts =
  po_Labels :: go_map
  po_Annotations :: go_map
  po_Spec :: "partial_sts_spec option"

record partial_service =
  pv_Labels :: go_map
  pv_Annotations :: go_map
  pv_Spec :: "string option"

record override_spec =
  ov_StatefulSet :: "partial_sts option"
  ov_Service :: "partial_service option"

record config_spec =
  sp_Sequence :: int
  sp_SkipIfSuperseded :: bool
  sp_Primaries :: "32 word"
  sp_ReplicasPerPrimary :: "32 word"
  sp_Mode :: string
  sp_Ephemeral :: bool
  sp_Storage :: string
  sp_StorageClassName :: string
  sp_DeletePVC :: "bool option"
  sp_PurgeKeysOnRebalance :: "bool option"
  sp_Image :: string
  sp_Version :: string
  sp_RedisConfig :: string
  sp_AuthSecretName :: string
  sp_Labels :: "go_map option"
  sp_Annotations :: "go_map option"
  sp_Resources :: "string option"
  sp_Override :: "override_spec option"
  sp_Pdb :: pdb_spec
  sp_RobinConfig :: "robin_config option"
  sp_Other :: string

record redis_node_status =
  rn_Role :: string
  rn_IP :: string

datatype condition_type =
    ConditionHealthy
  | ConditionMembershipHealthy
  | ConditionSlotsCovered
  | ConditionSlotsBalanced
  | ConditionReplicasBalanced
  | ConditionClusterCheckPassing
  | ConditionOther string

record condition =
  cond_Type :: condition_type
  cond_Status :: bool
  cond_Reason :: string
  cond_ObservedGeneration :: int

record config_state =
  cs_ConfigPhase :: config_phase
  cs_Status :: cluster_status
  cs_Substatus :: substatus_name
  cs_UpgradingPartition :: int
  cs_Nodes :: "(string \<rightharpoonup> redis_node_status) option"
  cs_Conditions :: "condition list"

record redkey_config =
  rc_Name :: string
  rc_Generation :: int
  rc_Spec :: config_spec
  rc_Status :: config_state

abbreviation phase_of :: "redkey_config \<Rightarrow> config_phase" where
  "phase_of c \<equiv> cs_ConfigPhase (rc_Status c)"

abbreviation status_of :: "redkey_config \<Rightarrow> cluster_status" where
  "status_of c \<equiv> cs_Status (rc_Status c)"

abbreviation substatus_of :: "redkey_config \<Rightarrow> substatus_name" where
  "substatus_of c \<equiv> cs_Substatus (rc_Status c)"

text \<open>The counts as Go reads them with \<open>int(...)\<close>.\<close>

definition primaries :: "config_spec \<Rightarrow> int" where
  "primaries sp = sint (sp_Primaries sp)"

definition replicas_per_primary :: "config_spec \<Rightarrow> int" where
  "replicas_per_primary sp = sint (sp_ReplicasPerPrimary sp)"

section \<open>config_changes.go\<close>

datatype ScaleDirection = NoScale | ScaleUp | ScaleDown | ScaleToZero

record ChangeReport =
  HasRobinChanges :: bool
  HasTopologyChanges :: bool
  HasKubernetesChanges :: bool
  HasRedisConfigChanges :: bool
  HasAuthChanges :: bool
  HasPurgeKeysOnRebalanceChange :: bool
  TopologyScaleDirection :: ScaleDirection
  PrimariesDelta :: "32 word"
  ReplicasDelta :: "32 word"

definition OnlyRobinChanges :: "ChangeReport \<Rightarrow> bool" where
  "OnlyRobinChanges r =
     (HasRobinChanges r \<and> \<not> HasTopologyChanges r \<and> \<not> HasKubernetesChanges r
      \<and> \<not> HasRedisConfigChanges r \<and> \<not> HasPurgeKeysOnRebalanceChange r)"

definition RequiresClusterOperation :: "ChangeReport \<Rightarrow> bool" where
  "RequiresClusterOperation r =
     (HasTopologyChanges r \<or> HasKubernetesChanges r \<or> HasRedisConfigChanges r)"

definition HasAnyChange :: "ChangeReport \<Rightarrow> bool" where
  "HasAnyChange r =
     (HasRobinChanges r \<or> HasTopologyChanges r \<or> HasKubernetesChanges r \<or> HasRedisConfigChanges r
      \<or> HasAuthChanges r \<or> HasPurgeKeysOnRebalanceChange r)"

text \<open>The deltas are 32-bit subtractions; their sign is read as Go reads an \<open>int32\<close>.\<close>

definition determineScaleDirection :: "32 word \<Rightarrow> 32 word \<Rightarrow> 32 word \<Rightarrow> ScaleDirection" where
  "determineScaleDirection primariesDelta replicasDelta targetPrimaries =
     (if targetPrimaries = 0 then ScaleToZero
      else if 0 < sint primariesDelta then ScaleUp
      else if sint primariesDelta < 0 then ScaleDown
      else if 0 < sint replicasDelta then ScaleUp
      else if sint replicasDelta < 0 then ScaleDown
      else NoScale)"

text \<open>The nil-safe comparisons: nil equals nil, nil differs from a value, values by \<open>eq\<close>.\<close>

fun ptr_equal :: "('a \<Rightarrow> 'a \<Rightarrow> bool) \<Rightarrow> 'a option \<Rightarrow> 'a option \<Rightarrow> bool" where
  "ptr_equal eq None None = True"
| "ptr_equal eq None (Some _) = False"
| "ptr_equal eq (Some _) None = False"
| "ptr_equal eq (Some a) (Some b) = eq a b"

definition boolPtrEqual :: "bool option \<Rightarrow> bool option \<Rightarrow> bool" where
  "boolPtrEqual a b = ptr_equal (=) a b"

definition intPtrEqual :: "int option \<Rightarrow> int option \<Rightarrow> bool" where
  "intPtrEqual a b = ptr_equal (=) a b"

definition labelsPtrEqual :: "go_map option \<Rightarrow> go_map option \<Rightarrow> bool" where
  "labelsPtrEqual a b = ptr_equal (=) a b"

definition annotationsPtrEqual :: "go_map option \<Rightarrow> go_map option \<Rightarrow> bool" where
  "annotationsPtrEqual a b = ptr_equal (=) a b"

definition resourcesEqual :: "string option \<Rightarrow> string option \<Rightarrow> bool" where
  "resourcesEqual a b = ptr_equal (=) a b"

definition overrideEqual :: "override_spec option \<Rightarrow> override_spec option \<Rightarrow> bool" where
  "overrideEqual a b = ptr_equal (=) a b"

definition robinReconcilerEqual :: "robin_reconciler option \<Rightarrow> robin_reconciler option \<Rightarrow> bool" where
  "robinReconcilerEqual = ptr_equal (\<lambda>a b.
     if \<not> intPtrEqual (IntervalSeconds a) (IntervalSeconds b) then False
     else if \<not> intPtrEqual (IntervalOnErrorSeconds a) (IntervalOnErrorSeconds b) then False
     else if \<not> intPtrEqual (IntervalOnWaitSeconds a) (IntervalOnWaitSeconds b) then False
     else True)"

definition robinClusterEqual :: "robin_cluster option \<Rightarrow> robin_cluster option \<Rightarrow> bool" where
  "robinClusterEqual = ptr_equal (\<lambda>a b.
     if \<not> intPtrEqual (ConnectionMaxRetries a) (ConnectionMaxRetries b) then False
     else if \<not> intPtrEqual (ConnectionBackOffSeconds a) (ConnectionBackOffSeconds b) then False
     else if \<not> intPtrEqual (ClusterCommandTimeoutSeconds a) (ClusterCommandTimeoutSeconds b) then False
     else if \<not> intPtrEqual (ClusterMeetWaitSeconds a) (ClusterMeetWaitSeconds b) then False
     else if \<not> intPtrEqual (RebalanceTimeoutSeconds a) (RebalanceTimeoutSeconds b) then False
     else True)"

definition robinMetricsEqual :: "robin_metrics option \<Rightarrow> robin_metrics option \<Rightarrow> bool" where
  "robinMetricsEqual = ptr_equal (\<lambda>a b.
     if \<not> intPtrEqual (CollectionIntervalSeconds a) (CollectionIntervalSeconds b) then False
     else if RedisInfoKeys a \<noteq> RedisInfoKeys b then False
     else if MetricsLabels a \<noteq> MetricsLabels b then False
     else True)"

definition robinProfilingEqual :: "bool option option \<Rightarrow> bool option option \<Rightarrow> bool" where
  "robinProfilingEqual = ptr_equal boolPtrEqual"

definition robinConfigEqual :: "robin_config option \<Rightarrow> robin_config option \<Rightarrow> bool" where
  "robinConfigEqual = ptr_equal (\<lambda>a b.
     if \<not> robinReconcilerEqual (rb_Reconciler a) (rb_Reconciler b) then False
     else if \<not> robinClusterEqual (rb_Cluster a) (rb_Cluster b) then False
     else if \<not> robinMetricsEqual (rb_Metrics a) (rb_Metrics b) then False
     else if \<not> robinProfilingEqual (rb_Profiling a) (rb_Profiling b) then False
     else True)"

definition detectKubernetesChanges :: "config_spec \<Rightarrow> config_spec \<Rightarrow> bool" where
  "detectKubernetesChanges p t =
     (if sp_Image p \<noteq> sp_Image t then True
      else if sp_Ephemeral p \<noteq> sp_Ephemeral t then True
      else if sp_Storage p \<noteq> sp_Storage t then True
      else if sp_StorageClassName p \<noteq> sp_StorageClassName t then True
      else if \<not> boolPtrEqual (sp_DeletePVC p) (sp_DeletePVC t) then True
      else if \<not> labelsPtrEqual (sp_Labels p) (sp_Labels t) then True
      else if \<not> annotationsPtrEqual (sp_Annotations p) (sp_Annotations t) then True
      else if \<not> resourcesEqual (sp_Resources p) (sp_Resources t) then True
      else if \<not> overrideEqual (sp_Override p) (sp_Override t) then True
      else if sp_Pdb p \<noteq> sp_Pdb t then True
      else False)"

definition detectRedisConfigChanges :: "config_spec \<Rightarrow> config_spec \<Rightarrow> bool" where
  "detectRedisConfigChanges p t =
     (if sp_RedisConfig p \<noteq> sp_RedisConfig t then True
      else if sp_Version p \<noteq> sp_Version t then True
      else False)"

definition DetectChanges :: "config_spec \<Rightarrow> config_spec \<Rightarrow> ChangeReport" where
  "DetectChanges p t =
     (let pd = sp_Primaries t - sp_Primaries p;
          rd = sp_ReplicasPerPrimary t - sp_ReplicasPerPrimary p;
          topo = (pd \<noteq> 0 \<or> rd \<noteq> 0)
      in \<lparr>HasRobinChanges = \<not> robinConfigEqual (sp_RobinConfig p) (sp_RobinConfig t),
          HasTopologyChanges = topo,
          HasKubernetesChanges = detectKubernetesChanges p t,
          HasRedisConfigChanges = detectRedisConfigChanges p t,
          HasAuthChanges = (sp_AuthSecretName p \<noteq> sp_AuthSecretName t),
          HasPurgeKeysOnRebalanceChange =
            \<not> boolPtrEqual (sp_PurgeKeysOnRebalance p) (sp_PurgeKeysOnRebalance t),
          TopologyScaleDirection =
            (if topo then determineScaleDirection pd rd (sp_Primaries t) else NoScale),
          PrimariesDelta = pd, ReplicasDelta = rd\<rparr>)"

section \<open>config_superseding.go: topology-only changes\<close>

definition topology_norm :: "config_spec \<Rightarrow> config_spec" where
  "topology_norm a = a\<lparr>sp_Sequence := 0, sp_SkipIfSuperseded := False, sp_Primaries := 0,
                       sp_ReplicasPerPrimary := 0\<rparr>"

definition onlyTopologyChange :: "config_spec \<Rightarrow> config_spec \<Rightarrow> bool" where
  "onlyTopologyChange a b = (topology_norm a = topology_norm b)"

section \<open>status_transitions.go\<close>

definition DetermineStatusTransition :: "ChangeReport \<Rightarrow> cluster_status" where
  "DetermineStatusTransition r =
     (if \<not> HasAnyChange r \<or> OnlyRobinChanges r then StatusEmpty
      else if HasPurgeKeysOnRebalanceChange r \<and> \<not> RequiresClusterOperation r \<and> \<not> HasRobinChanges r
      then StatusEmpty
      else if HasTopologyChanges r \<and> TopologyScaleDirection r = ScaleToZero then ScalingToZero
      else if HasTopologyChanges r \<and> TopologyScaleDirection r = ScaleUp then ScalingUp
      else if HasTopologyChanges r \<and> TopologyScaleDirection r = ScaleDown then ScalingDown
      else if HasKubernetesChanges r \<or> HasRedisConfigChanges r then Upgrading
      else StatusEmpty)"

section \<open>Properties\<close>

lemma ptr_equal_eq [simp]: "ptr_equal (=) a b = (a = b)"
  by (cases a; cases b) simp_all

lemma ptr_equal_iff:
  assumes "\<And>x y. eq x y = (x = y)"
  shows "ptr_equal eq a b = (a = b)"
  using assms by (cases a; cases b) simp_all

text \<open>Every nil-safe comparison decides equality.\<close>

lemma comparisons_equality:
  "boolPtrEqual a b = (a = b)" "intPtrEqual i j = (i = j)" "labelsPtrEqual m n = (m = n)"
  "annotationsPtrEqual m n = (m = n)" "resourcesEqual r q = (r = q)" "overrideEqual u v = (u = v)"
  by (simp_all add: boolPtrEqual_def intPtrEqual_def labelsPtrEqual_def annotationsPtrEqual_def
      resourcesEqual_def overrideEqual_def)

lemma robin_comparisons_equality:
  "robinReconcilerEqual a b = (a = b)" "robinClusterEqual c d = (c = d)"
  "robinMetricsEqual e f = (e = f)" "robinProfilingEqual g h = (g = h)"
proof -
  show "robinReconcilerEqual a b = (a = b)"
    unfolding robinReconcilerEqual_def
    by (rule ptr_equal_iff) (auto simp: comparisons_equality intro: robin_reconciler.equality)
  show "robinClusterEqual c d = (c = d)"
    unfolding robinClusterEqual_def
    by (rule ptr_equal_iff) (auto simp: comparisons_equality intro: robin_cluster.equality)
  show "robinMetricsEqual e f = (e = f)"
    unfolding robinMetricsEqual_def
    by (rule ptr_equal_iff) (auto simp: comparisons_equality intro: robin_metrics.equality)
  show "robinProfilingEqual g h = (g = h)"
    unfolding robinProfilingEqual_def by (rule ptr_equal_iff) (rule comparisons_equality)
qed

lemma robinConfigEqual_iff: "robinConfigEqual a b = (a = b)"
  unfolding robinConfigEqual_def
  by (rule ptr_equal_iff) (auto simp: robin_comparisons_equality intro: robin_config.equality)

lemmas spec_equalities = comparisons_equality robin_comparisons_equality robinConfigEqual_iff

lemma topology_norm_eq:
  "onlyTopologyChange a b \<longleftrightarrow>
     sp_Mode a = sp_Mode b \<and> sp_Ephemeral a = sp_Ephemeral b \<and> sp_Storage a = sp_Storage b
   \<and> sp_StorageClassName a = sp_StorageClassName b \<and> sp_DeletePVC a = sp_DeletePVC b
   \<and> sp_PurgeKeysOnRebalance a = sp_PurgeKeysOnRebalance b \<and> sp_Image a = sp_Image b
   \<and> sp_Version a = sp_Version b \<and> sp_RedisConfig a = sp_RedisConfig b
   \<and> sp_AuthSecretName a = sp_AuthSecretName b \<and> sp_Labels a = sp_Labels b
   \<and> sp_Annotations a = sp_Annotations b \<and> sp_Resources a = sp_Resources b
   \<and> sp_Override a = sp_Override b \<and> sp_Pdb a = sp_Pdb b \<and> sp_RobinConfig a = sp_RobinConfig b
   \<and> sp_Other a = sp_Other b"
  unfolding onlyTopologyChange_def topology_norm_def by (cases a; cases b) auto

lemma onlyTopologyChange_refl: "onlyTopologyChange a a"
  by (simp add: onlyTopologyChange_def)

lemma onlyTopologyChange_sym: "onlyTopologyChange a b \<Longrightarrow> onlyTopologyChange b a"
  by (simp add: onlyTopologyChange_def)

lemma onlyTopologyChange_trans:
  "onlyTopologyChange a b \<Longrightarrow> onlyTopologyChange b c \<Longrightarrow> onlyTopologyChange a c"
  by (simp add: onlyTopologyChange_def)

text \<open>Superseding is consistent with change detection: between two specs that differ in topology
  only, \<open>DetectChanges\<close> reports no Robin, Kubernetes, Redis, auth or purge change, so nothing but
  topology can be skipped with a superseded configuration.\<close>

lemma topology_only_changes:
  assumes "onlyTopologyChange p t"
  shows "\<not> HasRobinChanges (DetectChanges p t) \<and> \<not> HasKubernetesChanges (DetectChanges p t)
    \<and> \<not> HasRedisConfigChanges (DetectChanges p t) \<and> \<not> HasAuthChanges (DetectChanges p t)
    \<and> \<not> HasPurgeKeysOnRebalanceChange (DetectChanges p t)"
  using assms
  by (simp add: topology_norm_eq DetectChanges_def Let_def detectKubernetesChanges_def
      detectRedisConfigChanges_def spec_equalities)

definition base_spec :: config_spec where
  "base_spec = \<lparr>sp_Sequence = 1, sp_SkipIfSuperseded = False, sp_Primaries = 3, sp_ReplicasPerPrimary = 0,
     sp_Mode = [], sp_Ephemeral = True, sp_Storage = [], sp_StorageClassName = [], sp_DeletePVC = None,
     sp_PurgeKeysOnRebalance = None, sp_Image = ''redis:8'', sp_Version = ''8'', sp_RedisConfig = [],
     sp_AuthSecretName = [], sp_Labels = None, sp_Annotations = None, sp_Resources = None, sp_Override = None,
     sp_Pdb = \<lparr>pdb_Enabled = False, pdb_SizeUnavailable = [], pdb_SizeAvailable = []\<rparr>, sp_RobinConfig = None,
     sp_Other = []\<rparr>"

lemma sint_diff:
  fixes a b :: "32 word"
  assumes "0 \<le> sint a" and "0 \<le> sint b"
  shows "sint (a - b) = sint a - sint b"
proof -
  have range: "- (2 ^ 31) \<le> sint w \<and> sint w < 2 ^ 31" for w :: "32 word"
    using sint_ge [of w] sint_lt [of w] by simp
  have "sint (a - b) = signed_take_bit 31 (sint a - sint b)"
    by (simp add: sint_word_ariths)
  also have "\<dots> = sint a - sint b"
    using assms range [of a] range [of b] by (intro signed_take_bit_int_eq_self) auto
  finally show ?thesis .
qed

lemma sint_zero_iff: "sint (w :: 32 word) = 0 \<longleftrightarrow> w = 0"
  by (metis signed_0 signed_word_eqI)

definition valid_topology :: "config_spec \<Rightarrow> bool" where
  "valid_topology sp = (0 \<le> primaries sp \<and> 0 \<le> replicas_per_primary sp)"

lemma delta_signs:
  assumes "valid_topology p" and "valid_topology t"
  shows "sint (sp_Primaries t - sp_Primaries p) = primaries t - primaries p"
    and "sint (sp_ReplicasPerPrimary t - sp_ReplicasPerPrimary p) = replicas_per_primary t - replicas_per_primary p"
  using assms by (simp_all add: valid_topology_def primaries_def replicas_per_primary_def sint_diff)

text \<open>C28: the status a configuration change leads to, written out over the two specs: topology first
  (to zero, then the direction of the primaries, then of the replicas per primary), otherwise an
  upgrade when a Kubernetes or Redis setting changed, otherwise no transition. In particular no
  topology change is ever lost between the early returns.\<close>

theorem status_transition_spec:
  assumes "valid_topology p" and "valid_topology t"
  shows "DetermineStatusTransition (DetectChanges p t) =
    (if (primaries t, replicas_per_primary t) \<noteq> (primaries p, replicas_per_primary p)
     then if primaries t = 0 then ScalingToZero
          else if primaries p < primaries t then ScalingUp
          else if primaries t < primaries p then ScalingDown
          else if replicas_per_primary p < replicas_per_primary t then ScalingUp
          else ScalingDown
     else if detectKubernetesChanges p t \<or> detectRedisConfigChanges p t then Upgrading
     else StatusEmpty)"
proof -
  let ?pd = "sp_Primaries t - sp_Primaries p" and ?rd = "sp_ReplicasPerPrimary t - sp_ReplicasPerPrimary p"
  note d = delta_signs [OF assms]
  have pd0: "(?pd = 0) = (primaries t = primaries p)"
    using d(1) sint_zero_iff [of ?pd] by auto
  have rd0: "(?rd = 0) = (replicas_per_primary t = replicas_per_primary p)"
    using d(2) sint_zero_iff [of ?rd] by auto
  have t0: "(sp_Primaries t = 0) = (primaries t = 0)"
    using sint_zero_iff [of "sp_Primaries t"] by (simp add: primaries_def)
  have dir: "determineScaleDirection ?pd ?rd (sp_Primaries t) =
      (if primaries t = 0 then ScaleToZero
       else if primaries p < primaries t then ScaleUp
       else if primaries t < primaries p then ScaleDown
       else if replicas_per_primary p < replicas_per_primary t then ScaleUp
       else if replicas_per_primary t < replicas_per_primary p then ScaleDown else NoScale)"
    unfolding determineScaleDirection_def d t0 by simp
  show ?thesis
    unfolding DetermineStatusTransition_def HasAnyChange_def OnlyRobinChanges_def
      RequiresClusterOperation_def DetectChanges_def Let_def ChangeReport.simps dir pd0 rd0
    by (auto split: if_splits)
qed

lemma status_transition_spec_witness:
  "DetermineStatusTransition (DetectChanges base_spec (base_spec\<lparr>sp_Primaries := 5, sp_Image := ''redis:9''\<rparr>)) = ScalingUp"
  using status_transition_spec [of base_spec "base_spec\<lparr>sp_Primaries := 5, sp_Image := ''redis:9''\<rparr>"]
  by (simp add: valid_topology_def primaries_def replicas_per_primary_def base_spec_def)

text \<open>An auth-secret change bundled with a Robin setting is classified as a Robin-only change,
  although the secret of the configuration differs.\<close>

lemma only_robin_ignores_auth:
  assumes "sp_RobinConfig p \<noteq> sp_RobinConfig t" and "t = p\<lparr>sp_RobinConfig := r, sp_AuthSecretName := s\<rparr>"
    and "s \<noteq> sp_AuthSecretName p"
  shows "OnlyRobinChanges (DetectChanges p t) \<and> HasAuthChanges (DetectChanges p t)"
  using assms
  by (simp add: OnlyRobinChanges_def DetectChanges_def Let_def detectKubernetesChanges_def
      detectRedisConfigChanges_def spec_equalities)

definition profiling_on :: robin_config where
  "profiling_on = \<lparr>rb_Reconciler = None, rb_Cluster = None, rb_Metrics = None, rb_Profiling = Some (Some True)\<rparr>"

lemma only_robin_ignores_auth_witness:
  "OnlyRobinChanges (DetectChanges base_spec
     (base_spec\<lparr>sp_RobinConfig := Some profiling_on, sp_AuthSecretName := ''secret''\<rparr>))"
  using only_robin_ignores_auth [where p = base_spec and r = "Some profiling_on" and s = "''secret''"
      and t = "base_spec\<lparr>sp_RobinConfig := Some profiling_on, sp_AuthSecretName := ''secret''\<rparr>"]
  by (simp add: base_spec_def)

end
