(* ===== verification/Config_Plan.thy ===== *)
theory Config_Plan
  imports Config_Model
begin

text \<open>
  Which configuration comes next: \<open>SelectConfig\<close> and its helpers (\<open>config_plan.go\<close>) and
  \<open>ApplySuperseding\<close> with its helpers (\<open>config_superseding.go\<close>). The code passes pointers into the
  slice of configurations; the model passes indices into the list. The list is sorted by sequence
  number; \<open>distinct_sequences\<close> says that no two configurations share one.
\<close>

section \<open>config_plan.go\<close>

definition seq_of :: "redkey_config \<Rightarrow> int" where
  "seq_of c = sp_Sequence (rc_Spec c)"

fun last_applied_below :: "redkey_config list \<Rightarrow> nat \<Rightarrow> nat option" where
  "last_applied_below configs 0 = None"
| "last_applied_below configs (Suc j) =
     (if phase_of (configs ! j) = Applied then Some j else last_applied_below configs j)"

text \<open>\<open>lastAppliedBefore(configs, i)\<close> scans \<open>i-1, ..., 0\<close>.\<close>

definition lastAppliedBefore :: "redkey_config list \<Rightarrow> int \<Rightarrow> nat option" where
  "lastAppliedBefore configs i = last_applied_below configs (nat i)"

definition lastApplied :: "redkey_config list \<Rightarrow> nat option" where
  "lastApplied configs = last_applied_below configs (length configs)"

definition indexOfConfig :: "redkey_config list \<Rightarrow> redkey_config \<Rightarrow> int" where
  "indexOfConfig configs cfg =
     (case find_index (\<lambda>c. seq_of c = seq_of cfg) configs of None \<Rightarrow> -1 | Some i \<Rightarrow> int i)"

definition finished :: "redkey_config \<Rightarrow> bool" where
  "finished c = (phase_of c = Applied \<or> phase_of c = Superseded)"

definition SelectConfig :: "redkey_config list \<Rightarrow> nat option \<times> nat option" where
  "SelectConfig configs =
     (if configs = [] then (None, None)
      else case find_index (\<lambda>c. \<not> finished c) configs of
             Some i \<Rightarrow> (lastAppliedBefore configs (int i), Some i)
           | None \<Rightarrow>
              (case lastApplied configs of
                 None \<Rightarrow> (None, Some (length configs - 1))
               | Some l \<Rightarrow> (lastAppliedBefore configs (indexOfConfig configs (configs ! l)), Some l)))"

definition validConfigPhase :: "config_phase \<Rightarrow> bool \<Rightarrow> bool" where
  "validConfigPhase phase excludeSuperseded =
     (if excludeSuperseded then phase = Pending \<or> phase = InProgress \<or> phase = Applied
      else phase = Pending \<or> phase = InProgress \<or> phase = Applied \<or> phase = Superseded)"

section \<open>config_superseding.go\<close>

record SupersedingResult =
  sr_Selected :: nat
  sr_Superseded :: "nat list"

fun find_baseline_from :: "int \<Rightarrow> nat option \<Rightarrow> nat \<Rightarrow> redkey_config list \<Rightarrow> nat option" where
  "find_baseline_from limit baseline i [] = baseline"
| "find_baseline_from limit baseline i (c # rest) =
     (if limit \<le> seq_of c then baseline
      else find_baseline_from limit (if phase_of c = Applied then Some i else baseline) (Suc i) rest)"

definition findBaseline :: "redkey_config list \<Rightarrow> redkey_config \<Rightarrow> nat option" where
  "findBaseline configs selected = find_baseline_from (seq_of selected) None 0 configs"

text \<open>The walk forward: \<open>next\<close> is the index of the candidate, \<open>current\<close> the configuration the chain
  has reached.\<close>

function supersede_chain ::
  "redkey_config list \<Rightarrow> nat option \<Rightarrow> nat \<Rightarrow> nat \<Rightarrow> SupersedingResult \<Rightarrow> SupersedingResult" where
  "supersede_chain configs baseline current nxt result =
     (if nxt < length configs then
        if baseline \<noteq> None \<and> \<not> onlyTopologyChange (rc_Spec (configs ! the baseline)) (rc_Spec (configs ! nxt))
        then result
        else if baseline = None \<and> \<not> onlyTopologyChange (rc_Spec (configs ! current)) (rc_Spec (configs ! nxt))
        then result
        else let result' = result\<lparr>sr_Superseded := sr_Superseded result @ [current], sr_Selected := nxt\<rparr>
             in if \<not> sp_SkipIfSuperseded (rc_Spec (configs ! nxt)) then result'
                else supersede_chain configs baseline nxt (Suc nxt) result'
      else result)"
  by pat_completeness auto
termination
  by (relation "measure (\<lambda>(configs, _, _, nxt, _). length configs - nxt)") auto

declare supersede_chain.simps [simp del]

definition ApplySuperseding :: "redkey_config list \<Rightarrow> nat \<Rightarrow> SupersedingResult" where
  "ApplySuperseding configs selected =
     (let sel = configs ! selected;
          result = \<lparr>sr_Selected = selected, sr_Superseded = []\<rparr>
      in if phase_of sel = InProgress \<or> phase_of sel = Applied then result
         else if \<not> sp_SkipIfSuperseded (rc_Spec sel) then result
         else let baseline = findBaseline configs sel
              in if baseline \<noteq> None \<and> \<not> onlyTopologyChange (rc_Spec (configs ! the baseline)) (rc_Spec sel)
                 then result
                 else let selectedIdx = indexOfConfig configs sel
                      in if selectedIdx < 0 then result
                         else supersede_chain configs baseline selected (nat selectedIdx + 1) result)"

section \<open>Selection never passes over an unfinished configuration\<close>

definition distinct_sequences :: "redkey_config list \<Rightarrow> bool" where
  "distinct_sequences configs = distinct (map seq_of configs)"

lemma last_applied_below_Some:
  "last_applied_below configs n = Some j \<Longrightarrow>
   j < n \<and> phase_of (configs ! j) = Applied \<and> (\<forall>k. j < k \<and> k < n \<longrightarrow> phase_of (configs ! k) \<noteq> Applied)"
  by (induction configs n rule: last_applied_below.induct) (auto simp: less_Suc_eq split: if_splits)

lemma last_applied_below_None:
  "last_applied_below configs n = None \<longleftrightarrow> (\<forall>k<n. phase_of (configs ! k) \<noteq> Applied)"
  by (induction configs n rule: last_applied_below.induct) (auto simp: less_Suc_eq)

lemma index_of_self:
  assumes "distinct_sequences configs" and "i < length configs"
  shows "indexOfConfig configs (configs ! i) = int i"
proof (cases "find_index (\<lambda>c. seq_of c = seq_of (configs ! i)) configs")
  case None
  then show ?thesis using assms(2) unfolding find_index_None by auto
next
  case (Some j)
  from find_index_Some [OF this] have j: "j < length configs" "seq_of (configs ! j) = seq_of (configs ! i)"
    by auto
  then have "j = i"
    using assms nth_eq_iff_index_eq [of "map seq_of configs" j i] by (simp add: distinct_sequences_def)
  then show ?thesis using Some by (simp add: indexOfConfig_def)
qed

definition previous_ok :: "redkey_config list \<Rightarrow> nat option \<Rightarrow> nat \<Rightarrow> bool" where
  "previous_ok configs p t =
     (case p of
        None \<Rightarrow> list_all (\<lambda>k. phase_of (configs ! k) = Superseded) [0..<t]
      | Some i \<Rightarrow> i < t \<and> phase_of (configs ! i) = Applied
          \<and> list_all (\<lambda>k. phase_of (configs ! k) = Superseded) [Suc i..<t])"

lemma previous_okI:
  assumes "list_all (\<lambda>k. finished (configs ! k)) [0..<t]"
  shows "previous_ok configs (last_applied_below configs t) t"
proof (cases "last_applied_below configs t")
  case None
  then show ?thesis
    using assms None [unfolded last_applied_below_None]
    by (auto simp: None previous_ok_def list_all_iff finished_def)
next
  case (Some i)
  then show ?thesis
    using assms last_applied_below_Some [OF Some]
    by (fastforce simp: Some previous_ok_def list_all_iff finished_def Suc_le_eq)
qed

text \<open>C16: \<open>SelectConfig\<close> on configurations with distinct sequence numbers: the target exists, every
  configuration before it is finished, and it is itself unfinished unless all are, in which case it is
  the last applied one (or the last one, when none is applied); the previous configuration is the last
  applied one before the target, with only superseded ones in between.\<close>

theorem SelectConfig_correct:
  assumes "configs \<noteq> []" and "distinct_sequences configs"
  shows "case SelectConfig configs of (p, t) \<Rightarrow> (case t of None \<Rightarrow> False | Some i \<Rightarrow>
      i < length configs
      \<and> list_all (\<lambda>k. finished (configs ! k)) [0..<i]
      \<and> previous_ok configs p i
      \<and> (if list_all finished configs
         then if list_all (\<lambda>c. phase_of c = Superseded) configs then i = length configs - 1
              else phase_of (configs ! i) = Applied
                \<and> list_all (\<lambda>k. phase_of (configs ! k) = Superseded) [Suc i..<length configs]
         else \<not> finished (configs ! i)))"
proof (cases "find_index (\<lambda>c. \<not> finished c) configs")
  case (Some i)
  from find_index_Some [OF this]
  have i: "i < length configs" "\<not> finished (configs ! i)" "list_all (\<lambda>k. finished (configs ! k)) [0..<i]"
    by (auto simp: list_all_iff)
  then have "\<not> list_all finished configs" by (auto simp: list_all_length)
  then show ?thesis
    using i assms(1) Some previous_okI [OF i(3)] by (simp add: SelectConfig_def lastAppliedBefore_def)
next
  case None
  then have fin: "finished c" if "c \<in> set configs" for c using that unfolding find_index_None by blast
  then have all: "list_all finished configs" by (simp add: list_all_iff)
  have upto: "list_all (\<lambda>k. finished (configs ! k)) [0..<i]" if "i \<le> length configs" for i
    using that fin by (auto simp: list_all_iff)
  show ?thesis
  proof (cases "lastApplied configs")
    case None
    then have na: "phase_of (configs ! k) = Superseded" if "k < length configs" for k
      using that fin [of "configs ! k"] by (auto simp: lastApplied_def last_applied_below_None finished_def)
    have "list_all (\<lambda>c. phase_of c = Superseded) configs" using na by (auto simp: list_all_length)
    moreover have "previous_ok configs None (length configs - 1)"
      using na by (simp add: previous_ok_def list_all_iff)
    ultimately show ?thesis
      using assms(1) None all upto [of "length configs - 1"] \<open>find_index (\<lambda>c. \<not> finished c) configs = None\<close>
      by (simp add: SelectConfig_def)
  next
    case (Some l)
    then have l: "l < length configs" "phase_of (configs ! l) = Applied"
      "\<And>k. l < k \<Longrightarrow> k < length configs \<Longrightarrow> phase_of (configs ! k) \<noteq> Applied"
      using last_applied_below_Some [of configs "length configs" l] by (auto simp: lastApplied_def)
    have "list_all (\<lambda>k. phase_of (configs ! k) = Superseded) [Suc l..<length configs]"
      using l(3) fin [OF nth_mem] by (fastforce simp: list_all_iff finished_def)
    moreover have "\<not> list_all (\<lambda>c. phase_of c = Superseded) configs"
      using l by (auto simp: list_all_length)
    ultimately show ?thesis
      using assms(1) Some l all upto [of l] index_of_self [OF assms(2) l(1)] previous_okI [OF upto [of l]]
        \<open>find_index (\<lambda>c. \<not> finished c) configs = None\<close>
      by (simp add: SelectConfig_def lastAppliedBefore_def)
  qed
qed

definition config_with :: "int \<Rightarrow> config_phase \<Rightarrow> redkey_config" where
  "config_with n ph = \<lparr>rc_Name = ''cfg'', rc_Generation = 1, rc_Spec = base_spec\<lparr>sp_Sequence := n\<rparr>,
     rc_Status = \<lparr>cs_ConfigPhase = ph, cs_Status = StatusEmpty, cs_Substatus = SubEmpty,
       cs_UpgradingPartition = 0, cs_Nodes = None, cs_Conditions = []\<rparr>\<rparr>"

lemma config_with_simps [simp]:
  "phase_of (config_with n ph) = ph" "seq_of (config_with n ph) = n"
  "rc_Spec (config_with n ph) = base_spec\<lparr>sp_Sequence := n\<rparr>"
  by (simp_all add: config_with_def seq_of_def)

lemma SelectConfig_correct_witness:
  "SelectConfig [config_with 1 Applied, config_with 2 Superseded, config_with 3 Pending] = (Some 0, Some 2)
   \<and> previous_ok [config_with 1 Applied, config_with 2 Superseded, config_with 3 Pending] (Some 0) 2"
proof -
  let ?cs = "[config_with 1 Applied, config_with 2 Superseded, config_with 3 Pending]"
  have sel: "SelectConfig ?cs = (Some 0, Some 2)"
    by (simp add: SelectConfig_def finished_def lastAppliedBefore_def numeral_2_eq_2)
  show ?thesis
    using SelectConfig_correct [of ?cs] by (simp add: sel distinct_sequences_def)
qed

section \<open>Superseding skips a contiguous run of topology-only configurations\<close>

lemma supersede_chain_spec:
  "supersede_chain configs b cur (Suc cur) res = r \<Longrightarrow> cur < length configs \<Longrightarrow> sr_Selected res = cur \<Longrightarrow>
   (\<forall>i. b = Some i \<longrightarrow> onlyTopologyChange (rc_Spec (configs ! i)) (rc_Spec (configs ! cur))) \<Longrightarrow>
   cur \<le> sr_Selected r \<and> sr_Selected r < length configs
   \<and> sr_Superseded r = sr_Superseded res @ [cur..<sr_Selected r]
   \<and> (\<forall>i. cur < i \<and> i < sr_Selected r \<longrightarrow> sp_SkipIfSuperseded (rc_Spec (configs ! i)))
   \<and> (\<forall>i. cur \<le> i \<and> i \<le> sr_Selected r \<longrightarrow>
        onlyTopologyChange (rc_Spec (configs ! cur)) (rc_Spec (configs ! i)))"
proof (induction configs b cur "Suc cur" res arbitrary: r rule: supersede_chain.induct)
  case (1 configs b cur res)
  let ?n = "Suc cur"
  define res' where "res' = res\<lparr>sr_Superseded := sr_Superseded res @ [cur], sr_Selected := ?n\<rparr>"
  define ok where "ok = onlyTopologyChange
      (rc_Spec (configs ! (case b of Some i \<Rightarrow> i | None \<Rightarrow> cur))) (rc_Spec (configs ! ?n))"
  have step: "supersede_chain configs b cur ?n res =
      (if ?n < length configs \<and> ok then
         (if sp_SkipIfSuperseded (rc_Spec (configs ! ?n)) then supersede_chain configs b ?n (Suc ?n) res' else res')
       else res)"
    by (subst supersede_chain.simps) (auto simp: ok_def res'_def Let_def split: option.splits)
  show ?case
  proof (cases "?n < length configs \<and> ok")
    case False
    then have "supersede_chain configs b cur ?n res = res" unfolding step by (rule if_not_P)
    then have "r = res" using 1(2) by simp
    then show ?thesis using 1(3,4) by (auto simp: onlyTopologyChange_refl le_antisym)
  next
    case True
    have base: "\<forall>i. b = Some i \<longrightarrow> onlyTopologyChange (rc_Spec (configs ! i)) (rc_Spec (configs ! ?n))"
      using True by (auto simp: ok_def)
    have next_same: "onlyTopologyChange (rc_Spec (configs ! cur)) (rc_Spec (configs ! ?n))"
      using True 1(5) by (cases b) (auto simp: ok_def intro: onlyTopologyChange_trans onlyTopologyChange_sym)
    have sel: "sr_Selected res' = ?n" "sr_Superseded res' = sr_Superseded res @ [cur]" by (simp_all add: res'_def)
    show ?thesis
    proof (cases "sp_SkipIfSuperseded (rc_Spec (configs ! ?n))")
      case False
      then have "r = res'" using 1(2) True unfolding step by simp
      then show ?thesis
        using True sel next_same by (auto simp: le_Suc_eq onlyTopologyChange_refl le_antisym)
    next
      case skip: True
      then have r: "supersede_chain configs b ?n (Suc ?n) res' = r" using 1(2) True unfolding step by simp
      have IH: "?n \<le> sr_Selected r \<and> sr_Selected r < length configs
         \<and> sr_Superseded r = sr_Superseded res' @ [?n..<sr_Selected r]
         \<and> (\<forall>i. ?n < i \<and> i < sr_Selected r \<longrightarrow> sp_SkipIfSuperseded (rc_Spec (configs ! i)))
         \<and> (\<forall>i. ?n \<le> i \<and> i \<le> sr_Selected r \<longrightarrow>
              onlyTopologyChange (rc_Spec (configs ! ?n)) (rc_Spec (configs ! i)))"
        by (rule 1(1) [OF _ _ _ res'_def _ r])
          (use True skip sel base in \<open>auto simp: ok_def split: option.splits\<close>)
      have upt: "[cur] @ [?n..<sr_Selected r] = [cur..<sr_Selected r]"
        using IH by (simp add: upt_conv_Cons)
      have skips: "sp_SkipIfSuperseded (rc_Spec (configs ! i))" if "cur < i" "i < sr_Selected r" for i
        using that IH skip by (cases "i = ?n") auto
      have same: "onlyTopologyChange (rc_Spec (configs ! cur)) (rc_Spec (configs ! i))"
        if "cur \<le> i" "i \<le> sr_Selected r" for i
      proof (cases "i = cur")
        case False
        then have "onlyTopologyChange (rc_Spec (configs ! ?n)) (rc_Spec (configs ! i))" using that IH by simp
        then show ?thesis by (rule onlyTopologyChange_trans [OF next_same])
      qed (simp add: onlyTopologyChange_refl)
      show ?thesis using IH sel upt skips same by simp
    qed
  qed
qed


definition skippable :: "int \<Rightarrow> redkey_config" where
  "skippable n = (config_with n Pending)\<lparr>rc_Spec := base_spec\<lparr>sp_Sequence := n,
     sp_SkipIfSuperseded := True, sp_Primaries := 5\<rparr>\<rparr>"


end
