(* ===== verification/Runtime_Config.thy ===== *)
theory Runtime_Config
  imports Config_Model
begin

text \<open>
  Robin's hot-reloadable settings, \<open>config/runtime.go\<close>. Durations are Go's 64-bit nanosecond
  counts. The lock of the Go struct makes each operation atomic, so each is a function on the record.
\<close>

record topology =
  tp_Primaries :: "32 word"
  tp_ReplicasPerPrimary :: "32 word"

record ClusterConfig =
  cc_ConnectionMaxRetries :: int
  cc_ConnectionBackOffSeconds :: int
  cc_ClusterCommandTimeoutSeconds :: int
  cc_ClusterMeetWaitSeconds :: int
  cc_RebalanceTimeoutSeconds :: int

record RuntimeConfig =
  bootstrapReconcilerInterval :: int
  bootstrapReconcilerIntervalError :: int
  bootstrapReconcilerIntervalWait :: int
  reconcilerInterval :: int
  reconcilerIntervalOnError :: int
  reconcilerIntervalOnWait :: int
  metricsInterval :: int
  redisInfoKeys :: "string list"
  metricsLabels :: go_map
  connectionMaxRetries :: int
  connectionBackOffSeconds :: int
  clusterCommandTimeout :: int
  rebalanceTimeout :: int
  clusterMeetWait :: int
  topology_of :: topology
  authSecret :: string
  profilingEnabled :: bool
  standalone :: bool

text \<open>\<open>time.Duration(n) * time.Second\<close>\<close>

definition seconds :: "int \<Rightarrow> int" where
  "seconds n = i64 (n * 1000000000)"

text \<open>\<open>int(d.Seconds())\<close>, exact for the whole seconds every stored duration is.\<close>

definition whole_seconds :: "int \<Rightarrow> int" where
  "whole_seconds d = sgn d * (\<bar>d\<bar> div 1000000000)"

definition DefaultReconcilerIntervalSeconds :: int where "DefaultReconcilerIntervalSeconds = 30"
definition DefaultReconcilerIntervalOnErrorSeconds :: int where "DefaultReconcilerIntervalOnErrorSeconds = 10"
definition DefaultReconcilerIntervalOnWaitSeconds :: int where "DefaultReconcilerIntervalOnWaitSeconds = 10"
definition DefaultMetricsIntervalSeconds :: int where "DefaultMetricsIntervalSeconds = 60"
definition DefaultConnectionMaxRetries :: int where "DefaultConnectionMaxRetries = 10"
definition DefaultConnectionBackOffSeconds :: int where "DefaultConnectionBackOffSeconds = 10"
definition DefaultClusterCommandTimeoutSeconds :: int where "DefaultClusterCommandTimeoutSeconds = 24"
definition DefaultRebalanceTimeoutSeconds :: int where "DefaultRebalanceTimeoutSeconds = 600"
definition DefaultClusterMeetWaitSeconds :: int where "DefaultClusterMeetWaitSeconds = 5"

definition DefaultRedisInfoKeys :: "string list" where
  "DefaultRedisInfoKeys =
     [''keyspace_hits'', ''evicted_keys'', ''connected_clients'', ''total_commands_processed'',
      ''keyspace_misses'', ''expired_keys'', ''redis_version'', ''used_memory_rss'', ''maxmemory'',
      ''used_cpu_sys'', ''used_cpu_sys_children'', ''used_cpu_user'', ''used_cpu_user_children'',
      ''total_net_input_bytes'', ''total_net_output_bytes'', ''aof_base_size'', ''aof_current_size'',
      ''mem_aof_buffer'']"

definition NewRuntimeConfigWithReconcilerIntervals :: "int \<Rightarrow> int \<Rightarrow> int \<Rightarrow> RuntimeConfig" where
  "NewRuntimeConfigWithReconcilerIntervals interval onError onWait =
     \<lparr>bootstrapReconcilerInterval = interval, bootstrapReconcilerIntervalError = onError,
      bootstrapReconcilerIntervalWait = onWait, reconcilerInterval = interval,
      reconcilerIntervalOnError = onError, reconcilerIntervalOnWait = onWait,
      metricsInterval = seconds DefaultMetricsIntervalSeconds, redisInfoKeys = DefaultRedisInfoKeys,
      metricsLabels = None, connectionMaxRetries = DefaultConnectionMaxRetries,
      connectionBackOffSeconds = DefaultConnectionBackOffSeconds,
      clusterCommandTimeout = seconds DefaultClusterCommandTimeoutSeconds,
      rebalanceTimeout = seconds DefaultRebalanceTimeoutSeconds,
      clusterMeetWait = seconds DefaultClusterMeetWaitSeconds,
      topology_of = \<lparr>tp_Primaries = 0, tp_ReplicasPerPrimary = 0\<rparr>, authSecret = [],
      profilingEnabled = False, standalone = False\<rparr>"

definition NewRuntimeConfig :: RuntimeConfig where
  "NewRuntimeConfig =
     NewRuntimeConfigWithReconcilerIntervals (seconds DefaultReconcilerIntervalSeconds)
       (seconds DefaultReconcilerIntervalOnErrorSeconds) (seconds DefaultReconcilerIntervalOnWaitSeconds)"

text \<open>\<open>if p != nil { field = f(*p) }\<close>\<close>

fun assign :: "('a \<Rightarrow> 'b) \<Rightarrow> 'a option \<Rightarrow> 'b \<Rightarrow> 'b" where
  "assign f None old = old"
| "assign f (Some v) old = f v"

definition set_reconciler :: "robin_reconciler option \<Rightarrow> RuntimeConfig \<Rightarrow> RuntimeConfig" where
  "set_reconciler r rc =
     (case r of None \<Rightarrow> rc | Some c \<Rightarrow>
        rc\<lparr>reconcilerInterval :=
             assign seconds (IntervalSeconds c) (reconcilerInterval rc),
           reconcilerIntervalOnError :=
             assign seconds (IntervalOnErrorSeconds c) (reconcilerIntervalOnError rc),
           reconcilerIntervalOnWait :=
             assign seconds (IntervalOnWaitSeconds c) (reconcilerIntervalOnWait rc)\<rparr>)"

definition set_metrics :: "robin_metrics option \<Rightarrow> RuntimeConfig \<Rightarrow> RuntimeConfig" where
  "set_metrics m rc =
     (case m of None \<Rightarrow> rc | Some c \<Rightarrow>
        rc\<lparr>metricsInterval :=
             assign seconds (CollectionIntervalSeconds c) (metricsInterval rc),
           redisInfoKeys := assign (\<lambda>ks. ks) (RedisInfoKeys c) (redisInfoKeys rc),
           metricsLabels := assign Some (MetricsLabels c) (metricsLabels rc)\<rparr>)"

definition set_cluster :: "robin_cluster option \<Rightarrow> RuntimeConfig \<Rightarrow> RuntimeConfig" where
  "set_cluster k rc =
     (case k of None \<Rightarrow> rc | Some c \<Rightarrow>
        rc\<lparr>connectionMaxRetries :=
             assign (\<lambda>n. n) (ConnectionMaxRetries c) (connectionMaxRetries rc),
           connectionBackOffSeconds :=
             assign (\<lambda>n. n) (ConnectionBackOffSeconds c) (connectionBackOffSeconds rc),
           clusterCommandTimeout :=
             assign seconds (ClusterCommandTimeoutSeconds c) (clusterCommandTimeout rc),
           clusterMeetWait :=
             assign seconds (ClusterMeetWaitSeconds c) (clusterMeetWait rc),
           rebalanceTimeout :=
             assign seconds (RebalanceTimeoutSeconds c) (rebalanceTimeout rc)\<rparr>)"

definition SetFromRobinConfig :: "robin_config option \<Rightarrow> RuntimeConfig \<Rightarrow> RuntimeConfig" where
  "SetFromRobinConfig cfg rc =
     (let rc0 = rc\<lparr>reconcilerInterval := bootstrapReconcilerInterval rc,
                   reconcilerIntervalOnError := bootstrapReconcilerIntervalError rc,
                   reconcilerIntervalOnWait := bootstrapReconcilerIntervalWait rc\<rparr>
      in case cfg of
           None \<Rightarrow> rc0
         | Some c \<Rightarrow>
             (set_cluster (rb_Cluster c) (set_metrics (rb_Metrics c) (set_reconciler (rb_Reconciler c) rc0)))
               \<lparr>profilingEnabled := (case rb_Profiling c of Some (Some e) \<Rightarrow> e | _ \<Rightarrow> False)\<rparr>)"

definition RuntimeClusterConfig :: "RuntimeConfig \<Rightarrow> ClusterConfig" where
  "RuntimeClusterConfig rc =
     \<lparr>cc_ConnectionMaxRetries = connectionMaxRetries rc,
      cc_ConnectionBackOffSeconds = connectionBackOffSeconds rc,
      cc_ClusterCommandTimeoutSeconds = whole_seconds (clusterCommandTimeout rc),
      cc_ClusterMeetWaitSeconds = whole_seconds (clusterMeetWait rc),
      cc_RebalanceTimeoutSeconds = whole_seconds (rebalanceTimeout rc)\<rparr>"

definition SetTopology :: "32 word \<Rightarrow> 32 word \<Rightarrow> RuntimeConfig \<Rightarrow> RuntimeConfig" where
  "SetTopology p r rc = rc\<lparr>topology_of := \<lparr>tp_Primaries = p, tp_ReplicasPerPrimary = r\<rparr>\<rparr>"

definition SetAuthSecret :: "string \<Rightarrow> RuntimeConfig \<Rightarrow> RuntimeConfig" where
  "SetAuthSecret name rc = rc\<lparr>authSecret := name\<rparr>"

definition SetStandalone :: "bool \<Rightarrow> RuntimeConfig \<Rightarrow> RuntimeConfig" where
  "SetStandalone b rc = rc\<lparr>standalone := b\<rparr>"

section \<open>Properties\<close>

definition wait_interval :: "(robin_reconciler \<Rightarrow> int option) \<Rightarrow> robin_config option \<Rightarrow> int \<Rightarrow> int" where
  "wait_interval field cfg bootstrap =
     (case cfg of None \<Rightarrow> bootstrap | Some c \<Rightarrow>
        (case rb_Reconciler c of None \<Rightarrow> bootstrap | Some r \<Rightarrow>
           assign seconds (field r) bootstrap))"

lemmas set_parts = set_reconciler_def set_metrics_def set_cluster_def

lemma set_parts_bootstrap [simp]:
  "reconcilerInterval (set_cluster k (set_metrics m rc)) = reconcilerInterval rc"
  "reconcilerIntervalOnError (set_cluster k (set_metrics m rc)) = reconcilerIntervalOnError rc"
  "reconcilerIntervalOnWait (set_cluster k (set_metrics m rc)) = reconcilerIntervalOnWait rc"
  by (auto simp: set_parts split: option.splits)

lemma assign_twice [simp]: "assign f p (assign f p v) = assign f p v"
  by (cases p) simp_all

lemma reload_idempotent: "SetFromRobinConfig cfg (SetFromRobinConfig cfg rc) = SetFromRobinConfig cfg rc"
proof (cases cfg)
  case (Some c)
  show ?thesis
    by (cases "rb_Reconciler c"; cases "rb_Metrics c"; cases "rb_Cluster c")
      (simp_all add: Some SetFromRobinConfig_def Let_def set_parts)
qed (simp add: SetFromRobinConfig_def Let_def)

text \<open>The reconciliation intervals in force are a function of the current resource and the
  bootstrap defaults alone, whatever earlier configurations had set; and applying the same
  configuration again (as every reconciliation cycle does) changes nothing.\<close>

lemma runtime_reload:
  "reconcilerInterval (SetFromRobinConfig cfg rc) = wait_interval IntervalSeconds cfg (bootstrapReconcilerInterval rc)
   \<and> reconcilerIntervalOnError (SetFromRobinConfig cfg rc)
       = wait_interval IntervalOnErrorSeconds cfg (bootstrapReconcilerIntervalError rc)
   \<and> reconcilerIntervalOnWait (SetFromRobinConfig cfg rc)
       = wait_interval IntervalOnWaitSeconds cfg (bootstrapReconcilerIntervalWait rc)
   \<and> SetFromRobinConfig cfg (SetFromRobinConfig cfg rc) = SetFromRobinConfig cfg rc"
proof (intro conjI)
  show "SetFromRobinConfig cfg (SetFromRobinConfig cfg rc) = SetFromRobinConfig cfg rc"
    by (rule reload_idempotent)
qed (cases cfg; cases "rb_Reconciler (the cfg)";
    simp add: SetFromRobinConfig_def Let_def wait_interval_def set_reconciler_def)+

text \<open>Removing the Robin section of the resource resets only the three intervals: profiling
  stays on, and the metrics and cluster settings keep the values of the previous resource, while an
  empty section switches profiling off.\<close>

lemma runtime_nil_config_sticky:
  "profilingEnabled (SetFromRobinConfig None rc) = profilingEnabled rc
   \<and> metricsInterval (SetFromRobinConfig None rc) = metricsInterval rc
   \<and> connectionMaxRetries (SetFromRobinConfig None rc) = connectionMaxRetries rc
   \<and> rebalanceTimeout (SetFromRobinConfig None rc) = rebalanceTimeout rc
   \<and> \<not> profilingEnabled (SetFromRobinConfig
        (Some \<lparr>rb_Reconciler = None, rb_Cluster = None, rb_Metrics = None, rb_Profiling = None\<rparr>) rc)"
  by (simp add: SetFromRobinConfig_def Let_def)

end
