(* ===== verification/K8s_Objects.thy ===== *)
theory K8s_Objects
  imports Config_Model
begin

text \<open>
  The Kubernetes objects Robin manages and how it builds them: the builders and pure helpers of
  \<open>kubernetes/objects.go\<close> and the override guard rails of \<open>kubernetes/overrides.go\<close>.

  Third-party code is a parameter: \<open>is_standalone\<close> (the \<open>IsStandalone\<close> method of the operator's
  API type), the strategic merge patch of apimachinery, \<open>quantity_ok\<close> (whether
  \<open>resource.MustParse\<close> accepts a text; it panics otherwise) and the SHA-256 digest. Fields of the
  Kubernetes types the code neither sets nor reads are in the opaque components.
\<close>

section \<open>Object types\<close>

record container =
  ct_Name :: string
  ct_Image :: string
  ct_Ports :: "(string \<times> int) list"
  ct_Command :: "string list"
  ct_LivenessProbe :: "(int \<times> int \<times> int) option"
  ct_ReadinessProbe :: "(int \<times> int \<times> int) option"
  ct_VolumeMounts :: "(string \<times> string) list"
  ct_Resources :: "string option"
  ct_Rest :: string

record volume =
  vol_Name :: string
  vol_Source :: string

record volume_claim =
  vc_Name :: string
  vc_AccessModes :: "string list"
  vc_Storage :: string
  vc_StorageClassName :: "string option"

datatype update_strategy =
    DefaultStrategy
  | OnDelete
  | RollingUpdate "32 word option"

datatype retention = Retain | DeleteRetention

record pod_template =
  pd_Labels :: go_map
  pd_Annotations :: go_map
  pd_Containers :: "container list"
  pd_Volumes :: "volume list"
  pd_Rest :: string

record statefulset =
  ss_Name :: string
  ss_Labels :: go_map
  ss_Annotations :: go_map
  ss_Generation :: int
  ss_Replicas :: "32 word option"
  ss_PodManagementPolicy :: string
  ss_ServiceName :: string
  ss_Selector :: go_map
  ss_Template :: pod_template
  ss_VolumeClaimTemplates :: "volume_claim list"
  ss_Retention :: "(retention \<times> retention) option"
  ss_UpdateStrategy :: update_strategy
  ss_SpecRest :: string
  ss_ReadyReplicas :: "32 word"
  ss_UpdateRevision :: string
  ss_ObservedGeneration :: int

record config_map =
  cm_Labels :: go_map
  cm_Annotations :: go_map
  cm_Data :: go_map

record service_port =
  sv_PortName :: string
  sv_Port :: int
  sv_TargetPort :: int

record service =
  sv_Labels :: go_map
  sv_Annotations :: go_map
  sv_ResourceVersion :: string
  sv_Ports :: "service_port list"
  sv_Selector :: go_map
  sv_ClusterIP :: string
  sv_ClusterIPs :: "string list"
  sv_Type :: string
  sv_PublishNotReadyAddresses :: bool
  sv_Rest :: string

record pdb =
  pb_Labels :: go_map
  pb_Annotations :: go_map
  pb_Selector :: go_map
  pb_MinAvailable :: "string option"
  pb_MaxUnavailable :: "string option"

record pod =
  po_Name :: string
  po_PodIP :: string
  po_PodLabels :: go_map
  po_Ready :: bool
  po_Images :: "string list"

section \<open>objects.go: metadata\<close>

definition ClusterLabel :: string where "ClusterLabel = ''redkey.inditex.dev/cluster''"
definition ComponentLabel :: string where "ComponentLabel = ''redkey.inditex.dev/component''"
definition ComponentRedis :: string where "ComponentRedis = ''redis''"
definition RedisPort :: int where "RedisPort = 6379"
definition RedisGossipPort :: int where "RedisGossipPort = 16379"
definition defaultRedisImage :: string where "defaultRedisImage = ''redis:8''"
definition SecretPasswordKey :: string where "SecretPasswordKey = ''password''"
definition ConfigChecksumAnnotation :: string where
  "ConfigChecksumAnnotation = ''redkey.inditex.dev/config-checksum''"
definition PodTemplateHashLabel :: string where "PodTemplateHashLabel = ''controller-revision-hash''"

definition clusterLabels :: "string \<Rightarrow> go_map" where
  "clusterLabels clusterName = Some [ClusterLabel \<mapsto> clusterName, ComponentLabel \<mapsto> ComponentRedis]"

definition derefMap :: "go_map option \<Rightarrow> go_map" where
  "derefMap m = (case m of None \<Rightarrow> None | Some mp \<Rightarrow> mp)"

definition entries :: "go_map \<Rightarrow> (string \<rightharpoonup> string)" where
  "entries m = (case m of None \<Rightarrow> Map.empty | Some mp \<Rightarrow> mp)"

text \<open>\<open>maps.Copy(out, src)\<close> is \<open>out ++ src\<close>.\<close>

definition mergeMeta :: "go_map \<Rightarrow> go_map \<Rightarrow> go_map \<Rightarrow> go_map" where
  "mergeMeta spec override base =
     (let out = (if entries override \<noteq> Map.empty then entries override else entries spec) ++ entries base
      in if out = Map.empty then None else Some out)"

section \<open>objects.go: redis.conf\<close>

definition clusterDefaults :: "string list" where
  "clusterDefaults =
     [''cluster-enabled yes'', ''cluster-node-timeout 5000'', ''cluster-require-full-coverage no'',
      ''cluster-allow-reads-when-down yes'', ''cluster-allow-replica-migration no'']"

definition standaloneDefaults :: "string list" where
  "standaloneDefaults = [''cluster-enabled no'']"

definition redis_conf_lines :: "string \<Rightarrow> string \<Rightarrow> bool \<Rightarrow> bool \<Rightarrow> string list" where
  "redis_conf_lines userConfig password ephemeral isStandalone =
     (let dataDir = (if ephemeral then ''/tmp'' else ''/data'')
      in [''dir '' @ dataDir]
         @ (if isStandalone then standaloneDefaults
            else clusterDefaults @ [''cluster-config-file '' @ dataDir @ ''/nodes.conf''])
         @ (if ephemeral then [''appendonly no'', ''save '' @ [CHR 0x22, CHR 0x22]] else [''appendonly yes''])
         @ (if userConfig \<noteq> [] then [userConfig] else [])
         @ (if password \<noteq> [] then [''requirepass '' @ password, ''masterauth '' @ password] else []))"

definition buildRedisConf :: "string \<Rightarrow> string \<Rightarrow> bool \<Rightarrow> 32 word \<Rightarrow> bool \<Rightarrow> string" where
  "buildRedisConf userConfig password ephemeral replicasPerPrimary isStandalone =
     Join (redis_conf_lines userConfig password ephemeral isStandalone) [newline] @ [newline]"

fun require_pass_line :: "string list \<Rightarrow> string" where
  "require_pass_line [] = []"
| "require_pass_line (line0 # rest) =
     (let line = TrimSpace line0
      in if HasPrefix line ''requirepass '' then TrimSpace (drop (length ''requirepass '') line)
         else require_pass_line rest)"

definition parseRequirePass :: "string \<Rightarrow> string" where
  "parseRequirePass redisConf = require_pass_line (Split newline redisConf)"

definition ComputeConfigChecksum :: "(string \<Rightarrow> string) \<Rightarrow> string \<Rightarrow> string \<Rightarrow> string \<Rightarrow> string" where
  "ComputeConfigChecksum sha256_hex img version redisConfig =
     take 16 (sha256_hex (img @ [CHR 0x00] @ version @ [CHR 0x00] @ redisConfig))"

section \<open>objects.go: builders\<close>

definition buildConfigMap :: "(config_spec \<Rightarrow> bool) \<Rightarrow> string \<Rightarrow> config_spec \<Rightarrow> string \<Rightarrow> config_map" where
  "buildConfigMap is_standalone clusterName sp password =
     \<lparr>cm_Labels = mergeMeta (derefMap (sp_Labels sp)) None (clusterLabels clusterName),
      cm_Annotations = mergeMeta (derefMap (sp_Annotations sp)) None None,
      cm_Data = Some [''redis.conf'' \<mapsto>
        buildRedisConf (sp_RedisConfig sp) password (sp_Ephemeral sp) (sp_ReplicasPerPrimary sp) (is_standalone sp)]\<rparr>"

definition buildService :: "string \<Rightarrow> config_spec \<Rightarrow> service" where
  "buildService clusterName sp =
     \<lparr>sv_Labels = mergeMeta (derefMap (sp_Labels sp)) None (clusterLabels clusterName),
      sv_Annotations = mergeMeta (derefMap (sp_Annotations sp)) None None,
      sv_ResourceVersion = [],
      sv_Ports = [\<lparr>sv_PortName = ''client'', sv_Port = RedisPort, sv_TargetPort = RedisPort\<rparr>,
                  \<lparr>sv_PortName = ''gossip'', sv_Port = RedisGossipPort, sv_TargetPort = RedisGossipPort\<rparr>],
      sv_Selector = clusterLabels clusterName, sv_ClusterIP = ''None'', sv_ClusterIPs = [],
      sv_Type = [], sv_PublishNotReadyAddresses = True, sv_Rest = []\<rparr>"

definition serviceNeedsUpdate :: "service \<Rightarrow> service \<Rightarrow> bool" where
  "serviceNeedsUpdate existing desired =
     (sv_Ports existing \<noteq> sv_Ports desired \<or> sv_Type existing \<noteq> sv_Type desired
      \<or> sv_PublishNotReadyAddresses existing \<noteq> sv_PublishNotReadyAddresses desired
      \<or> sv_Labels existing \<noteq> sv_Labels desired \<or> sv_Annotations existing \<noteq> sv_Annotations desired)"

definition createProbe :: "int \<Rightarrow> int \<Rightarrow> int \<times> int \<times> int" where
  "createProbe initial period = (RedisPort, initial, period)"

text \<open>\<open>int32(p + (p * r))\<close>, in 32-bit arithmetic.\<close>

definition total_replicas32 :: "config_spec \<Rightarrow> 32 word" where
  "total_replicas32 sp = sp_Primaries sp + sp_Primaries sp * sp_ReplicasPerPrimary sp"

text \<open>\<open>addStorage\<close> parses the storage size with \<open>MustParse\<close>: \<open>None\<close> is its panic.\<close>

definition addStorage ::
  "(string \<Rightarrow> bool) \<Rightarrow> string list \<Rightarrow> config_spec \<Rightarrow> statefulset \<Rightarrow> statefulset option" where
  "addStorage quantity_ok ownerAccessModes sp sts =
     (let accessModes = (if ownerAccessModes = [] then [''ReadWriteOnce''] else ownerAccessModes)
      in if \<not> quantity_ok (sp_Storage sp) then None
         else
           let pvc = \<lparr>vc_Name = ''data'', vc_AccessModes = accessModes, vc_Storage = sp_Storage sp,
                      vc_StorageClassName =
                        (if sp_StorageClassName sp \<noteq> [] then Some (sp_StorageClassName sp) else None)\<rparr>;
               ret = (if sp_DeletePVC sp = Some True then DeleteRetention else Retain);
               tmpl = ss_Template sts
           in case pd_Containers tmpl of
                [] \<Rightarrow> None
              | c # cs \<Rightarrow> Some (sts\<lparr>ss_VolumeClaimTemplates := [pvc], ss_Retention := Some (ret, ret),
                     ss_Template := tmpl\<lparr>pd_Containers :=
                       c\<lparr>ct_VolumeMounts := ct_VolumeMounts c @ [(''data'', ''/data'')]\<rparr> # cs\<rparr>\<rparr>))"

definition buildStatefulSet ::
  "(string \<Rightarrow> bool) \<Rightarrow> string list \<Rightarrow> string \<Rightarrow> config_spec \<Rightarrow> statefulset option" where
  "buildStatefulSet quantity_ok ownerAccessModes clusterName sp =
     (let img = (if sp_Image sp = [] then defaultRedisImage else sp_Image sp);
          specLabels = derefMap (sp_Labels sp); specAnnotations = derefMap (sp_Annotations sp);
          redis = \<lparr>ct_Name = ''redis'', ct_Image = img,
                   ct_Ports = [(''client'', RedisPort), (''gossip'', RedisGossipPort)],
                   ct_Command = [''redis-server'', ''/conf/redis.conf''],
                   ct_LivenessProbe = Some (createProbe 15 5), ct_ReadinessProbe = Some (createProbe 10 5),
                   ct_VolumeMounts = [(''config'', ''/conf'')], ct_Resources = sp_Resources sp, ct_Rest = []\<rparr>;
          sts = \<lparr>ss_Name = clusterName,
                 ss_Labels = mergeMeta specLabels None (clusterLabels clusterName),
                 ss_Annotations = mergeMeta specAnnotations None None,
                 ss_Generation = 0, ss_Replicas = Some (total_replicas32 sp),
                 ss_PodManagementPolicy = ''Parallel'', ss_ServiceName = clusterName,
                 ss_Selector = clusterLabels clusterName,
                 ss_Template = \<lparr>pd_Labels = mergeMeta specLabels None (clusterLabels clusterName),
                    pd_Annotations = mergeMeta specAnnotations None None, pd_Containers = [redis],
                    pd_Volumes = [\<lparr>vol_Name = ''config'', vol_Source = clusterName\<rparr>], pd_Rest = []\<rparr>,
                 ss_VolumeClaimTemplates = [], ss_Retention = None, ss_UpdateStrategy = DefaultStrategy,
                 ss_SpecRest = [], ss_ReadyReplicas = 0, ss_UpdateRevision = [], ss_ObservedGeneration = 0\<rparr>
      in if \<not> sp_Ephemeral sp then addStorage quantity_ok ownerAccessModes sp sts else Some sts)"

definition buildPDB :: "string \<Rightarrow> config_spec \<Rightarrow> pdb" where
  "buildPDB clusterName sp =
     (let avail = pdb_SizeAvailable (sp_Pdb sp); unavail = pdb_SizeUnavailable (sp_Pdb sp);
          useAvail = (avail \<noteq> ''0'' \<and> avail \<noteq> []);
          useUnavail = (\<not> useAvail \<and> unavail \<noteq> ''0'' \<and> unavail \<noteq> [])
      in \<lparr>pb_Labels = mergeMeta (derefMap (sp_Labels sp)) None (clusterLabels clusterName),
          pb_Annotations = mergeMeta (derefMap (sp_Annotations sp)) None None,
          pb_Selector = clusterLabels clusterName,
          pb_MinAvailable = (if useAvail then Some avail else None),
          pb_MaxUnavailable = (if useUnavail then Some unavail else None)\<rparr>)"

section \<open>overrides.go\<close>

definition requiredVolumeNames :: "string list" where "requiredVolumeNames = [''config'', ''data'']"
definition requiredServicePortNames :: "string list" where "requiredServicePortNames = [''client'', ''gossip'']"

text \<open>The swap \<open>cs[0], cs[i] = cs[i], cs[0]\<close> updates the shared backing array in place.\<close>

definition restoreRedisContainer :: "container list \<Rightarrow> container list \<Rightarrow> container list" where
  "restoreRedisContainer containers baseContainers =
     (case find_index (\<lambda>c. ct_Name c = ''redis'') containers of
        None \<Rightarrow> (case baseContainers of [] \<Rightarrow> containers | b # _ \<Rightarrow> b # containers)
      | Some i \<Rightarrow> if i \<noteq> 0 then containers[0 := containers ! i, i := containers ! 0] else containers)"

text \<open>One loop serves the volumes and the service ports: append each required base element whose name
  the result lacks.\<close>

fun restore_required :: "('a \<Rightarrow> string) \<Rightarrow> string list \<Rightarrow> 'a list \<Rightarrow> 'a list \<Rightarrow> 'a list" where
  "restore_required name required result [] = result"
| "restore_required name required result (v # base) =
     (if name v \<notin> set required then restore_required name required result base
      else if list_ex (\<lambda>w. name w = name v) result then restore_required name required result base
      else restore_required name required (result @ [v]) base)"

definition restoreRequiredVolumes :: "volume list \<Rightarrow> volume list \<Rightarrow> volume list" where
  "restoreRequiredVolumes result baseVolumes = restore_required vol_Name requiredVolumeNames result baseVolumes"

definition restoreRequiredPorts :: "service_port list \<Rightarrow> service_port list \<Rightarrow> service_port list" where
  "restoreRequiredPorts result basePorts = restore_required sv_PortName requiredServicePortNames result basePorts"

definition applyStatefulSetOverride ::
  "(statefulset \<Rightarrow> partial_sts \<Rightarrow> string + statefulset) \<Rightarrow> statefulset \<Rightarrow> partial_sts option \<Rightarrow> string
   \<Rightarrow> go_map \<Rightarrow> go_map \<Rightarrow> string + statefulset" where
  "applyStatefulSetOverride merge base ov clusterName specLabels specAnnotations =
     (case ov of None \<Rightarrow> Inr base | Some override \<Rightarrow>
        case merge base override of
          Inl e \<Rightarrow> Inl (wrap ''applying StatefulSet override'' e)
        | Inr result \<Rightarrow>
            let tmpl = ss_Template result;
                tpl = Option.bind (po_Spec override) ps_Template;
                tplLabels = (case tpl of None \<Rightarrow> None | Some t \<Rightarrow> pt_Labels t);
                tplAnnotations = (case tpl of None \<Rightarrow> None | Some t \<Rightarrow> pt_Annotations t);
                ownVCT = (case po_Spec override of None \<Rightarrow> False | Some s \<Rightarrow> ps_VolumeClaimTemplates s \<noteq> [])
            in Inr (result\<lparr>ss_Replicas := ss_Replicas base, ss_ServiceName := ss_ServiceName base,
                    ss_Selector := ss_Selector base,
                    ss_VolumeClaimTemplates :=
                      (if ownVCT then ss_VolumeClaimTemplates result else ss_VolumeClaimTemplates base),
                    ss_Labels := mergeMeta specLabels (po_Labels override) (clusterLabels clusterName),
                    ss_Annotations := mergeMeta specAnnotations (po_Annotations override) None,
                    ss_Template := tmpl\<lparr>
                      pd_Containers := restoreRedisContainer (pd_Containers tmpl) (pd_Containers (ss_Template base)),
                      pd_Volumes := restoreRequiredVolumes (pd_Volumes tmpl) (pd_Volumes (ss_Template base)),
                      pd_Labels := mergeMeta specLabels tplLabels (clusterLabels clusterName),
                      pd_Annotations := mergeMeta specAnnotations tplAnnotations None\<rparr>\<rparr>))"

definition applyServiceOverride ::
  "(service \<Rightarrow> partial_service \<Rightarrow> string + service) \<Rightarrow> service \<Rightarrow> partial_service option \<Rightarrow> string
   \<Rightarrow> go_map \<Rightarrow> go_map \<Rightarrow> string + service" where
  "applyServiceOverride merge base ov clusterName specLabels specAnnotations =
     (case ov of None \<Rightarrow> Inr base | Some override \<Rightarrow>
        case merge base override of
          Inl e \<Rightarrow> Inl (wrap ''applying Service override'' e)
        | Inr result \<Rightarrow>
            Inr (result\<lparr>sv_ClusterIP := sv_ClusterIP base, sv_Selector := sv_Selector base,
                 sv_Ports := restoreRequiredPorts (sv_Ports result) (sv_Ports base),
                 sv_Labels := mergeMeta specLabels (pv_Labels override) (clusterLabels clusterName),
                 sv_Annotations := mergeMeta specAnnotations (pv_Annotations override) None\<rparr>))"

section \<open>Metadata and override guard rails\<close>

lemma mergeMeta_base: "entries base k = Some v \<Longrightarrow> entries (mergeMeta spec override base) k = Some v"
  by (auto simp: mergeMeta_def Let_def entries_def map_add_Some_iff split: if_splits)

lemma mergeMeta_cluster [simp]:
  "entries (mergeMeta spec override (clusterLabels n)) ClusterLabel = Some n"
  "entries (mergeMeta spec override (clusterLabels n)) ComponentLabel = Some ComponentRedis"
  by (rule mergeMeta_base; simp add: entries_def clusterLabels_def ClusterLabel_def ComponentLabel_def)+

lemma restoreRedisContainer_head:
  assumes "base \<noteq> []" and "ct_Name (hd base) = ''redis''"
  shows "restoreRedisContainer cs base \<noteq> [] \<and> ct_Name (hd (restoreRedisContainer cs base)) = ''redis''"
proof (cases "find_index (\<lambda>c. ct_Name c = ''redis'') cs")
  case None
  then show ?thesis using assms by (cases base) (simp_all add: restoreRedisContainer_def)
next
  case (Some i)
  from find_index_Some [OF this] have i: "i < length cs" "ct_Name (cs ! i) = ''redis''" by simp_all
  then show ?thesis
    using Some by (cases cs; cases i) (simp_all add: restoreRedisContainer_def)
qed

lemma restore_required_keeps: "set result \<subseteq> set (restore_required name required result base)"
  by (induction name required result base rule: restore_required.induct) auto

lemma restore_required_present:
  "v \<in> set base \<Longrightarrow> name v \<in> set required \<Longrightarrow>
   \<exists>w\<in>set (restore_required name required result base). name w = name v"
proof (induction name required result base rule: restore_required.induct)
  case (2 name required result u base)
  show ?case
  proof (cases "v = u")
    case True
    show ?thesis
    proof (cases "list_ex (\<lambda>w. name w = name u) result")
      case True
      then show ?thesis
        using 2(5) \<open>v = u\<close> restore_required_keeps [of result name required base] by (auto simp: list_ex_iff)
    next
      case False
      then show ?thesis
        using 2(5) \<open>v = u\<close> restore_required_keeps [of "result @ [u]" name required base] by auto
    qed
  next
    case False
    then show ?thesis using 2 by auto
  qed
qed simp

lemma buildStatefulSet_shape:
  assumes "buildStatefulSet q modes n sp = Some base"
  shows "pd_Containers (ss_Template base) \<noteq> []" "ct_Name (hd (pd_Containers (ss_Template base))) = ''redis''"
    "''config'' \<in> vol_Name ` set (pd_Volumes (ss_Template base))"
    "ss_Selector base = clusterLabels n" "ss_ServiceName base = n" "ss_Replicas base = Some (total_replicas32 sp)"
  using assms by (auto simp: buildStatefulSet_def addStorage_def Let_def split: if_splits)

text \<open>C27: no override can break the identity of the cluster: whatever the strategic merge returns, the
  StatefulSet Robin applies has the computed replica count, the headless service name, the cluster
  selector, the redis container first, the configuration volume, and the internal cluster label on the
  object and on its pods.\<close>

theorem statefulset_override_guard_rails:
  assumes "buildStatefulSet quantity_ok modes n sp = Some base"
    and "applyStatefulSetOverride merge base ov n specLabels specAnnotations = Inr r"
    and "ov \<noteq> None"
  shows "ss_Replicas r = Some (total_replicas32 sp) \<and> ss_ServiceName r = n \<and> ss_Selector r = clusterLabels n
    \<and> pd_Containers (ss_Template r) \<noteq> [] \<and> ct_Name (hd (pd_Containers (ss_Template r))) = ''redis''
    \<and> ''config'' \<in> vol_Name ` set (pd_Volumes (ss_Template r))
    \<and> entries (ss_Labels r) ClusterLabel = Some n \<and> entries (pd_Labels (ss_Template r)) ClusterLabel = Some n"
proof -
  note base = buildStatefulSet_shape [OF assms(1)]
  obtain u m where u: "ov = Some u" "merge base u = Inr m"
    using assms(2,3) by (cases ov; cases "merge base (the ov)") (auto simp: applyStatefulSetOverride_def)
  obtain v where v: "v \<in> set (pd_Volumes (ss_Template base))" "vol_Name v = ''config''" using base(3) by auto
  have vol: "''config'' \<in> vol_Name ` set (restoreRequiredVolumes ws (pd_Volumes (ss_Template base)))" for ws
    using restore_required_present [OF v(1), of vol_Name requiredVolumeNames ws] v(2)
    by (force simp: restoreRequiredVolumes_def requiredVolumeNames_def)
  show ?thesis
    using assms(2) u base(4,5,6) restoreRedisContainer_head [OF base(1,2)] vol
    by (auto simp: applyStatefulSetOverride_def Let_def)
qed

definition keep_merge :: "statefulset \<Rightarrow> partial_sts \<Rightarrow> string + statefulset" where
  "keep_merge base override = Inr (base\<lparr>ss_Template := (ss_Template base)\<lparr>pd_Containers := [], pd_Volumes := []\<rparr>\<rparr>)"

lemma statefulset_override_guard_rails_witness:
  "case applyStatefulSetOverride keep_merge (the (buildStatefulSet (\<lambda>_. True) [] ''rk'' base_spec))
      (Some \<lparr>po_Labels = None, po_Annotations = None, po_Spec = None\<rparr>) ''rk'' None None of
     Inl e \<Rightarrow> False | Inr r \<Rightarrow> ct_Name (hd (pd_Containers (ss_Template r))) = ''redis''"
proof -
  let ?ov = "Some \<lparr>po_Labels = None, po_Annotations = None, po_Spec = None\<rparr>"
  obtain base where b: "buildStatefulSet (\<lambda>_. True) [] ''rk'' base_spec = Some base"
    by (simp add: buildStatefulSet_def Let_def base_spec_def)
  obtain r where r: "applyStatefulSetOverride keep_merge base ?ov ''rk'' None None = Inr r"
    by (simp add: applyStatefulSetOverride_def keep_merge_def Let_def)
  show ?thesis using statefulset_override_guard_rails [OF b r] r b by simp
qed

section \<open>The password in redis.conf\<close>

definition plain_word :: "string \<Rightarrow> bool" where
  "plain_word w = (w \<noteq> [] \<and> list_all (\<lambda>c. \<not> is_space c) w)"

lemma plain_word_trim: "plain_word w \<Longrightarrow> TrimSpace w = w"
  using hd_in_set [of w] last_in_set [of w] unfolding plain_word_def list_all_iff
  by (intro TrimSpace_id) auto

lemma require_pass_append:
  "list_all (\<lambda>l. \<not> HasPrefix (TrimSpace l) ''requirepass '') ls \<Longrightarrow>
   require_pass_line (ls @ ms) = require_pass_line ms"
  by (induction ls) (simp_all add: Let_def)

lemma TrimSpace_prefix_word:
  assumes "plain_word w" and "plain_word (a @ [c])"
  shows "TrimSpace (a @ [c] @ [CHR '' ''] @ w) = a @ [c] @ [CHR '' ''] @ w"
proof (rule TrimSpace_id)
  show "\<not> is_space (hd (a @ [c] @ [CHR '' ''] @ w))"
    using assms(2) by (cases a) (simp_all add: plain_word_def)
  show "\<not> is_space (last (a @ [c] @ [CHR '' ''] @ w))"
    using assms(1) last_in_set [of w] by (auto simp: plain_word_def list_all_iff)
qed simp

lemma require_pass_here:
  assumes "plain_word w"
  shows "require_pass_line ((''requirepass '' @ w) # ls) = w"
proof -
  have "plain_word (''requirepas'' @ [CHR ''s''])" by (simp add: plain_word_def is_space_def)
  from TrimSpace_prefix_word [OF assms this]
  have "TrimSpace (''requirepass '' @ w) = ''requirepass '' @ w" by simp
  then show ?thesis using plain_word_trim [OF assms] by (simp add: HasPrefix_def)
qed

lemma Split_append: "Split sep (a @ sep # b) = Split sep a @ Split sep b"
proof (induction a)
  case (Cons c a)
  then show ?case by (cases "Split sep a") auto
qed simp

lemma Split_Join_newline:
  "ls \<noteq> [] \<Longrightarrow> Split newline (Join ls [newline] @ [newline]) = concat (map (Split newline) ls) @ [[]]"
proof (induction ls "[newline]" rule: Join.induct)
  case (2 x)
  then show ?case using Split_append [of newline x "[]"] by simp
next
  case (3 x y zs)
  then show ?case
    using Split_append [of newline x "Join (y # zs) [newline] @ [newline]"] by simp
qed simp

definition no_requirepass :: "string \<Rightarrow> bool" where
  "no_requirepass text = list_all (\<lambda>l. \<not> HasPrefix (TrimSpace l) ''requirepass '') (Split newline text)"

lemmas redis_conf_defs = redis_conf_lines_def clusterDefaults_def standaloneDefaults_def Let_def

lemma conf_head_no_requirepass:
  "list_all no_requirepass (redis_conf_lines [] [] ephemeral isStandalone)"
  by (cases ephemeral; cases isStandalone)
    (simp_all add: redis_conf_defs no_requirepass_def HasPrefix_def TrimSpace_def is_space_def)

lemma parse_conf:
  "parseRequirePass (buildRedisConf user pw ephemeral r isStandalone) =
   require_pass_line ((if user \<noteq> [] then Split newline user else [])
     @ (if pw \<noteq> [] then Split newline (''requirepass '' @ pw) @ Split newline (''masterauth '' @ pw) else []) @ [[]])"
proof -
  let ?head = "redis_conf_lines [] [] ephemeral isStandalone"
  have ls: "redis_conf_lines user pw ephemeral isStandalone = ?head @ (if user \<noteq> [] then [user] else [])
     @ (if pw \<noteq> [] then [''requirepass '' @ pw, ''masterauth '' @ pw] else [])"
    by (simp add: redis_conf_lines_def Let_def)
  have ne: "redis_conf_lines user pw ephemeral isStandalone \<noteq> []" by (simp add: redis_conf_lines_def Let_def)
  have head: "list_all (\<lambda>l. \<not> HasPrefix (TrimSpace l) ''requirepass '') (concat (map (Split newline) ?head))"
    using conf_head_no_requirepass [of ephemeral isStandalone] by (simp add: no_requirepass_def list_all_iff)
  have "Split newline (Join (redis_conf_lines user pw ephemeral isStandalone) [newline] @ [newline]) =
      concat (map (Split newline) ?head) @ ((if user \<noteq> [] then Split newline user else [])
       @ (if pw \<noteq> [] then Split newline (''requirepass '' @ pw) @ Split newline (''masterauth '' @ pw) else []) @ [[]])"
    unfolding Split_Join_newline [OF ne] unfolding ls by (cases "user = []"; cases "pw = []") simp_all
  then show ?thesis
    unfolding parseRequirePass_def buildRedisConf_def
    by (simp only: require_pass_append [OF head])
qed

lemma plain_word_no_newline: "plain_word w \<Longrightarrow> newline \<notin> set w"
  by (auto simp: plain_word_def list_all_iff is_space_def)

lemma Split_requirepass: "plain_word w \<Longrightarrow> Split newline (''requirepass '' @ w) = [''requirepass '' @ w]"
  using plain_word_no_newline [of w] by (intro Split_no_sep) auto



text \<open>C40: a requirepass directive in the user's own configuration precedes Robin's, and is what the
  ConfigMap is taken to hold, whatever password the secret has: the comparison that detects a rotated
  secret then differs on every cycle.\<close>

theorem user_requirepass_shadows:
  assumes "plain_word x" and "plain_word pw" and "x \<noteq> pw"
  shows "parseRequirePass (buildRedisConf (''requirepass '' @ x) pw ephemeral r isStandalone) = x"
  unfolding parse_conf Split_requirepass [OF assms(1)]
  using require_pass_here [OF assms(1)] by simp

lemma user_requirepass_shadows_witness:
  "parseRequirePass (buildRedisConf ''requirepass old'' ''new'' True 0 False) = ''old''"
  using user_requirepass_shadows [of "''old''" "''new''" True 0 False] by (simp add: plain_word_def is_space_def)

end
