(* ===== verification/World.thy ===== *)
theory World
  imports Health_Checks Runtime_Config K8s_Objects
begin

text \<open>
  What Robin acts on. Everything outside the process - the Redis servers, \<open>redis-cli\<close>, the Kubernetes
  API, the clock and the cancellation of a context - answers through the environment \<open>env\<close>: a record
  of functions from the history of all interactions so far (and the request) to the answer. As the
  history determines nothing, this admits every behaviour of the environment, including answers that
  change between two identical requests.

  The state \<open>st\<close> of the process is the history, the configuration the cycle works on (the object the
  handlers receive as a pointer and change in memory before they write its status), the runtime
  configuration and the fields of the health reconciler and its checker. Requests are for one cluster
  in one namespace, which are constants of the environment.

  Logging and the closing of connections have no effect on the state and are not modelled.
\<close>

section \<open>Requests, answers, history\<close>

datatype redis_cmd =
    Ping
  | Meet string int
  | AddSlots "int list"
  | Replicate string
  | Reset bool
  | Takeover
  | Forget string
  | SetSlotStable int
  | SetSlotNode int string
  | ShutdownSave
  | FlushAll
  | Save
  | ConfigSet string string

datatype redis_query =
    QMyID
  | QNodes
  | QInfo "string option"
  | QClusterInfo

record cli_result =
  cli_Err :: "err option"
  cli_ExitCode :: int
  cli_Stdout :: string
  cli_Stderr :: string

datatype kerr = NotFound string | OtherError string

fun kerr_text :: "kerr \<Rightarrow> err" where
  "kerr_text (NotFound e) = e"
| "kerr_text (OtherError e) = e"

fun is_not_found :: "kerr \<Rightarrow> bool" where
  "is_not_found (NotFound e) = True"
| "is_not_found (OtherError e) = False"

datatype k8s_write =
    CreateConfigMap config_map
  | UpdateConfigMapObj config_map
  | DeleteConfigMapObj
  | CreateService service
  | UpdateService service
  | DeleteServiceObj
  | CreateStatefulSet statefulset
  | UpdateStatefulSet statefulset
  | DeleteStatefulSetObj
  | CreatePDB pdb
  | UpdatePDB pdb
  | DeletePDBObj
  | DeletePVC string
  | DeletePodObj string

datatype k8s_read =
    GetStatefulSet
  | GetConfigMap
  | GetService
  | GetPDB
  | GetSecret string
  | GetOwner
  | GetPod string
  | ListPods
  | ListPVCs
  | ListConfigs

text \<open>A write of the status subresource carries the whole object; it is logged with the status it
  carries and the outcome.\<close>

datatype event =
    Command string string redis_cmd "err option"
  | Query string string redis_query
  | Cli "string list" "(string \<times> string) list" string cli_result
  | Write k8s_write "kerr option"
  | Read k8s_read
  | StatusWrite redkey_config "kerr option"
  | Sleep int
  | CheckContext
  | ChooseOrder

type_synonym history = "event list"

record secret_data =
  sd_Data :: "string \<rightharpoonup> string"

record env =
  e_cluster :: string
  e_redis :: "history \<Rightarrow> string \<Rightarrow> string \<Rightarrow> redis_cmd \<Rightarrow> err option"
  e_query :: "history \<Rightarrow> string \<Rightarrow> string \<Rightarrow> redis_query \<Rightarrow> err + string"
  e_cli :: "history \<Rightarrow> string list \<Rightarrow> (string \<times> string) list \<Rightarrow> string \<Rightarrow> cli_result"
  e_ctx_err :: "history \<Rightarrow> err option"
  e_sleep :: "history \<Rightarrow> int \<Rightarrow> err option"
  e_order :: "history \<Rightarrow> nat list"
  e_get_sts :: "history \<Rightarrow> kerr + statefulset"
  e_get_cm :: "history \<Rightarrow> kerr + config_map"
  e_get_svc :: "history \<Rightarrow> kerr + service"
  e_get_pdb :: "history \<Rightarrow> kerr + pdb"
  e_get_secret :: "history \<Rightarrow> string \<Rightarrow> kerr + secret_data"
  e_get_owner :: "history \<Rightarrow> kerr + string list"
  e_get_pod :: "history \<Rightarrow> string \<Rightarrow> kerr + pod"
  e_list_pods :: "history \<Rightarrow> kerr + pod list"
  e_list_pvcs :: "history \<Rightarrow> kerr + string list"
  e_list_configs :: "history \<Rightarrow> kerr + redkey_config list"
  e_write :: "history \<Rightarrow> k8s_write \<Rightarrow> kerr option"
  e_status :: "history \<Rightarrow> redkey_config \<Rightarrow> kerr option"
  e_owner_ref :: "history \<Rightarrow> err option"
  e_is_standalone :: "config_spec \<Rightarrow> bool"
  e_quantity_ok :: "string \<Rightarrow> bool"
  e_sha256_hex :: "string \<Rightarrow> string"
  e_merge_sts :: "statefulset \<Rightarrow> partial_sts \<Rightarrow> string + statefulset"
  e_merge_svc :: "service \<Rightarrow> partial_service \<Rightarrow> string + service"
  e_status_text :: "cluster_status \<Rightarrow> string"
  e_set_condition :: "condition list \<Rightarrow> condition \<Rightarrow> condition list"

record report =
  rp_ClusterInfo :: "cluster_info option"
  rp_ClusterNodes :: "cluster_node list"
  rp_MembershipOK :: bool
  rp_SlotsCoveredOK :: bool
  rp_ReplicaSpreadOK :: bool
  rp_BalancedOK :: bool
  rp_ClusterCheckOK :: bool
  rp_Healthy :: bool
  rp_ClusterCheckErrors :: "string list"
  rp_ClusterCheckWarnings :: "string list"
  rp_ClusterCheckCommandOutputCode :: int

record st =
  hist :: history
  cfg :: redkey_config
  run :: RuntimeConfig
  hc_clients :: "string \<rightharpoonup> string"
  hc_clientsPassword :: string
  hr_ephemeral :: bool
  hr_lastReport :: "report option"

type_synonym 'r op = "('r \<times> st) option"

definition log :: "event \<Rightarrow> st \<Rightarrow> st" where
  "log e s = s\<lparr>hist := e # hist s\<rparr>"

lemma hist_log [simp]: "hist (log e s) = e # hist s"
  by (simp add: log_def)

lemma log_fields [simp]:
  "cfg (log e s) = cfg s" "run (log e s) = run s" "hc_clients (log e s) = hc_clients s"
  "hc_clientsPassword (log e s) = hc_clientsPassword s" "hr_ephemeral (log e s) = hr_ephemeral s"
  "hr_lastReport (log e s) = hr_lastReport s"
  by (simp_all add: log_def)

section \<open>Primitive interactions\<close>

definition redis_do :: "env \<Rightarrow> string \<Rightarrow> string \<Rightarrow> redis_cmd \<Rightarrow> st \<Rightarrow> err option op" where
  "redis_do E addr pw c s =
     (let r = e_redis E (hist s) addr pw c in Some (r, log (Command addr pw c r) s))"

definition redis_query :: "env \<Rightarrow> string \<Rightarrow> string \<Rightarrow> redis_query \<Rightarrow> st \<Rightarrow> (err + string) op" where
  "redis_query E addr pw q s = Some (e_query E (hist s) addr pw q, log (Query addr pw q) s)"

definition run_cli :: "env \<Rightarrow> string list \<Rightarrow> (string \<times> string) list \<Rightarrow> string \<Rightarrow> st \<Rightarrow> cli_result op" where
  "run_cli E args vars inp s =
     (let r = e_cli E (hist s) args vars inp in Some (r, log (Cli args vars inp r) s))"

definition ctx_err :: "env \<Rightarrow> st \<Rightarrow> err option op" where
  "ctx_err E s = Some (e_ctx_err E (hist s), log CheckContext s)"

text \<open>\<open>select { case <-ctx.Done(): ...; case <-time.After(d): }\<close>: the context's error when it is done
  first.\<close>

definition sleep :: "env \<Rightarrow> int \<Rightarrow> st \<Rightarrow> err option op" where
  "sleep E d s = Some (e_sleep E (hist s) d, log (Sleep d) s)"

text \<open>The order in which ranging over a Go map visits the given entries.\<close>

definition map_order :: "env \<Rightarrow> 'a list \<Rightarrow> st \<Rightarrow> 'a list op" where
  "map_order E xs s = Some (shuffle (e_order E (hist s)) xs, log ChooseOrder s)"

definition k8s_get :: "(env \<Rightarrow> history \<Rightarrow> 'a) \<Rightarrow> k8s_read \<Rightarrow> env \<Rightarrow> st \<Rightarrow> 'a op" where
  "k8s_get field what E s = Some (field E (hist s), log (Read what) s)"

definition k8s_write :: "env \<Rightarrow> k8s_write \<Rightarrow> st \<Rightarrow> kerr option op" where
  "k8s_write E w s = (let r = e_write E (hist s) w in Some (r, log (Write w r) s))"

definition update_status :: "env \<Rightarrow> redkey_config \<Rightarrow> st \<Rightarrow> kerr option op" where
  "update_status E c s = (let r = e_status E (hist s) c in Some (r, log (StatusWrite c r) s))"

section \<open>Invariants of an operation\<close>

text \<open>\<open>keeps I m\<close>: \<open>m\<close> returns (it does not panic) and its final state satisfies \<open>I\<close>. The rules below push
  it through the control structure; each operation then has a lemma \<open>I s \<Longrightarrow> keeps I (op s)\<close>.\<close>

definition keeps :: "(st \<Rightarrow> bool) \<Rightarrow> 'r op \<Rightarrow> bool" where
  "keeps I m = (\<exists>r s. m = Some (r, s) \<and> I s)"

named_theorems keeps_intro "rules that push an invariant through an operation"

lemma keeps_Some [keeps_intro]: "I s \<Longrightarrow> keeps I (Some (r, s))"
  by (simp add: keeps_def)

lemma keeps_bind [keeps_intro]:
  "keeps I m \<Longrightarrow> (\<And>r s. I s \<Longrightarrow> keeps I (f r s)) \<Longrightarrow> keeps I (m \<bind> (\<lambda>(r, s). f r s))"
  by (auto simp: keeps_def)

lemma keeps_if [keeps_intro]:
  "(c \<Longrightarrow> keeps I m) \<Longrightarrow> (\<not> c \<Longrightarrow> keeps I n) \<Longrightarrow> keeps I (if c then m else n)"
  by simp

lemma keeps_let [keeps_intro]: "(\<And>x. keeps I (f x)) \<Longrightarrow> keeps I (let x = e in f x)"
  by simp

lemma keeps_case_sum [keeps_intro]:
  "(\<And>a. keeps I (f a)) \<Longrightarrow> (\<And>b. keeps I (g b)) \<Longrightarrow> keeps I (case x of Inl a \<Rightarrow> f a | Inr b \<Rightarrow> g b)"
  by (cases x) auto

lemma keeps_case_option [keeps_intro]:
  "keeps I f \<Longrightarrow> (\<And>b. keeps I (g b)) \<Longrightarrow> keeps I (case x of None \<Rightarrow> f | Some b \<Rightarrow> g b)"
  by (cases x) auto

lemma keeps_case_prod [keeps_intro]:
  "(\<And>a b. keeps I (f a b)) \<Longrightarrow> keeps I (case x of (a, b) \<Rightarrow> f a b)"
  by (cases x) auto

lemma keeps_case_prod_app [keeps_intro]:
  "(\<And>a b. keeps I (f a b s)) \<Longrightarrow> keeps I ((case x of (a, b) \<Rightarrow> f a b) s)"
  by (cases x) auto

lemma keeps_case_list [keeps_intro]:
  "keeps I f \<Longrightarrow> (\<And>a b. keeps I (g a b)) \<Longrightarrow> keeps I (case x of [] \<Rightarrow> f | a # b \<Rightarrow> g a b)"
  by (cases x) auto

lemma keepsD: "keeps I m \<Longrightarrow> m = Some (r, s') \<Longrightarrow> I s'"
  by (simp add: keeps_def)

lemma keepsE: "keeps I m \<Longrightarrow> (\<And>r s. m = Some (r, s) \<Longrightarrow> I s \<Longrightarrow> P) \<Longrightarrow> P"
  by (auto simp: keeps_def)

text \<open>The history only grows; \<open>grows P s0 s\<close> says that what was added since \<open>s0\<close> are events that satisfy
  \<open>P\<close>, \<open>extends P s0 s\<close> that moreover the configuration and the runtime configuration are as in
  \<open>s0\<close>: the invariant of the operations that only talk to Redis.\<close>

definition grows :: "(event \<Rightarrow> bool) \<Rightarrow> st \<Rightarrow> st \<Rightarrow> bool" where
  "grows P s0 s = (\<exists>es. hist s = es @ hist s0 \<and> list_all P es)"

definition extends :: "(event \<Rightarrow> bool) \<Rightarrow> st \<Rightarrow> st \<Rightarrow> bool" where
  "extends P s0 s = (grows P s0 s \<and> cfg s = cfg s0 \<and> run s = run s0)"

lemma grows_refl [simp, intro]: "grows P s s"
  by (simp add: grows_def)

lemma extends_refl [simp, intro]: "extends P s s"
  by (simp add: extends_def)

lemma grows_trans: "grows P a b \<Longrightarrow> grows P b c \<Longrightarrow> grows P a c"
  unfolding grows_def by (metis append.assoc list_all_append)

lemma extends_trans: "extends P a b \<Longrightarrow> extends P b c \<Longrightarrow> extends P a c"
  unfolding extends_def using grows_trans by metis

lemma grows_log [simp]: "P e \<Longrightarrow> grows P s0 s \<Longrightarrow> grows P s0 (log e s)"
proof -
  assume "P e" and "grows P s0 s"
  then obtain es where "hist s = es @ hist s0" "list_all P es" by (auto simp: grows_def)
  then show ?thesis using \<open>P e\<close> unfolding grows_def by (intro exI [of _ "e # es"]) simp
qed

lemma extends_log [simp]: "P e \<Longrightarrow> extends P s0 s \<Longrightarrow> extends P s0 (log e s)"
  by (simp add: extends_def)

lemma grows_mono: "grows P a b \<Longrightarrow> (\<And>e. P e \<Longrightarrow> Q e) \<Longrightarrow> grows Q a b"
  unfolding grows_def list_all_iff by blast

lemma extends_mono: "extends P a b \<Longrightarrow> (\<And>e. P e \<Longrightarrow> Q e) \<Longrightarrow> extends Q a b"
  unfolding extends_def using grows_mono by blast

lemma grows_update [simp]:
  "grows P s0 (s\<lparr>cfg := c\<rparr>) = grows P s0 s" "grows P s0 (s\<lparr>run := r\<rparr>) = grows P s0 s"
  "grows P s0 (s\<lparr>hc_clients := m\<rparr>) = grows P s0 s"
  "grows P s0 (s\<lparr>hc_clientsPassword := pw\<rparr>) = grows P s0 s"
  "grows P s0 (s\<lparr>hr_ephemeral := b\<rparr>) = grows P s0 s"
  "grows P s0 (s\<lparr>hr_lastReport := l\<rparr>) = grows P s0 s"
  by (simp_all add: grows_def)

lemma extends_update [simp]:
  "extends P s0 (s\<lparr>hc_clients := m\<rparr>) = extends P s0 s"
  "extends P s0 (s\<lparr>hc_clientsPassword := pw\<rparr>) = extends P s0 s"
  "extends P s0 (s\<lparr>hr_ephemeral := b\<rparr>) = extends P s0 s"
  "extends P s0 (s\<lparr>hr_lastReport := l\<rparr>) = extends P s0 s"
  by (simp_all add: extends_def)

text \<open>An operation that only extends can be used where the configuration may change as well.\<close>

lemma keeps_grows: "keeps (extends P s) m \<Longrightarrow> grows P s0 s \<Longrightarrow> keeps (grows P s0) m"
  unfolding keeps_def extends_def using grows_trans by blast

text \<open>\<open>new_events s0 s\<close>: the events added since \<open>s0\<close>, oldest first.\<close>

definition new_events :: "st \<Rightarrow> st \<Rightarrow> event list" where
  "new_events s0 s = rev (take (length (hist s) - length (hist s0)) (hist s))"

lemma new_events_append: "hist s' = es @ hist s \<Longrightarrow> new_events s s' = rev es"
  by (simp add: new_events_def)

lemma grows_new_events: "grows P s0 s \<Longrightarrow> list_all P (new_events s0 s)"
  by (auto simp: grows_def new_events_def list_all_iff)

lemmas primitive_defs = redis_do_def redis_query_def run_cli_def ctx_err_def sleep_def map_order_def
  k8s_get_def k8s_write_def update_status_def

section \<open>The primitives and event invariants\<close>

lemma keeps_primitives [keeps_intro]:
  "(\<And>r. P (Command a p c r)) \<Longrightarrow> extends P s0 s \<Longrightarrow> keeps (extends P s0) (redis_do E a p c s)"
  "P (Query a p q) \<Longrightarrow> extends P s0 s \<Longrightarrow> keeps (extends P s0) (redis_query E a p q s)"
  "(\<And>r. P (Cli args vars inp r)) \<Longrightarrow> extends P s0 s \<Longrightarrow> keeps (extends P s0) (run_cli E args vars inp s)"
  "P CheckContext \<Longrightarrow> extends P s0 s \<Longrightarrow> keeps (extends P s0) (ctx_err E s)"
  "P (Sleep d) \<Longrightarrow> extends P s0 s \<Longrightarrow> keeps (extends P s0) (sleep E d s)"
  "P ChooseOrder \<Longrightarrow> extends P s0 s \<Longrightarrow> keeps (extends P s0) (map_order E xs s)"
  "P (Read w) \<Longrightarrow> extends P s0 s \<Longrightarrow> keeps (extends P s0) (k8s_get f w E s)"
  "(\<And>r. P (Write k r)) \<Longrightarrow> extends P s0 s \<Longrightarrow> keeps (extends P s0) (k8s_write E k s)"
  "(\<And>r. P (StatusWrite cf r)) \<Longrightarrow> extends P s0 s \<Longrightarrow> keeps (extends P s0) (update_status E cf s)"
  by (simp_all add: primitive_defs Let_def keeps_def)

section \<open>A concrete environment\<close>

text \<open>An environment in which every request succeeds at once, with empty answers: the instance at which
  the theorems about operations are applied to concrete inputs (with single answers changed). A
  condition is set as the Kubernetes library documents it: it replaces the one of its type.\<close>

definition empty_sts :: statefulset where
  "empty_sts = \<lparr>ss_Name = ''redkey'', ss_Labels = None, ss_Annotations = None, ss_Generation = 1,
     ss_Replicas = Some 3, ss_PodManagementPolicy = ''Parallel'', ss_ServiceName = ''redkey'',
     ss_Selector = None, ss_Template = \<lparr>pd_Labels = None, pd_Annotations = None, pd_Containers = [],
       pd_Volumes = [], pd_Rest = []\<rparr>, ss_VolumeClaimTemplates = [], ss_Retention = None,
     ss_UpdateStrategy = DefaultStrategy, ss_SpecRest = [], ss_ReadyReplicas = 3,
     ss_UpdateRevision = ''rev'', ss_ObservedGeneration = 1\<rparr>"

definition empty_svc :: service where
  "empty_svc = \<lparr>sv_Labels = None, sv_Annotations = None, sv_ResourceVersion = [], sv_Ports = [],
     sv_Selector = None, sv_ClusterIP = [], sv_ClusterIPs = [], sv_Type = [],
     sv_PublishNotReadyAddresses = False, sv_Rest = []\<rparr>"

definition set_condition :: "condition list \<Rightarrow> condition \<Rightarrow> condition list" where
  "set_condition cs c = filter (\<lambda>x. cond_Type x \<noteq> cond_Type c) cs @ [c]"

definition calm_env :: env where
  "calm_env = \<lparr>e_cluster = ''redkey'', e_redis = (\<lambda>h a p c. None), e_query = (\<lambda>h a p q. Inr []),
     e_cli = (\<lambda>h args vars inp. \<lparr>cli_Err = None, cli_ExitCode = 0, cli_Stdout = [], cli_Stderr = []\<rparr>),
     e_ctx_err = (\<lambda>h. None), e_sleep = (\<lambda>h d. None), e_order = (\<lambda>h. []),
     e_get_sts = (\<lambda>h. Inr empty_sts), e_get_cm = (\<lambda>h. Inr \<lparr>cm_Labels = None, cm_Annotations = None, cm_Data = None\<rparr>),
     e_get_svc = (\<lambda>h. Inr empty_svc),
     e_get_pdb = (\<lambda>h. Inl (NotFound ''not found'')), e_get_secret = (\<lambda>h n. Inl (NotFound ''not found'')),
     e_get_owner = (\<lambda>h. Inr []), e_get_pod = (\<lambda>h n. Inl (NotFound ''not found'')),
     e_list_pods = (\<lambda>h. Inr []), e_list_pvcs = (\<lambda>h. Inr []), e_list_configs = (\<lambda>h. Inr []),
     e_write = (\<lambda>h w. None), e_status = (\<lambda>h c. None), e_owner_ref = (\<lambda>h. None),
     e_is_standalone = (\<lambda>sp. sp_Mode sp = ''standalone''), e_quantity_ok = (\<lambda>q. q \<noteq> []),
     e_sha256_hex = (\<lambda>t. t), e_merge_sts = (\<lambda>a p. Inr a), e_merge_svc = (\<lambda>a p. Inr a),
     e_status_text = (\<lambda>t. if t = Ready then ''Ready'' else ''other''), e_set_condition = set_condition\<rparr>"

definition start_config :: redkey_config where
  "start_config = \<lparr>rc_Name = ''config-1'', rc_Generation = 1, rc_Spec = base_spec,
     rc_Status = \<lparr>cs_ConfigPhase = PhaseEmpty, cs_Status = StatusEmpty, cs_Substatus = SubEmpty,
       cs_UpgradingPartition = 0, cs_Nodes = None, cs_Conditions = []\<rparr>\<rparr>"

definition start_st :: st where
  "start_st = \<lparr>hist = [], cfg = start_config, run = NewRuntimeConfig, hc_clients = Map.empty,
     hc_clientsPassword = [], hr_ephemeral = False, hr_lastReport = None\<rparr>"

end
