(* ===== verification/Redis_Client.thy ===== *)
theory Redis_Client
  imports World
begin

text \<open>
  The Redis client and node of the \<open>redis\<close> package (\<open>client.go\<close>, \<open>node.go\<close>, \<open>cluster_check.go\<close>,
  \<open>cluster_fix.go\<close>, \<open>cluster_rebalance.go\<close>, \<open>cluster_reshard.go\<close>) as operations on the world: each
  sends the command Go sends and wraps the error as Go does. A client is its address and password.
\<close>

section \<open>client.go: commands\<close>

type_synonym client = "string \<times> string"

definition wrapped :: "string \<Rightarrow> err option \<Rightarrow> err option" where
  "wrapped context e = map_option (wrap context) e"

definition command :: "env \<Rightarrow> client \<Rightarrow> redis_cmd \<Rightarrow> string \<Rightarrow> st \<Rightarrow> err option op" where
  "command E c cmd context s =
     do { (e, s) \<leftarrow> redis_do E (fst c) (snd c) cmd s; Some (wrapped context e, s) }"

definition ClusterMeet :: "env \<Rightarrow> client \<Rightarrow> string \<Rightarrow> int \<Rightarrow> st \<Rightarrow> err option op" where
  "ClusterMeet E c ip port s =
     command E c (Meet ip port) (''CLUSTER MEET '' @ ip @ '':'' @ Itoa port @ '' on '' @ fst c) s"

definition ClusterAddSlots :: "env \<Rightarrow> client \<Rightarrow> int list \<Rightarrow> st \<Rightarrow> err option op" where
  "ClusterAddSlots E c slots s = command E c (AddSlots slots) (''CLUSTER ADDSLOTS on '' @ fst c) s"

definition ClusterReplicate :: "env \<Rightarrow> client \<Rightarrow> string \<Rightarrow> st \<Rightarrow> err option op" where
  "ClusterReplicate E c primaryID s =
     command E c (Replicate primaryID) (''CLUSTER REPLICATE '' @ primaryID @ '' on '' @ fst c) s"

definition ClusterReset :: "env \<Rightarrow> client \<Rightarrow> bool \<Rightarrow> st \<Rightarrow> err option op" where
  "ClusterReset E c hard s =
     command E c (Reset hard) (''CLUSTER RESET '' @ (if hard then ''HARD'' else ''SOFT'') @ '' on '' @ fst c) s"

definition ClusterFailoverTakeover :: "env \<Rightarrow> client \<Rightarrow> st \<Rightarrow> err option op" where
  "ClusterFailoverTakeover E c s = command E c Takeover (''CLUSTER FAILOVER TAKEOVER on '' @ fst c) s"

definition ClusterForget :: "env \<Rightarrow> client \<Rightarrow> string \<Rightarrow> st \<Rightarrow> err option op" where
  "ClusterForget E c nodeID s =
     command E c (Forget nodeID) (''CLUSTER FORGET '' @ nodeID @ '' on '' @ fst c) s"

definition ClusterSetSlotStable :: "env \<Rightarrow> client \<Rightarrow> int \<Rightarrow> st \<Rightarrow> err option op" where
  "ClusterSetSlotStable E c slot s =
     command E c (SetSlotStable slot) (''CLUSTER SETSLOT '' @ Itoa slot @ '' STABLE on '' @ fst c) s"

definition ClusterSetSlotNode :: "env \<Rightarrow> client \<Rightarrow> int \<Rightarrow> string \<Rightarrow> st \<Rightarrow> err option op" where
  "ClusterSetSlotNode E c slot nodeID s =
     command E c (SetSlotNode slot nodeID)
       (''CLUSTER SETSLOT '' @ Itoa slot @ '' NODE '' @ nodeID @ '' on '' @ fst c) s"

definition ClientFlushAll :: "env \<Rightarrow> client \<Rightarrow> st \<Rightarrow> err option op" where
  "ClientFlushAll E c s = command E c FlushAll (''FLUSHALL on '' @ fst c) s"

definition ClientSave :: "env \<Rightarrow> client \<Rightarrow> st \<Rightarrow> err option op" where
  "ClientSave E c s = command E c Save (''SAVE on '' @ fst c) s"

definition ClientConfigSet :: "env \<Rightarrow> client \<Rightarrow> string \<Rightarrow> string \<Rightarrow> st \<Rightarrow> err option op" where
  "ClientConfigSet E c param val s =
     command E c (ConfigSet param val) (''CONFIG SET '' @ param @ '' on '' @ fst c) s"

definition ClientShutdownSave :: "env \<Rightarrow> client \<Rightarrow> st \<Rightarrow> err option op" where
  "ClientShutdownSave E c s =
     do { (e, s) \<leftarrow> redis_do E (fst c) (snd c) ShutdownSave s;
          if e = None \<or> isShutdownConnError e then Some (None, s)
          else Some (wrapped (''SHUTDOWN SAVE on '' @ fst c) e, s) }"

section \<open>client.go: queries\<close>

definition ClusterMyID :: "env \<Rightarrow> client \<Rightarrow> st \<Rightarrow> (err + string) op" where
  "ClusterMyID E c s =
     do { (r, s) \<leftarrow> redis_query E (fst c) (snd c) QMyID s;
          Some (case r of Inl e \<Rightarrow> Inl (wrap (''CLUSTER MYID on '' @ fst c) e) | Inr t \<Rightarrow> Inr (TrimSpace t), s) }"

definition GetClusterNodes :: "env \<Rightarrow> client \<Rightarrow> st \<Rightarrow> (err + cluster_node list) op" where
  "GetClusterNodes E c s =
     do { (r, s) \<leftarrow> redis_query E (fst c) (snd c) QNodes s;
          Some (case r of Inl e \<Rightarrow> Inl (wrap (''CLUSTER NODES on '' @ fst c) e)
                | Inr t \<Rightarrow> Inr (ParseClusterNodesOutput t), s) }"

definition GetClusterInfo :: "env \<Rightarrow> client \<Rightarrow> st \<Rightarrow> (err + cluster_info) op" where
  "GetClusterInfo E c s =
     do { (r, s) \<leftarrow> redis_query E (fst c) (snd c) QClusterInfo s;
          Some (case r of Inl e \<Rightarrow> Inl (wrap (''CLUSTER INFO on '' @ fst c) e) | Inr t \<Rightarrow> Inr (parseClusterInfo t), s) }"

text \<open>INFO with a section, and without one when the server rejects it.\<close>

definition info_section :: "env \<Rightarrow> client \<Rightarrow> string \<Rightarrow> string \<Rightarrow> st \<Rightarrow> (err + string) op" where
  "info_section E c sec context s =
     do { (r, s) \<leftarrow> redis_query E (fst c) (snd c) (QInfo (Some sec)) s;
          case r of
            Inr t \<Rightarrow> Some (Inr t, s)
          | Inl _ \<Rightarrow>
              do { (r, s) \<leftarrow> redis_query E (fst c) (snd c) (QInfo None) s;
                   case r of Inr t \<Rightarrow> Some (Inr t, s) | Inl e \<Rightarrow> Some (Inl (wrap context e), s) } }"

definition GetInfo :: "env \<Rightarrow> client \<Rightarrow> st \<Rightarrow> (err + string) op" where
  "GetInfo E c s = info_section E c ''all'' (''INFO on '' @ fst c) s"

definition info_test :: "env \<Rightarrow> client \<Rightarrow> string \<Rightarrow> string \<Rightarrow> st \<Rightarrow> (err + bool) op" where
  "info_test E c name expected s =
     do { (r, s) \<leftarrow> info_section E c ''replication'' (''INFO replication on '' @ fst c) s;
          Some (case r of Inl e \<Rightarrow> Inl e | Inr t \<Rightarrow> Inr (info_field_is name expected (Split newline t)), s) }"

definition ClientReplicaLinkUp :: "env \<Rightarrow> client \<Rightarrow> st \<Rightarrow> (err + bool) op" where
  "ClientReplicaLinkUp E c s = info_test E c ''master_link_status'' ''up'' s"

definition ClientIsReplica :: "env \<Rightarrow> client \<Rightarrow> st \<Rightarrow> (err + bool) op" where
  "ClientIsReplica E c s = info_test E c ''role'' ''slave'' s"

text \<open>The retry loop of \<open>CheckConnection\<close>: \<open>left\<close> attempts remain, out of \<open>maxRetries\<close>.\<close>

fun check_connection_loop :: "env \<Rightarrow> client \<Rightarrow> int \<Rightarrow> nat \<Rightarrow> int \<Rightarrow> err option \<Rightarrow> st \<Rightarrow> err option op" where
  "check_connection_loop E c maxRetries 0 backoff lastErr s =
     Some (Some (wrap (''failed to connect to '' @ fst c @ '' after '' @ Itoa maxRetries @ '' retries'')
       (case lastErr of None \<Rightarrow> ''%!w(<nil>)'' | Some e \<Rightarrow> e)), s)"
| "check_connection_loop E c maxRetries (Suc left) backoff lastErr s =
     do { (e, s) \<leftarrow> redis_do E (fst c) (snd c) Ping s;
          case e of
            None \<Rightarrow> Some (None, s)
          | Some pingErr \<Rightarrow>
              if left \<noteq> 0 then
                do { (done, s) \<leftarrow> sleep E backoff s;
                     if done \<noteq> None then Some (done, s)
                     else check_connection_loop E c maxRetries left backoff (Some pingErr) s }
              else check_connection_loop E c maxRetries left backoff (Some pingErr) s }"

definition CheckConnection :: "env \<Rightarrow> client \<Rightarrow> int \<Rightarrow> int \<Rightarrow> st \<Rightarrow> err option op" where
  "CheckConnection E c maxRetries backoff s =
     check_connection_loop E c maxRetries (nat maxRetries) backoff None s"

lemma CheckConnection_up:
  assumes "e_redis E (hist s) (fst c) (snd c) Ping = None" and "0 < retries"
  shows "CheckConnection E c retries backoff s = Some (None, log (Command (fst c) (snd c) Ping None) s)"
  using assms by (cases "nat retries") (auto simp: CheckConnection_def redis_do_def)

section \<open>redis-cli: check, fix, rebalance, reshard\<close>

definition redisCLIEnv :: "client \<Rightarrow> (string \<times> string) list" where
  "redisCLIEnv c = (if snd c = [] then [] else [(''REDISCLI_AUTH'', snd c)])"

definition combined_output :: "cli_result \<Rightarrow> string" where
  "combined_output r = cli_Stdout r @ cli_Stderr r"

text \<open>Running \<open>redis-cli\<close> and the error handling all four commands share: a run that failed because the
  context ended, and a run that could not be started (exit code -1), are errors; the exit code of a run
  that ended by itself is for the caller. \<open>ctx.Err()\<close> is read only when the run failed.\<close>

definition cluster_cli :: "env \<Rightarrow> client \<Rightarrow> string \<Rightarrow> string list \<Rightarrow> string \<Rightarrow> st \<Rightarrow> (err + cli_result) op" where
  "cluster_cli E c operation args inp s =
     do { (r, s) \<leftarrow> run_cli E args (redisCLIEnv c) inp s;
          case cli_Err r of
            None \<Rightarrow> Some (Inr r, s)
          | Some e \<Rightarrow>
              do { (ce, s) \<leftarrow> ctx_err E s;
                   case ce of
                     Some ctxErr \<Rightarrow> Some (Inl (wrap (''redis-cli '' @ (if operation = ''check'' then ''command'' else ''--cluster '' @ operation)
                                    @ '' canceled or timed out'') ctxErr), s)
                   | None \<Rightarrow>
                       if cli_ExitCode r = -1
                       then Some (Inl (wrap (''redis-cli --cluster '' @ operation @ '' on '' @ fst c) e), s)
                       else Some (Inr r, s) } }"

definition ClusterCheck :: "env \<Rightarrow> client \<Rightarrow> st \<Rightarrow> (err + cluster_check_result) op" where
  "ClusterCheck E c s =
     do { (r, s) \<leftarrow> cluster_cli E c ''check'' [''--cluster'', ''check'', fst c] [] s;
          Some (case r of Inl e \<Rightarrow> Inl e
                | Inr cr \<Rightarrow> Inr ((parseClusterCheckOutput (cli_Stdout cr))\<lparr>CommandCodeOutput := cli_ExitCode cr\<rparr>), s) }"

definition cluster_cli_ok :: "env \<Rightarrow> client \<Rightarrow> string \<Rightarrow> string list \<Rightarrow> string \<Rightarrow> st \<Rightarrow> (err + string) op" where
  "cluster_cli_ok E c operation args inp s =
     do { (r, s) \<leftarrow> cluster_cli E c operation args inp s;
          Some (case r of Inl e \<Rightarrow> Inl e
                | Inr cr \<Rightarrow> if cli_ExitCode cr \<noteq> 0
                    then Inl (formatClusterCLIExitCodeError operation (fst c) (cli_ExitCode cr) (combined_output cr))
                    else Inr (combined_output cr), s) }"

definition ClusterFix :: "env \<Rightarrow> client \<Rightarrow> st \<Rightarrow> (err + string) op" where
  "ClusterFix E c s =
     cluster_cli_ok E c ''fix'' [''--cluster'', ''fix'', fst c, ''--cluster-yes''] clusterFixConfirmations s"

definition ClusterRebalanceWithWeights :: "env \<Rightarrow> client \<Rightarrow> (string \<times> int) list \<Rightarrow> st \<Rightarrow> (err + string) op" where
  "ClusterRebalanceWithWeights E c weights s =
     cluster_cli_ok E c ''rebalance'' (weighted_rebalance_args (fst c) weights) [] s"

definition ClusterRebalance :: "env \<Rightarrow> client \<Rightarrow> st \<Rightarrow> (err + string) op" where
  "ClusterRebalance E c s = cluster_cli_ok E c ''rebalance'' (rebalance_args (fst c)) [] s"

definition ClusterReshard :: "env \<Rightarrow> client \<Rightarrow> string \<Rightarrow> string \<Rightarrow> int \<Rightarrow> st \<Rightarrow> (err + string) op" where
  "ClusterReshard E c source target numSlots s =
     cluster_cli_ok E c ''reshard'' (reshard_args (fst c) source target numSlots) [] s"

definition CountSlotsForNode :: "env \<Rightarrow> client \<Rightarrow> string \<Rightarrow> st \<Rightarrow> (err + int) op" where
  "CountSlotsForNode E c nodeID s =
     do { (r, s) \<leftarrow> GetClusterNodes E c s;
          Some (case r of Inl e \<Rightarrow> Inl e
                | Inr nodes \<Rightarrow>
                   (case find (\<lambda>n. cn_ID n = nodeID) nodes of
                      Some n \<Rightarrow> Inr (CountSlotsFromRanges (cn_Slots n))
                    | None \<Rightarrow> Inl (''node '' @ nodeID @ '' not found in cluster'')), s) }"

section \<open>node.go\<close>

record node =
  n_Name :: string
  n_Addr :: string
  n_IP :: string
  n_ID :: string
  n_Flags :: string
  n_PrimaryID :: string
  n_Slots :: string
  n_Password :: string

definition client_of :: "node \<Rightarrow> client" where
  "client_of n = (n_Addr n, n_Password n)"

definition NewNode :: "string \<Rightarrow> string \<Rightarrow> string \<Rightarrow> node" where
  "NewNode name addr password =
     \<lparr>n_Name = name, n_Addr = addr, n_IP = [], n_ID = [], n_Flags = [], n_PrimaryID = [], n_Slots = [],
      n_Password = password\<rparr>"

text \<open>\<open>Init\<close> and \<open>RefreshInfo\<close> update the node they are called on: they return it with the error. A
  colon at position 0 leaves the address as it is.\<close>

definition NodeInit :: "env \<Rightarrow> node \<Rightarrow> int \<Rightarrow> int \<Rightarrow> st \<Rightarrow> (node \<times> err option) op" where
  "NodeInit E n maxRetries backoff s =
     do { (e, s) \<leftarrow> CheckConnection E (client_of n) maxRetries backoff s;
          case e of
            Some ce \<Rightarrow> Some ((n, Some (wrap (''node '' @ n_Name n) ce)), s)
          | None \<Rightarrow>
              do { (r, s) \<leftarrow> ClusterMyID E (client_of n) s;
                   case r of
                     Inl ie \<Rightarrow> Some ((n, Some (wrap (''node '' @ n_Name n) ie)), s)
                   | Inr i \<Rightarrow>
                       let idx = Index (n_Addr n) '':'';
                           ip = (if 0 < idx then take (nat idx) (n_Addr n) else n_Addr n)
                       in Some ((n\<lparr>n_ID := i, n_IP := ip\<rparr>, None), s) } }"

definition refreshed :: "node \<Rightarrow> cluster_node \<Rightarrow> node" where
  "refreshed n c = n\<lparr>n_Flags := cn_Flags c, n_PrimaryID := cn_Primary c, n_Slots := cn_Slots c,
     n_IP := (if cn_IP c \<noteq> [] then cn_IP c else n_IP n)\<rparr>"

definition NodeRefreshInfo :: "env \<Rightarrow> node \<Rightarrow> st \<Rightarrow> (node \<times> err option) op" where
  "NodeRefreshInfo E n s =
     do { (r, s) \<leftarrow> GetClusterNodes E (client_of n) s;
          case r of
            Inl e \<Rightarrow> Some ((n, Some (wrap (''node '' @ n_Name n) e)), s)
          | Inr nodes \<Rightarrow>
             (case find (\<lambda>c. cn_ID c = n_ID n \<or> Contains (cn_Flags c) ''myself'') nodes of
                Some c \<Rightarrow> Some ((refreshed n c, None), s)
              | None \<Rightarrow> Some ((n, Some (''node '' @ n_Name n @ '': could not find self (ID='' @ n_ID n
                            @ '') in CLUSTER NODES output'')), s)) }"

definition NodeIsPrimary :: "node \<Rightarrow> bool" where
  "NodeIsPrimary n = Contains (n_Flags n) ''master''"

definition NodeIsReplica :: "node \<Rightarrow> bool" where
  "NodeIsReplica n = Contains (n_Flags n) ''slave''"

section \<open>What the operations send\<close>

lemma keeps_command:
  "(\<And>r. P (Command (fst c) (snd c) cmd r)) \<Longrightarrow> extends P s0 s \<Longrightarrow> keeps (extends P s0) (command E c cmd context s)"
  unfolding command_def by (intro keeps_intro; simp)

lemma keeps_client_commands [keeps_intro]:
  "(\<And>r. P (Command (fst c) (snd c) (Meet ip port) r)) \<Longrightarrow> extends P s0 s \<Longrightarrow> keeps (extends P s0) (ClusterMeet E c ip port s)"
  "(\<And>r. P (Command (fst c) (snd c) (AddSlots sl) r)) \<Longrightarrow> extends P s0 s \<Longrightarrow> keeps (extends P s0) (ClusterAddSlots E c sl s)"
  "(\<And>r. P (Command (fst c) (snd c) (Replicate i) r)) \<Longrightarrow> extends P s0 s \<Longrightarrow> keeps (extends P s0) (ClusterReplicate E c i s)"
  "(\<And>r. P (Command (fst c) (snd c) (Reset h) r)) \<Longrightarrow> extends P s0 s \<Longrightarrow> keeps (extends P s0) (ClusterReset E c h s)"
  "(\<And>r. P (Command (fst c) (snd c) Takeover r)) \<Longrightarrow> extends P s0 s \<Longrightarrow> keeps (extends P s0) (ClusterFailoverTakeover E c s)"
  "(\<And>r. P (Command (fst c) (snd c) (Forget i) r)) \<Longrightarrow> extends P s0 s \<Longrightarrow> keeps (extends P s0) (ClusterForget E c i s)"
  "(\<And>r. P (Command (fst c) (snd c) (SetSlotStable n) r)) \<Longrightarrow> extends P s0 s \<Longrightarrow> keeps (extends P s0) (ClusterSetSlotStable E c n s)"
  "(\<And>r. P (Command (fst c) (snd c) (SetSlotNode n i) r)) \<Longrightarrow> extends P s0 s \<Longrightarrow> keeps (extends P s0) (ClusterSetSlotNode E c n i s)"
  "(\<And>r. P (Command (fst c) (snd c) FlushAll r)) \<Longrightarrow> extends P s0 s \<Longrightarrow> keeps (extends P s0) (ClientFlushAll E c s)"
  "(\<And>r. P (Command (fst c) (snd c) Save r)) \<Longrightarrow> extends P s0 s \<Longrightarrow> keeps (extends P s0) (ClientSave E c s)"
  "(\<And>r. P (Command (fst c) (snd c) (ConfigSet a b) r)) \<Longrightarrow> extends P s0 s \<Longrightarrow> keeps (extends P s0) (ClientConfigSet E c a b s)"
  unfolding ClusterMeet_def ClusterAddSlots_def ClusterReplicate_def ClusterReset_def ClusterFailoverTakeover_def
    ClusterForget_def ClusterSetSlotStable_def ClusterSetSlotNode_def ClientFlushAll_def ClientSave_def
    ClientConfigSet_def
  by (intro keeps_command keeps_intro; simp)+

lemma keeps_shutdown [keeps_intro]:
  "(\<And>r. P (Command (fst c) (snd c) ShutdownSave r)) \<Longrightarrow> extends P s0 s \<Longrightarrow> keeps (extends P s0) (ClientShutdownSave E c s)"
  unfolding ClientShutdownSave_def by (intro keeps_command keeps_intro; simp)

lemma keeps_client_queries [keeps_intro]:
  "P (Query (fst c) (snd c) QMyID) \<Longrightarrow> extends P s0 s \<Longrightarrow> keeps (extends P s0) (ClusterMyID E c s)"
  "P (Query (fst c) (snd c) QNodes) \<Longrightarrow> extends P s0 s \<Longrightarrow> keeps (extends P s0) (GetClusterNodes E c s)"
  "P (Query (fst c) (snd c) QClusterInfo) \<Longrightarrow> extends P s0 s \<Longrightarrow> keeps (extends P s0) (GetClusterInfo E c s)"
  "P (Query (fst c) (snd c) QNodes) \<Longrightarrow> extends P s0 s \<Longrightarrow> keeps (extends P s0) (CountSlotsForNode E c i s)"
  unfolding ClusterMyID_def GetClusterNodes_def GetClusterInfo_def CountSlotsForNode_def
  by (intro keeps_intro; simp)+

lemma keeps_info [keeps_intro]:
  "(\<And>q. P (Query (fst c) (snd c) (QInfo q))) \<Longrightarrow> extends P s0 s \<Longrightarrow> keeps (extends P s0) (GetInfo E c s)"
  "(\<And>q. P (Query (fst c) (snd c) (QInfo q))) \<Longrightarrow> extends P s0 s \<Longrightarrow> keeps (extends P s0) (ClientReplicaLinkUp E c s)"
  "(\<And>q. P (Query (fst c) (snd c) (QInfo q))) \<Longrightarrow> extends P s0 s \<Longrightarrow> keeps (extends P s0) (ClientIsReplica E c s)"
  unfolding GetInfo_def ClientReplicaLinkUp_def ClientIsReplica_def info_test_def info_section_def
  by (intro keeps_intro; simp)+

lemma keeps_cluster_cli:
  "(\<And>r. P (Cli args (redisCLIEnv c) inp r)) \<Longrightarrow> P CheckContext \<Longrightarrow> extends P s0 s \<Longrightarrow>
   keeps (extends P s0) (cluster_cli E c operation args inp s)"
  unfolding cluster_cli_def by (intro keeps_intro; simp)

lemma keeps_cluster_cli_ok:
  "(\<And>r. P (Cli args (redisCLIEnv c) inp r)) \<Longrightarrow> P CheckContext \<Longrightarrow> extends P s0 s \<Longrightarrow>
   keeps (extends P s0) (cluster_cli_ok E c operation args inp s)"
  unfolding cluster_cli_ok_def by (intro keeps_cluster_cli keeps_intro; simp)

lemma keeps_cli [keeps_intro]:
  assumes "\<And>a v i r. P (Cli a v i r)" and "P CheckContext" and "extends P s0 s"
  shows "keeps (extends P s0) (ClusterCheck E c s)" "keeps (extends P s0) (ClusterFix E c s)"
    "keeps (extends P s0) (ClusterRebalance E c s)" "keeps (extends P s0) (ClusterRebalanceWithWeights E c w s)"
    "keeps (extends P s0) (ClusterReshard E c src tgt n s)"
  unfolding ClusterCheck_def ClusterFix_def ClusterRebalance_def ClusterRebalanceWithWeights_def ClusterReshard_def
  by (intro keeps_cluster_cli keeps_cluster_cli_ok keeps_intro; simp add: assms)+

lemma keeps_check_connection [keeps_intro]:
  assumes "\<And>r. P (Command (fst c) (snd c) Ping r)" and "\<And>d. P (Sleep d)"
  shows "extends P s0 s \<Longrightarrow> keeps (extends P s0) (CheckConnection E c m b s)"
proof -
  have "extends P s0 s \<Longrightarrow> keeps (extends P s0) (check_connection_loop E c m left b e s)" for left e
  proof (induction left arbitrary: e s)
    case 0
    then show ?case by (simp add: keeps_Some)
  next
    case (Suc left)
    show ?case
      unfolding check_connection_loop.simps
      by (intro keeps_intro Suc.IH; simp add: assms Suc.prems)
  qed
  then show "extends P s0 s \<Longrightarrow> ?thesis" unfolding CheckConnection_def .
qed

lemma keeps_node [keeps_intro]:
  assumes "\<And>q. P (Query (n_Addr n) (n_Password n) q)" and "\<And>r. P (Command (n_Addr n) (n_Password n) Ping r)"
    and "\<And>d. P (Sleep d)" and "extends P s0 s"
  shows "keeps (extends P s0) (NodeInit E n m b s)" and "keeps (extends P s0) (NodeRefreshInfo E n s)"
  unfolding NodeInit_def NodeRefreshInfo_def
  by (intro keeps_intro; simp add: client_of_def assms)+

section \<open>Connecting is bounded\<close>

definition failed_ping :: "client \<Rightarrow> event \<Rightarrow> bool" where
  "failed_ping c e = (\<exists>m. e = Command (fst c) (snd c) Ping (Some m))"

definition is_ping :: "event \<Rightarrow> bool" where
  "is_ping e = (case e of Command a p Ping r \<Rightarrow> True | _ \<Rightarrow> False)"

lemma check_connection_loop_returns:
  "\<exists>r s' es. check_connection_loop E c m left b e s = Some (r, s') \<and> hist s' = es @ hist s
     \<and> length (filter is_ping es) \<le> left
     \<and> (r = None \<longleftrightarrow> (\<exists>es'. es = Command (fst c) (snd c) Ping None # es'))"
proof (induction left arbitrary: e s)
  case (Suc left)
  let ?r = "e_redis E (hist s) (fst c) (snd c) Ping"
  let ?s1 = "log (Command (fst c) (snd c) Ping ?r) s"
  show ?case
  proof (cases ?r)
    case None
    then show ?thesis by (auto simp: redis_do_def Let_def is_ping_def intro!: exI)
  next
    case (Some pe)
    let ?d = "e_sleep E (hist ?s1) b" and ?s2 = "log (Sleep b) ?s1"
    show ?thesis
    proof (cases "left = 0")
      case True
      then show ?thesis using Some by (simp add: redis_do_def Let_def is_ping_def)
    next
      case False
      note left = this
      show ?thesis
      proof (cases "?d = None")
        case False
        then show ?thesis
          using Some left by (simp add: redis_do_def sleep_def Let_def is_ping_def)
      next
        case True
        obtain r s' es where IH: "check_connection_loop E c m left b (Some pe) ?s2 = Some (r, s')"
          "hist s' = es @ hist ?s2" "length (filter is_ping es) \<le> left"
          "r = None \<longleftrightarrow> (\<exists>es'. es = Command (fst c) (snd c) Ping None # es')"
          using Suc.IH [of "Some pe" ?s2] by blast
        have "check_connection_loop E c m (Suc left) b e s = Some (r, s')"
          using Some left True IH(1) by (simp add: redis_do_def sleep_def Let_def)
        moreover have "hist s' = (es @ [Sleep b, Command (fst c) (snd c) Ping (Some pe)]) @ hist s"
          using IH(2) Some by simp
        moreover have "length (filter is_ping (es @ [Sleep b, Command (fst c) (snd c) Ping (Some pe)])) \<le> Suc left"
          using IH(3) by (simp add: is_ping_def)
        moreover have "r = None \<longleftrightarrow> (\<exists>es'. es @ [Sleep b, Command (fst c) (snd c) Ping (Some pe)]
            = Command (fst c) (snd c) Ping None # es')"
          using IH(4) by (cases es) auto
        ultimately show ?thesis by blast
      qed
    qed
  qed
qed simp

text \<open>C33: connecting to a node always terminates: \<open>CheckConnection\<close> returns in every environment, sends
  at most \<open>maxRetries\<close> pings, and reports success exactly when its last interaction is a ping that was
  answered.\<close>

theorem CheckConnection_bounded:
  "\<exists>r s' es. CheckConnection E c maxRetries backoff s = Some (r, s') \<and> hist s' = es @ hist s
     \<and> length (filter is_ping es) \<le> nat maxRetries
     \<and> (r = None \<longleftrightarrow> (\<exists>es'. es = Command (fst c) (snd c) Ping None # es'))"
  unfolding CheckConnection_def by (rule check_connection_loop_returns)

end
