(* ===== verification/Command.thy ===== *)
theory Command
  imports Redis_Client
begin

text \<open>
  \<open>redis/command.go\<close>: a redis-cli process over Go's \<open>exec.Cmd\<close>. The operating system is a parameter \<open>os\<close>:
  it says whether a process starts and how it ends. \<open>exec.Cmd\<close> is the standard library's: a command starts
  once, is waited for once, and has a process state afterwards. An environment of the other theories is
  \<open>runs_on\<close> an operating system when its answers for redis-cli are the results of such commands; then what the
  four cluster commands report is said in terms of the process (\<open>cluster_command_succeeds_iff\<close>).
\<close>

section \<open>Processes\<close>

text \<open>How a process ended: its exit code (-1 when a signal ended it), what it printed, and the error \<open>Wait\<close>
  reports.\<close>

record process_end =
  pe_exit :: int
  pe_stdout :: string
  pe_stderr :: string
  pe_err :: "err option"

record os =
  os_environ :: "string list"
  os_spawn :: "string \<Rightarrow> string list \<Rightarrow> string list option \<Rightarrow> err option"
  os_reap :: "string \<Rightarrow> string list \<Rightarrow> string list option \<Rightarrow> string \<Rightarrow> process_end"

record RedisCLICommand =
  rcc_ExitCode :: int
  rcc_Err :: "err option"
  rcc_path :: string
  rcc_args :: "string list"
  rcc_env :: "string list option"
  rcc_stdin :: string
  rcc_process :: bool
  rcc_state :: "int option"
  rcc_stdout :: string
  rcc_stderr :: string

definition newCLICommand :: "os \<Rightarrow> string \<Rightarrow> string list \<Rightarrow> (string \<times> string) list \<Rightarrow> RedisCLICommand" where
  "newCLICommand OS executable args vars =
     \<lparr>rcc_ExitCode = 0, rcc_Err = None, rcc_path = executable, rcc_args = args,
      rcc_env = (if vars = [] then None else Some (os_environ OS @ formatCommandEnv vars)), rcc_stdin = [],
      rcc_process = False, rcc_state = None, rcc_stdout = [], rcc_stderr = []\<rparr>"

definition NewRedisCLICommand :: "os \<Rightarrow> string list \<Rightarrow> (string \<times> string) list \<Rightarrow> RedisCLICommand" where
  "NewRedisCLICommand OS args vars = newCLICommand OS ''redis-cli'' args vars"

definition SetStdin :: "string \<Rightarrow> RedisCLICommand \<Rightarrow> RedisCLICommand" where
  "SetStdin r c = c\<lparr>rcc_stdin := r\<rparr>"

text \<open>\<open>exec.Cmd\<close>\<close>

definition exec_start :: "os \<Rightarrow> RedisCLICommand \<Rightarrow> err option \<times> RedisCLICommand" where
  "exec_start OS c =
     (if rcc_process c then (Some ''exec: already started'', c)
      else case os_spawn OS (rcc_path c) (rcc_args c) (rcc_env c) of
             Some e \<Rightarrow> (Some e, c)
           | None \<Rightarrow> (None, c\<lparr>rcc_process := True\<rparr>))"

definition exec_wait :: "os \<Rightarrow> RedisCLICommand \<Rightarrow> err option \<times> RedisCLICommand" where
  "exec_wait OS c =
     (if \<not> rcc_process c then (Some ''exec: not started'', c)
      else if rcc_state c \<noteq> None then (Some ''exec: Wait was already called'', c)
      else let r = os_reap OS (rcc_path c) (rcc_args c) (rcc_env c) (rcc_stdin c)
           in (pe_err r, c\<lparr>rcc_state := Some (pe_exit r), rcc_stdout := rcc_stdout c @ pe_stdout r,
                             rcc_stderr := rcc_stderr c @ pe_stderr r\<rparr>))"

definition exec_run :: "os \<Rightarrow> RedisCLICommand \<Rightarrow> err option \<times> RedisCLICommand" where
  "exec_run OS c = (case exec_start OS c of (Some e, c) \<Rightarrow> (Some e, c) | (None, c) \<Rightarrow> exec_wait OS c)"

section \<open>The command\<close>

definition GetStdout :: "RedisCLICommand \<Rightarrow> string" where "GetStdout c = rcc_stdout c"

definition GetStderr :: "RedisCLICommand \<Rightarrow> string" where "GetStderr c = rcc_stderr c"

definition GetCombinedOutput :: "RedisCLICommand \<Rightarrow> string" where
  "GetCombinedOutput c = GetStdout c @ GetStderr c"

definition checkStatusCode :: "RedisCLICommand \<Rightarrow> RedisCLICommand" where
  "checkStatusCode c = c\<lparr>rcc_ExitCode := (case rcc_state c of None \<Rightarrow> -1 | Some n \<Rightarrow> n)\<rparr>"

definition with_output :: "err option \<times> RedisCLICommand \<Rightarrow> RedisCLICommand" where
  "with_output r = (case r of (e, c) \<Rightarrow> c\<lparr>rcc_Err := map_option (\<lambda>e. e @ '': '' @ GetCombinedOutput c) e\<rparr>)"

definition CommandRun :: "os \<Rightarrow> RedisCLICommand \<Rightarrow> RedisCLICommand" where
  "CommandRun OS c = checkStatusCode (with_output (exec_run OS c))"

definition CommandStart :: "os \<Rightarrow> RedisCLICommand \<Rightarrow> RedisCLICommand" where
  "CommandStart OS c =
     (case exec_start OS c of (e, c) \<Rightarrow>
        let c = c\<lparr>rcc_Err := e\<rparr> in if e \<noteq> None then checkStatusCode c else c)"

definition CommandWait :: "os \<Rightarrow> RedisCLICommand \<Rightarrow> RedisCLICommand" where
  "CommandWait OS c = checkStatusCode (with_output (exec_wait OS c))"

definition BaseCommandError :: "RedisCLICommand \<Rightarrow> err option" where
  "BaseCommandError c = rcc_Err c"

definition CommandError :: "RedisCLICommand \<Rightarrow> err option" where
  "CommandError c = (if rcc_Err c = None then None else Some (GetCombinedOutput c))"

section \<open>Running redis-cli\<close>

text \<open>What the cluster commands do with it: create, set the input, run, read the fields.\<close>

definition redis_cli :: "os \<Rightarrow> string list \<Rightarrow> (string \<times> string) list \<Rightarrow> string \<Rightarrow> cli_result" where
  "redis_cli OS args vars inp =
     (let c = CommandRun OS (SetStdin inp (NewRedisCLICommand OS args vars))
      in \<lparr>cli_Err = rcc_Err c, cli_ExitCode = rcc_ExitCode c, cli_Stdout = GetStdout c, cli_Stderr = GetStderr c\<rparr>)"

text \<open>Running is starting and waiting.\<close>

lemma run_is_start_then_wait:
  assumes "\<not> rcc_process c" and "rcc_Err (CommandStart OS c) = None"
  shows "CommandWait OS (CommandStart OS c) = CommandRun OS c"
  using assms
  by (cases "os_spawn OS (rcc_path c) (rcc_args c) (rcc_env c)")
    (auto simp: CommandRun_def CommandStart_def CommandWait_def exec_run_def exec_start_def exec_wait_def
      with_output_def checkStatusCode_def GetCombinedOutput_def GetStdout_def GetStderr_def Let_def)

text \<open>The process of a command: not started, or its end.\<close>

definition cli_process :: "os \<Rightarrow> string list \<Rightarrow> (string \<times> string) list \<Rightarrow> string \<Rightarrow> process_end option" where
  "cli_process OS args vars inp =
     (let env = (if vars = [] then None else Some (os_environ OS @ formatCommandEnv vars))
      in if os_spawn OS ''redis-cli'' args env \<noteq> None then None else Some (os_reap OS ''redis-cli'' args env inp))"

lemma redis_cli_result:
  "redis_cli OS args vars inp = (case cli_process OS args vars inp of
     Some r \<Rightarrow> \<lparr>cli_Err = map_option (\<lambda>e. e @ '': '' @ pe_stdout r @ pe_stderr r) (pe_err r), cli_ExitCode = pe_exit r,
                cli_Stdout = pe_stdout r, cli_Stderr = pe_stderr r\<rparr>
   | None \<Rightarrow> \<lparr>cli_Err = map_option (\<lambda>e. e @ '': '') (os_spawn OS ''redis-cli'' args
                 (if vars = [] then None else Some (os_environ OS @ formatCommandEnv vars))),
              cli_ExitCode = -1, cli_Stdout = [], cli_Stderr = []\<rparr>)"
  by (simp add: redis_cli_def cli_process_def CommandRun_def NewRedisCLICommand_def newCLICommand_def SetStdin_def
      exec_run_def exec_start_def exec_wait_def with_output_def checkStatusCode_def GetCombinedOutput_def GetStdout_def
      GetStderr_def Let_def split: option.split)

text \<open>An environment on an operating system that may change with time.\<close>

definition runs_on :: "env \<Rightarrow> (history \<Rightarrow> os) \<Rightarrow> bool" where
  "runs_on E OS = (\<forall>h args vars inp. e_cli E h args vars inp = redis_cli (OS h) args vars inp)"

text \<open>What \<open>Wait\<close> documents: no error means that the exit status was zero.\<close>

definition waits_as_documented :: "os \<Rightarrow> bool" where
  "waits_as_documented OS = (\<forall>path args vars inp. pe_err (os_reap OS path args vars inp) = None
     \<longrightarrow> pe_exit (os_reap OS path args vars inp) = 0)"

text \<open>C38: fixing, rebalancing or resharding is reported as done exactly when redis-cli could be started, ended
  with exit status zero, and - should waiting for it nevertheless have failed - the deadline had not passed; what
  is returned is all it printed. In particular a process that was killed or never started is never taken for a
  success, whatever it had printed.\<close>

theorem cluster_command_succeeds_iff:
  assumes "runs_on E OS" and "waits_as_documented (OS (hist s))" and "cluster_cli_ok E c operation args inp s = Some (r, s')"
  shows "r = Inr out \<longleftrightarrow> (\<exists>p. cli_process (OS (hist s)) args (redisCLIEnv c) inp = Some p \<and> pe_exit p = 0
    \<and> (pe_err p = None \<or> e_ctx_err E (Cli args (redisCLIEnv c) inp (redis_cli (OS (hist s)) args (redisCLIEnv c) inp) # hist s) = None)
    \<and> out = pe_stdout p @ pe_stderr p)"
proof (cases "cli_process (OS (hist s)) args (redisCLIEnv c) inp")
  case None
  then have "os_spawn (OS (hist s)) ''redis-cli'' args
      (if redisCLIEnv c = [] then None else Some (os_environ (OS (hist s)) @ formatCommandEnv (redisCLIEnv c))) \<noteq> None"
    by (auto simp: cli_process_def Let_def split: if_splits)
  then show ?thesis using assms None
    by (auto simp: cluster_cli_ok_def cluster_cli_def run_cli_def runs_on_def redis_cli_result ctx_err_def Let_def
        split: option.splits)
next
  case (Some p)
  have "pe_err p = None \<longrightarrow> pe_exit p = 0"
    using assms(2) Some by (auto simp: waits_as_documented_def cli_process_def Let_def split: if_splits)
  then show ?thesis using assms Some
    by (auto simp: cluster_cli_ok_def cluster_cli_def run_cli_def runs_on_def redis_cli_result ctx_err_def Let_def
        combined_output_def split: option.splits if_splits)
qed

text \<open>A fix whose output could not be read to the end.\<close>

definition slow_os :: os where
  "slow_os = \<lparr>os_environ = [''PATH=/bin''], os_spawn = (\<lambda>path args vars. None),
     os_reap = (\<lambda>path args vars inp. \<lparr>pe_exit = 0, pe_stdout = ''[OK]'', pe_stderr = [], pe_err = Some ''exec: WaitDelay expired''\<rparr>)\<rparr>"

lemma cluster_command_succeeds_iff_witness:
  "\<exists>s'. cluster_cli_ok (calm_env\<lparr>e_cli := (\<lambda>h. redis_cli slow_os)\<rparr>) (''10.0.0.1:6379'', []) ''fix'' [] [] start_st = Some (Inr ''[OK]'', s')"
proof -
  let ?E = "calm_env\<lparr>e_cli := (\<lambda>h. redis_cli slow_os)\<rparr>" and ?c = "(''10.0.0.1:6379'', []) :: client"
  have on: "runs_on ?E (\<lambda>h. slow_os)" and doc: "waits_as_documented slow_os"
    by (simp_all add: runs_on_def waits_as_documented_def slow_os_def)
  obtain r s' where run: "cluster_cli_ok ?E ?c ''fix'' [] [] start_st = Some (r, s')"
    using keeps_cluster_cli_ok [of "\<lambda>e. True" "[]" ?c "[]" start_st start_st ?E "''fix''"] by (auto simp: keeps_def)
  have "r = Inr ''[OK]''"
    using cluster_command_succeeds_iff [OF on doc run, of "''[OK]''"]
    by (simp add: cli_process_def slow_os_def redisCLIEnv_def calm_env_def)
  then show ?thesis using run by simp
qed

end
