(* ===== verification/K8s_Client.thy ===== *)
theory K8s_Client
  imports Redis_Client
begin

text \<open>
  The operations of \<open>kubernetes/objects.go\<close> on the API server: the objects of the cluster are created
  and kept up to date, scaled, upgraded and deleted. The builders and the override merge are those of
  K8s_Objects; this theory adds the requests around them, in the order the code sends them.

  The API answers with a \<open>kerr\<close>, which says whether the object was not found; the operations return
  the text of the wrapped error. A pod list becomes a map from pod name to address, an association
  list with distinct names.
\<close>

section \<open>Helpers\<close>

fun assoc_put :: "'k \<Rightarrow> 'v \<Rightarrow> ('k \<times> 'v) list \<Rightarrow> ('k \<times> 'v) list" where
  "assoc_put k v [] = [(k, v)]"
| "assoc_put k v ((k', v') # m) = (if k = k' then (k, v) # m else (k', v') # assoc_put k v m)"

definition failed :: "string \<Rightarrow> kerr option \<Rightarrow> err option" where
  "failed context r = map_option (\<lambda>k. wrap context (kerr_text k)) r"

text \<open>\<open>if err != nil && !errors.IsNotFound(err)\<close>\<close>

definition delete_failed :: "string \<Rightarrow> kerr option \<Rightarrow> err option" where
  "delete_failed context r = (case r of None \<Rightarrow> None
     | Some k \<Rightarrow> if is_not_found k then None else Some (wrap context (kerr_text k)))"

text \<open>\<open>a\<close>, then \<open>b\<close> unless \<open>a\<close> failed, in which case its error is wrapped.\<close>

definition or_wrap :: "string \<Rightarrow> (st \<Rightarrow> err option op) \<Rightarrow> (st \<Rightarrow> err option op) \<Rightarrow> st \<Rightarrow> err option op" where
  "or_wrap context a b s =
     do { (e, s) \<leftarrow> a s;
          case e of Some err \<Rightarrow> Some (Some (wrap context err), s) | None \<Rightarrow> b s }"

section \<open>Objects of the cluster\<close>

definition ensureConfigMap :: "env \<Rightarrow> config_spec \<Rightarrow> string \<Rightarrow> st \<Rightarrow> err option op" where
  "ensureConfigMap E sp password s =
     (let desired = buildConfigMap (e_is_standalone E) (e_cluster E) sp password
      in case e_owner_ref E (hist s) of
           Some e \<Rightarrow> Some (Some e, s)
         | None \<Rightarrow>
             do { (r, s) \<leftarrow> k8s_get e_get_cm GetConfigMap E s;
                  case r of
                    Inl k \<Rightarrow>
                      if is_not_found k
                      then do { (w, s) \<leftarrow> k8s_write E (CreateConfigMap desired) s; Some (map_option kerr_text w, s) }
                      else Some (Some (kerr_text k), s)
                  | Inr existing \<Rightarrow>
                      let drift = (entries (cm_Data existing) ''redis.conf'' \<noteq> entries (cm_Data desired) ''redis.conf'');
                          updated = existing\<lparr>cm_Data := (if drift then cm_Data desired else cm_Data existing),
                                      cm_Labels := cm_Labels desired, cm_Annotations := cm_Annotations desired\<rparr>
                      in if drift \<or> cm_Labels existing \<noteq> cm_Labels desired \<or> cm_Annotations existing \<noteq> cm_Annotations desired
                         then do { (w, s) \<leftarrow> k8s_write E (UpdateConfigMapObj updated) s; Some (map_option kerr_text w, s) }
                         else Some (None, s) })"

definition desired_service :: "env \<Rightarrow> config_spec \<Rightarrow> string + service" where
  "desired_service E sp =
     applyServiceOverride (e_merge_svc E) (buildService (e_cluster E) sp)
       (Option.bind (sp_Override sp) ov_Service) (e_cluster E) (derefMap (sp_Labels sp)) (derefMap (sp_Annotations sp))"

definition ensureService :: "env \<Rightarrow> config_spec \<Rightarrow> st \<Rightarrow> err option op" where
  "ensureService E sp s =
     (case desired_service E sp of
        Inl e \<Rightarrow> Some (Some e, s)
      | Inr desired \<Rightarrow>
          case e_owner_ref E (hist s) of
            Some e \<Rightarrow> Some (Some e, s)
          | None \<Rightarrow>
              do { (r, s) \<leftarrow> k8s_get e_get_svc GetService E s;
                   case r of
                     Inl k \<Rightarrow>
                       if is_not_found k
                       then do { (w, s) \<leftarrow> k8s_write E (CreateService desired) s; Some (map_option kerr_text w, s) }
                       else Some (Some (kerr_text k), s)
                   | Inr existing \<Rightarrow>
                       if serviceNeedsUpdate existing desired
                       then do { (w, s) \<leftarrow> k8s_write E (UpdateService (desired\<lparr>sv_ClusterIP := sv_ClusterIP existing,
                                   sv_ClusterIPs := sv_ClusterIPs existing,
                                   sv_ResourceVersion := sv_ResourceVersion existing\<rparr>)) s;
                                 Some (map_option kerr_text w, s) }
                       else Some (None, s) })"

definition ReconcileService :: "env \<Rightarrow> config_spec \<Rightarrow> st \<Rightarrow> err option op" where
  "ReconcileService E sp s = ensureService E sp s"

definition desired_statefulset :: "env \<Rightarrow> string list \<Rightarrow> config_spec \<Rightarrow> (string + statefulset) option" where
  "desired_statefulset E owner sp =
     map_option (\<lambda>base. applyStatefulSetOverride (e_merge_sts E) base (Option.bind (sp_Override sp) ov_StatefulSet)
         (e_cluster E) (derefMap (sp_Labels sp)) (derefMap (sp_Annotations sp)))
       (buildStatefulSet (e_quantity_ok E) owner (e_cluster E) sp)"

definition ensureStatefulSet :: "env \<Rightarrow> string list \<Rightarrow> config_spec \<Rightarrow> st \<Rightarrow> err option op" where
  "ensureStatefulSet E owner sp s =
     (case desired_statefulset E owner sp of
        None \<Rightarrow> None
      | Some (Inl e) \<Rightarrow> Some (Some e, s)
      | Some (Inr desired) \<Rightarrow>
          case e_owner_ref E (hist s) of
            Some e \<Rightarrow> Some (Some e, s)
          | None \<Rightarrow>
              do { (r, s) \<leftarrow> k8s_get e_get_sts GetStatefulSet E s;
                   case r of
                     Inl k \<Rightarrow>
                       if is_not_found k
                       then do { (w, s) \<leftarrow> k8s_write E (CreateStatefulSet desired) s; Some (map_option kerr_text w, s) }
                       else Some (Some (kerr_text k), s)
                   | Inr existing \<Rightarrow> Some (None, s) })"

definition ensurePDB :: "env \<Rightarrow> config_spec \<Rightarrow> st \<Rightarrow> err option op" where
  "ensurePDB E sp s =
     (let desired = buildPDB (e_cluster E) sp
      in case e_owner_ref E (hist s) of
           Some e \<Rightarrow> Some (Some e, s)
         | None \<Rightarrow>
             do { (r, s) \<leftarrow> k8s_get e_get_pdb GetPDB E s;
                  case r of
                    Inl k \<Rightarrow>
                      if is_not_found k
                      then do { (w, s) \<leftarrow> k8s_write E (CreatePDB desired) s; Some (map_option kerr_text w, s) }
                      else Some (Some (kerr_text k), s)
                  | Inr existing \<Rightarrow>
                      if pb_MinAvailable existing \<noteq> pb_MinAvailable desired
                         \<or> pb_MaxUnavailable existing \<noteq> pb_MaxUnavailable desired
                         \<or> pb_Labels existing \<noteq> pb_Labels desired \<or> pb_Annotations existing \<noteq> pb_Annotations desired
                      then do { (w, s) \<leftarrow> k8s_write E (UpdatePDB (desired\<lparr>pb_Selector := pb_Selector existing\<rparr>)) s;
                                Some (map_option kerr_text w, s) }
                      else Some (None, s) })"

section \<open>Deletions\<close>

definition DeleteService :: "env \<Rightarrow> st \<Rightarrow> err option op" where
  "DeleteService E s =
     do { (w, s) \<leftarrow> k8s_write E DeleteServiceObj s;
          Some (delete_failed (''deleting Service '' @ e_cluster E) w, s) }"

definition DeleteConfigMap :: "env \<Rightarrow> st \<Rightarrow> err option op" where
  "DeleteConfigMap E s =
     do { (w, s) \<leftarrow> k8s_write E DeleteConfigMapObj s;
          Some (delete_failed (''deleting ConfigMap '' @ e_cluster E) w, s) }"

definition DeletePDB :: "env \<Rightarrow> st \<Rightarrow> err option op" where
  "DeletePDB E s =
     do { (w, s) \<leftarrow> k8s_write E DeletePDBObj s;
          Some (delete_failed (''deleting PDB '' @ e_cluster E @ ''-pdb'') w, s) }"

definition DeleteStatefulSet :: "env \<Rightarrow> st \<Rightarrow> err option op" where
  "DeleteStatefulSet E s =
     do { (w, s) \<leftarrow> k8s_write E DeleteStatefulSetObj s;
          Some (delete_failed (''deleting StatefulSet '' @ e_cluster E) w, s) }"

fun delete_each :: "env \<Rightarrow> (string \<Rightarrow> k8s_write) \<Rightarrow> string \<Rightarrow> string list \<Rightarrow> st \<Rightarrow> err option op" where
  "delete_each E del context [] s = Some (None, s)"
| "delete_each E del context (n # rest) s =
     do { (w, s) \<leftarrow> k8s_write E (del n) s;
          case delete_failed (context @ n) w of
            Some e \<Rightarrow> Some (Some e, s)
          | None \<Rightarrow> delete_each E del context rest s }"

definition DeletePVCs :: "env \<Rightarrow> st \<Rightarrow> err option op" where
  "DeletePVCs E s =
     do { (r, s) \<leftarrow> k8s_get e_list_pvcs ListPVCs E s;
          case r of
            Inl k \<Rightarrow> Some (Some (wrap (''listing PVCs for cluster '' @ e_cluster E) (kerr_text k)), s)
          | Inr names \<Rightarrow> delete_each E DeletePVC ''deleting PVC '' names s }"

definition DeletePod :: "env \<Rightarrow> string \<Rightarrow> st \<Rightarrow> err option op" where
  "DeletePod E podName s =
     do { (w, s) \<leftarrow> k8s_write E (DeletePodObj podName) s;
          Some (delete_failed (''deleting pod '' @ podName) w, s) }"

definition DeleteAllPods :: "env \<Rightarrow> st \<Rightarrow> err option op" where
  "DeleteAllPods E s =
     do { (r, s) \<leftarrow> k8s_get e_list_pods ListPods E s;
          case r of
            Inl k \<Rightarrow> Some (Some (wrap (''listing pods for cluster '' @ e_cluster E) (kerr_text k)), s)
          | Inr pods \<Rightarrow> delete_each E DeletePodObj ''deleting pod '' (map po_Name pods) s }"

definition ReconcilePDB :: "env \<Rightarrow> config_spec \<Rightarrow> st \<Rightarrow> err option op" where
  "ReconcilePDB E sp s =
     (if pdb_Enabled (sp_Pdb sp) \<and> 1 < primaries sp
      then or_wrap ''ensuring PDB'' (ensurePDB E sp) (\<lambda>s. Some (None, s)) s
      else or_wrap ''deleting PDB'' (DeletePDB E) (\<lambda>s. Some (None, s)) s)"

definition EnsureClusterObjects :: "env \<Rightarrow> string list \<Rightarrow> config_spec \<Rightarrow> string \<Rightarrow> st \<Rightarrow> err option op" where
  "EnsureClusterObjects E owner sp password =
     or_wrap ''ensuring ConfigMap'' (ensureConfigMap E sp password)
       (or_wrap ''ensuring Service'' (ensureService E sp)
         (or_wrap ''ensuring StatefulSet'' (ensureStatefulSet E owner sp)
           (ReconcilePDB E sp)))"

section \<open>Passwords\<close>

definition GetRedisPassword :: "env \<Rightarrow> string \<Rightarrow> st \<Rightarrow> (err + string) op" where
  "GetRedisPassword E secretName s =
     (if secretName = [] then Some (Inr [], s)
      else do { (r, s) \<leftarrow> k8s_get (\<lambda>E h. e_get_secret E h secretName) (GetSecret secretName) E s;
                Some (case r of
                        Inl k \<Rightarrow> Inl (wrap (''getting auth secret '' @ secretName) (kerr_text k))
                      | Inr secret \<Rightarrow> Inr (case sd_Data secret SecretPasswordKey of None \<Rightarrow> [] | Some v \<Rightarrow> v), s) })"

text \<open>\<open>None\<close> when there is no ConfigMap yet.\<close>

definition GetConfigMapPassword :: "env \<Rightarrow> st \<Rightarrow> (err + string option) op" where
  "GetConfigMapPassword E s =
     do { (r, s) \<leftarrow> k8s_get e_get_cm GetConfigMap E s;
          Some (case r of
                  Inl k \<Rightarrow> if is_not_found k then Inr None
                           else Inl (wrap (''getting ConfigMap '' @ e_cluster E) (kerr_text k))
                | Inr cm \<Rightarrow> Inr (Some (parseRequirePass
                              (case entries (cm_Data cm) ''redis.conf'' of None \<Rightarrow> [] | Some v \<Rightarrow> v))), s) }"

definition UpdateConfigMap :: "env \<Rightarrow> config_spec \<Rightarrow> string \<Rightarrow> st \<Rightarrow> err option op" where
  "UpdateConfigMap E sp password s =
     do { (r, s) \<leftarrow> k8s_get e_get_cm GetConfigMap E s;
          case r of
            Inl k \<Rightarrow> Some (Some (wrap (''getting ConfigMap '' @ e_cluster E) (kerr_text k)), s)
          | Inr cm \<Rightarrow>
              let conf = buildRedisConf (sp_RedisConfig sp) password (sp_Ephemeral sp) (sp_ReplicasPerPrimary sp)
                           (e_is_standalone E sp)
              in do { (w, s) \<leftarrow> k8s_write E (UpdateConfigMapObj
                         (cm\<lparr>cm_Data := Some ((entries (cm_Data cm))(''redis.conf'' \<mapsto> conf))\<rparr>)) s;
                      Some (failed (''updating ConfigMap '' @ e_cluster E) w, s) } }"

section \<open>The StatefulSet and its pods\<close>

definition AllPodsReady :: "env \<Rightarrow> 32 word \<Rightarrow> st \<Rightarrow> (err + bool) op" where
  "AllPodsReady E expectedReplicas s =
     do { (r, s) \<leftarrow> k8s_get e_get_sts GetStatefulSet E s;
          Some (case r of Inl k \<Rightarrow> Inl (kerr_text k)
                | Inr sts \<Rightarrow> Inr (sint expectedReplicas \<le> sint (ss_ReadyReplicas sts)), s) }"

definition GetStatefulSetReplicas :: "env \<Rightarrow> st \<Rightarrow> (err + 32 word) op" where
  "GetStatefulSetReplicas E s =
     do { (r, s) \<leftarrow> k8s_get e_get_sts GetStatefulSet E s;
          Some (case r of Inl k \<Rightarrow> Inl (kerr_text k)
                | Inr sts \<Rightarrow> Inr (case ss_Replicas sts of None \<Rightarrow> 0 | Some n \<Rightarrow> n), s) }"

definition ScaleStatefulSet :: "env \<Rightarrow> 32 word \<Rightarrow> st \<Rightarrow> err option op" where
  "ScaleStatefulSet E replicas s =
     do { (r, s) \<leftarrow> k8s_get e_get_sts GetStatefulSet E s;
          case r of
            Inl k \<Rightarrow> Some (Some (wrap (''getting StatefulSet '' @ e_cluster E) (kerr_text k)), s)
          | Inr sts \<Rightarrow>
              if ss_Replicas sts = Some replicas then Some (None, s)
              else do { (w, s) \<leftarrow> k8s_write E (UpdateStatefulSet (sts\<lparr>ss_Replicas := Some replicas\<rparr>)) s;
                        Some (failed (''scaling StatefulSet '' @ e_cluster E @ '' to '' @ Itoa (sint replicas) @ '' replicas'') w, s) } }"

definition StatefulSetExists :: "env \<Rightarrow> st \<Rightarrow> (err + bool) op" where
  "StatefulSetExists E s =
     do { (r, s) \<leftarrow> k8s_get e_get_sts GetStatefulSet E s;
          Some (case r of Inl k \<Rightarrow> if is_not_found k then Inr False else Inl (kerr_text k)
                | Inr sts \<Rightarrow> Inr True, s) }"

fun pod_addresses :: "pod list \<Rightarrow> (string \<times> string) list \<Rightarrow> (string \<times> string) list" where
  "pod_addresses [] addrs = addrs"
| "pod_addresses (p # rest) addrs =
     (if po_PodIP p = [] then pod_addresses rest addrs
      else pod_addresses rest (assoc_put (po_Name p) (po_PodIP p @ '':'' @ Itoa RedisPort) addrs))"

definition GetPodAddresses :: "env \<Rightarrow> st \<Rightarrow> (err + (string \<times> string) list) op" where
  "GetPodAddresses E s =
     do { (r, s) \<leftarrow> k8s_get e_list_pods ListPods E s;
          Some (case r of Inl k \<Rightarrow> Inl (wrap ''listing cluster pods'' (kerr_text k))
                | Inr pods \<Rightarrow> Inr (pod_addresses pods []), s) }"

definition template_updated :: "statefulset \<Rightarrow> statefulset \<Rightarrow> string \<Rightarrow> statefulset" where
  "template_updated sts base configChecksum =
     (let spec = base\<lparr>ss_Replicas := ss_Replicas sts, ss_Selector := ss_Selector sts,
                   ss_ServiceName := ss_ServiceName sts, ss_PodManagementPolicy := ss_PodManagementPolicy sts,
                   ss_VolumeClaimTemplates := ss_VolumeClaimTemplates sts\<rparr>;
          tmpl = ss_Template spec
      in spec\<lparr>ss_Name := ss_Name sts, ss_Generation := ss_Generation sts,
           ss_ReadyReplicas := ss_ReadyReplicas sts, ss_UpdateRevision := ss_UpdateRevision sts,
           ss_ObservedGeneration := ss_ObservedGeneration sts,
           ss_Template := tmpl\<lparr>pd_Annotations :=
             Some ((entries (pd_Annotations tmpl))(ConfigChecksumAnnotation \<mapsto> configChecksum))\<rparr>,
           ss_UpdateStrategy := OnDelete\<rparr>)"

definition UpdateStatefulSetTemplate :: "env \<Rightarrow> string list \<Rightarrow> config_spec \<Rightarrow> string \<Rightarrow> st \<Rightarrow> err option op" where
  "UpdateStatefulSetTemplate E owner sp configChecksum s =
     do { (r, s) \<leftarrow> k8s_get e_get_sts GetStatefulSet E s;
          case r of
            Inl k \<Rightarrow> Some (Some (wrap (''getting StatefulSet '' @ e_cluster E @ '' for template update'') (kerr_text k)), s)
          | Inr sts \<Rightarrow>
              case desired_statefulset E owner sp of
                None \<Rightarrow> None
              | Some (Inl e) \<Rightarrow> Some (Some (wrap ''applying StatefulSet override for template update'' e), s)
              | Some (Inr base) \<Rightarrow>
                  do { (w, s) \<leftarrow> k8s_write E (UpdateStatefulSet (template_updated sts base configChecksum)) s;
                       Some (failed (''updating StatefulSet template '' @ e_cluster E) w, s) } }"

definition SetStatefulSetPartition :: "env \<Rightarrow> 32 word \<Rightarrow> st \<Rightarrow> err option op" where
  "SetStatefulSetPartition E part s =
     do { (r, s) \<leftarrow> k8s_get e_get_sts GetStatefulSet E s;
          case r of
            Inl k \<Rightarrow> Some (Some (wrap (''getting StatefulSet '' @ e_cluster E @ '' for partition update'') (kerr_text k)), s)
          | Inr sts \<Rightarrow>
              do { (w, s) \<leftarrow> k8s_write E (UpdateStatefulSet (sts\<lparr>ss_UpdateStrategy := RollingUpdate (Some part)\<rparr>)) s;
                   Some (failed (''setting StatefulSet '' @ e_cluster E @ '' partition to '' @ Itoa (sint part)) w, s) } }"

definition pod_name :: "env \<Rightarrow> int \<Rightarrow> string" where
  "pod_name E ordinal = e_cluster E @ ''-'' @ Itoa ordinal"

definition get_pod :: "env \<Rightarrow> string \<Rightarrow> st \<Rightarrow> (kerr + pod) op" where
  "get_pod E name s = k8s_get (\<lambda>E h. e_get_pod E h name) (GetPod name) E s"

definition IsPodOrdinalReady :: "env \<Rightarrow> int \<Rightarrow> st \<Rightarrow> (err + bool) op" where
  "IsPodOrdinalReady E ordinal s =
     do { (r, s) \<leftarrow> get_pod E (pod_name E ordinal) s;
          Some (case r of
                  Inl k \<Rightarrow> if is_not_found k then Inr False else Inl (wrap (''getting pod '' @ pod_name E ordinal) (kerr_text k))
                | Inr p \<Rightarrow> Inr (po_Ready p), s) }"

definition GetPodImage :: "env \<Rightarrow> int \<Rightarrow> st \<Rightarrow> (err + string) op" where
  "GetPodImage E ordinal s =
     do { (r, s) \<leftarrow> get_pod E (pod_name E ordinal) s;
          Some (case r of
                  Inl k \<Rightarrow> Inl (wrap (''getting pod '' @ pod_name E ordinal @ '' for image check'') (kerr_text k))
                | Inr p \<Rightarrow> (case po_Images p of
                              [] \<Rightarrow> Inl (''pod '' @ pod_name E ordinal @ '' has no containers'')
                            | img # _ \<Rightarrow> Inr img), s) }"

definition GetPodControllerRevisionHash :: "env \<Rightarrow> int \<Rightarrow> st \<Rightarrow> (err + string) op" where
  "GetPodControllerRevisionHash E ordinal s =
     do { (r, s) \<leftarrow> get_pod E (pod_name E ordinal) s;
          Some (case r of
                  Inl k \<Rightarrow> Inl (wrap (''getting pod '' @ pod_name E ordinal @ '' for revision check'') (kerr_text k))
                | Inr p \<Rightarrow> Inr (case entries (po_PodLabels p) PodTemplateHashLabel of None \<Rightarrow> [] | Some h \<Rightarrow> h), s) }"

definition GetStatefulSetUpdateRevision :: "env \<Rightarrow> st \<Rightarrow> (err + string) op" where
  "GetStatefulSetUpdateRevision E s =
     do { (r, s) \<leftarrow> k8s_get e_get_sts GetStatefulSet E s;
          Some (case r of
                  Inl k \<Rightarrow> Inl (wrap (''getting StatefulSet '' @ e_cluster E @ '' for update revision'') (kerr_text k))
                | Inr sts \<Rightarrow> Inr (ss_UpdateRevision sts), s) }"

text \<open>\<open>None\<close> while the controller has not observed the latest spec.\<close>

definition GetStatefulSetUpdateRevisionObserved :: "env \<Rightarrow> st \<Rightarrow> (err + string option) op" where
  "GetStatefulSetUpdateRevisionObserved E s =
     do { (r, s) \<leftarrow> k8s_get e_get_sts GetStatefulSet E s;
          Some (case r of
                  Inl k \<Rightarrow> Inl (wrap (''getting StatefulSet '' @ e_cluster E @ '' for update revision'') (kerr_text k))
                | Inr sts \<Rightarrow> Inr (if ss_ObservedGeneration sts < ss_Generation sts then None
                                  else Some (ss_UpdateRevision sts)), s) }"

section \<open>What the operations request\<close>

lemma keeps_reads [keeps_intro]:
  assumes "\<And>w. P (Read w)" and "extends P s0 s"
  shows "keeps (extends P s0) (GetRedisPassword E name s)" "keeps (extends P s0) (GetConfigMapPassword E s)"
    "keeps (extends P s0) (AllPodsReady E n s)" "keeps (extends P s0) (GetStatefulSetReplicas E s)"
    "keeps (extends P s0) (StatefulSetExists E s)" "keeps (extends P s0) (GetPodAddresses E s)"
    "keeps (extends P s0) (IsPodOrdinalReady E i s)" "keeps (extends P s0) (GetPodImage E i s)"
    "keeps (extends P s0) (GetPodControllerRevisionHash E i s)" "keeps (extends P s0) (GetStatefulSetUpdateRevision E s)"
    "keeps (extends P s0) (GetStatefulSetUpdateRevisionObserved E s)"
  unfolding GetRedisPassword_def GetConfigMapPassword_def AllPodsReady_def GetStatefulSetReplicas_def
    StatefulSetExists_def GetPodAddresses_def IsPodOrdinalReady_def GetPodImage_def
    GetPodControllerRevisionHash_def GetStatefulSetUpdateRevision_def GetStatefulSetUpdateRevisionObserved_def
    get_pod_def
  by (intro keeps_intro; simp add: assms)+

lemma keeps_deletions [keeps_intro]:
  "(\<And>r. P (Write DeleteServiceObj r)) \<Longrightarrow> extends P s0 s \<Longrightarrow> keeps (extends P s0) (DeleteService E s)"
  "(\<And>r. P (Write DeleteConfigMapObj r)) \<Longrightarrow> extends P s0 s \<Longrightarrow> keeps (extends P s0) (DeleteConfigMap E s)"
  "(\<And>r. P (Write DeletePDBObj r)) \<Longrightarrow> extends P s0 s \<Longrightarrow> keeps (extends P s0) (DeletePDB E s)"
  "(\<And>r. P (Write DeleteStatefulSetObj r)) \<Longrightarrow> extends P s0 s \<Longrightarrow> keeps (extends P s0) (DeleteStatefulSet E s)"
  "(\<And>r. P (Write (DeletePodObj n) r)) \<Longrightarrow> extends P s0 s \<Longrightarrow> keeps (extends P s0) (DeletePod E n s)"
  unfolding DeleteService_def DeleteConfigMap_def DeletePDB_def DeleteStatefulSet_def DeletePod_def
  by (intro keeps_intro; simp)+

lemma keeps_delete_each:
  assumes "\<And>n r. P (Write (del n) r)"
  shows "extends P s0 s \<Longrightarrow> keeps (extends P s0) (delete_each E del context ns s)"
proof (induction ns arbitrary: s)
  case (Cons n ns)
  show ?case unfolding delete_each.simps by (intro keeps_intro Cons.IH; simp add: assms Cons.prems)
qed (simp add: keeps_Some)

lemma keeps_delete_all [keeps_intro]:
  assumes "\<And>w. P (Read w)" and "extends P s0 s"
  shows "(\<And>n r. P (Write (DeletePVC n) r)) \<Longrightarrow> keeps (extends P s0) (DeletePVCs E s)"
    and "(\<And>n r. P (Write (DeletePodObj n) r)) \<Longrightarrow> keeps (extends P s0) (DeleteAllPods E s)"
  unfolding DeletePVCs_def DeleteAllPods_def
  by (intro keeps_intro keeps_delete_each; simp add: assms)+

lemma keeps_updates [keeps_intro]:
  assumes "\<And>w. P (Read w)" and "extends P s0 s"
  shows "(\<And>m r. P (Write (UpdateConfigMapObj m) r)) \<Longrightarrow> keeps (extends P s0) (UpdateConfigMap E sp pw s)"
    and "(\<And>m r. P (Write (UpdateStatefulSet m) r)) \<Longrightarrow> keeps (extends P s0) (ScaleStatefulSet E n s)"
    and "(\<And>m r. P (Write (UpdateStatefulSet m) r)) \<Longrightarrow> keeps (extends P s0) (SetStatefulSetPartition E i s)"
  unfolding UpdateConfigMap_def ScaleStatefulSet_def SetStatefulSetPartition_def
  by (intro keeps_intro; simp add: assms)+

section \<open>A template update keeps the identity of the StatefulSet\<close>

text \<open>C26: updating the pod template for an upgrade is a single write that takes the new template but keeps
  what Kubernetes forbids to change and what the scaling owns - the replica count, the selector, the
  service name, the pod management policy and the volume claim templates - whatever the override
  merge produced; it stamps the checksum of the configuration on the pods and sets the OnDelete
  strategy, so that no pod is replaced before the code deletes it.\<close>

theorem UpdateStatefulSetTemplate_keeps_identity:
  assumes "e_get_sts E (hist s) = Inr sts" and "desired_statefulset E owner sp = Some (Inr base)"
  shows "\<exists>x w s' e. UpdateStatefulSetTemplate E owner sp chk s = Some (e, s')
    \<and> new_events s s' = [Read GetStatefulSet, Write (UpdateStatefulSet x) w] \<and> (e = None \<longleftrightarrow> w = None)
    \<and> ss_Replicas x = ss_Replicas sts \<and> ss_Selector x = ss_Selector sts \<and> ss_ServiceName x = ss_ServiceName sts
    \<and> ss_PodManagementPolicy x = ss_PodManagementPolicy sts
    \<and> ss_VolumeClaimTemplates x = ss_VolumeClaimTemplates sts
    \<and> ss_UpdateStrategy x = OnDelete
    \<and> pd_Containers (ss_Template x) = pd_Containers (ss_Template base)
    \<and> entries (pd_Annotations (ss_Template x)) ConfigChecksumAnnotation = Some chk"
proof -
  let ?x = "template_updated sts base chk" and ?s1 = "log (Read GetStatefulSet) s"
  let ?w = "e_write E (hist ?s1) (UpdateStatefulSet ?x)"
  have "UpdateStatefulSetTemplate E owner sp chk s
      = Some (failed (''updating StatefulSet template '' @ e_cluster E) ?w, log (Write (UpdateStatefulSet ?x) ?w) ?s1)"
    using assms by (simp add: UpdateStatefulSetTemplate_def k8s_get_def k8s_write_def Let_def)
  moreover have "new_events s (log (Write (UpdateStatefulSet ?x) ?w) ?s1) = [Read GetStatefulSet, Write (UpdateStatefulSet ?x) ?w]"
    using new_events_append [of "log (Write (UpdateStatefulSet ?x) ?w) ?s1"
      "[Write (UpdateStatefulSet ?x) ?w, Read GetStatefulSet]" s] by simp
  ultimately show ?thesis
    by (intro exI [of _ ?x] exI [of _ ?w] exI conjI)
      (assumption | simp add: template_updated_def Let_def entries_def failed_def)+
qed

lemma UpdateStatefulSetTemplate_keeps_identity_witness:
  "\<exists>base x w s' e. desired_statefulset calm_env [] base_spec = Some (Inr base)
    \<and> UpdateStatefulSetTemplate calm_env [] base_spec ''sum'' start_st = Some (e, s')
    \<and> new_events start_st s' = [Read GetStatefulSet, Write (UpdateStatefulSet x) w] \<and> (e = None \<longleftrightarrow> w = None)
    \<and> ss_Replicas x = Some 3 \<and> ss_UpdateStrategy x = OnDelete
    \<and> entries (pd_Annotations (ss_Template x)) ConfigChecksumAnnotation = Some ''sum''"
proof -
  have sts: "e_get_sts calm_env (hist start_st) = Inr empty_sts" by (simp add: calm_env_def)
  obtain base where base: "desired_statefulset calm_env [] base_spec = Some (Inr base)"
    by (simp add: desired_statefulset_def buildStatefulSet_def base_spec_def applyStatefulSetOverride_def Let_def)
  have "ss_Replicas empty_sts = Some 3" by (simp add: empty_sts_def)
  then show ?thesis using UpdateStatefulSetTemplate_keeps_identity [OF sts base, of "''sum''"] base by auto
qed

end
