(* ===== verification/Checker.thy ===== *)
theory Checker
  imports K8s_Client
begin

text \<open>
  The stateful part of \<open>health/checker.go\<close>: the cache of clients, the probing of the nodes until one
  answers (\<open>selectSeed\<close>, \<open>probeNode\<close>), the comparison of every node's view of the members
  (\<open>checkMembership\<close>) and the report (\<open>Check\<close>). The cache maps an address to the password its client
  was made with; closing a client is not observable.
\<close>

record health_node =
  hn_Name :: string
  hn_Addr :: string

record seed_probe =
  pr_clusterInfo :: cluster_info
  pr_clusterNodes :: "cluster_node list"
  pr_clusterCheck :: cluster_check_result
  pr_partialErr :: "err option"

section \<open>The client cache\<close>

definition CloseAll :: "st \<Rightarrow> st" where
  "CloseAll s = s\<lparr>hc_clients := Map.empty\<rparr>"

definition reconcileClients :: "health_node list \<Rightarrow> string \<Rightarrow> st \<Rightarrow> st" where
  "reconcileClients currentNodes password s =
     (if hc_clientsPassword s \<noteq> password
      then (CloseAll s)\<lparr>hc_clients := Map.empty, hc_clientsPassword := password\<rparr>
      else s\<lparr>hc_clients := hc_clients s |` (hn_Addr ` set currentNodes)\<rparr>)"

definition getOrCreateClient :: "string \<Rightarrow> string \<Rightarrow> st \<Rightarrow> client \<times> st" where
  "getOrCreateClient addr password s =
     (case hc_clients s addr of
        Some pw \<Rightarrow> ((addr, pw), s)
      | None \<Rightarrow> ((addr, password), s\<lparr>hc_clients := (hc_clients s)(addr \<mapsto> password)\<rparr>))"

definition discardClient :: "string \<Rightarrow> st \<Rightarrow> st" where
  "discardClient addr s = s\<lparr>hc_clients := (hc_clients s)(addr := None)\<rparr>"

section \<open>Probing\<close>

text \<open>The probe and the error, either of which may be absent; a failed \<open>redis-cli\<close> check leaves a
  structural probe beside its error.\<close>

definition probeNode :: "env \<Rightarrow> string \<Rightarrow> string \<Rightarrow> st \<Rightarrow> (seed_probe option \<times> err option) op" where
  "probeNode E addr password s =
     (let (c, s) = getOrCreateClient addr password s
      in do { (info, s) \<leftarrow> GetClusterInfo E c s;
              case info of
                Inl e \<Rightarrow> Some ((None, Some e), discardClient addr s)
              | Inr clusterInfo \<Rightarrow>
                  do { (nodes, s) \<leftarrow> GetClusterNodes E c s;
                       case nodes of
                         Inl e \<Rightarrow> Some ((None, Some e), discardClient addr s)
                       | Inr clusterNodes \<Rightarrow>
                           (let probe = \<lparr>pr_clusterInfo = clusterInfo, pr_clusterNodes = clusterNodes,
                                  pr_clusterCheck = \<lparr>CommandCodeOutput = defaultClusterCheckCode,
                                                     Errors = [], Warnings = []\<rparr>,
                                  pr_partialErr = None\<rparr>
                            in do { (chk, s) \<leftarrow> ClusterCheck E c s;
                                    case chk of
                                      Inl e \<Rightarrow> Some ((Some probe, Some e), s)
                                    | Inr cr \<Rightarrow> Some ((Some (probe\<lparr>pr_clusterCheck := cr\<rparr>), None), s) }) } })"

text \<open>A successful probe always carries a check result (\<open>probe.clusterCheck != nil\<close>), so it ends the
  loop.\<close>

fun select_seed_loop ::
  "env \<Rightarrow> string \<Rightarrow> health_node list \<Rightarrow> seed_probe option \<Rightarrow> err option \<Rightarrow> st \<Rightarrow> (err + seed_probe) op" where
  "select_seed_loop E password [] structuralSeed lastErr s =
     (case structuralSeed of
        Some p \<Rightarrow> Some (Inr p, s)
      | None \<Rightarrow> Some (Inl (case lastErr of None \<Rightarrow> ''no reachable cluster node found'' | Some e \<Rightarrow> e), s))"
| "select_seed_loop E password (node # rest) structuralSeed lastErr s =
     do { (r, s) \<leftarrow> probeNode E (hn_Addr node) password s;
          case snd r of
            Some e \<Rightarrow>
              (let structuralSeed' = (case fst r of
                     Some p \<Rightarrow> if structuralSeed = None then Some (p\<lparr>pr_partialErr := Some e\<rparr>) else structuralSeed
                   | None \<Rightarrow> structuralSeed)
               in select_seed_loop E password rest structuralSeed' (Some e) s)
          | None \<Rightarrow>
              (case fst r of
                 Some p \<Rightarrow> Some (Inr p, s)
               | None \<Rightarrow> None) }"

definition selectSeed :: "env \<Rightarrow> health_node list \<Rightarrow> string \<Rightarrow> st \<Rightarrow> (err + seed_probe) op" where
  "selectSeed E nodes password s = select_seed_loop E password nodes None None s"

fun membership_loop ::
  "env \<Rightarrow> string \<Rightarrow> nat \<Rightarrow> string set \<Rightarrow> health_node list \<Rightarrow> st \<Rightarrow> bool op" where
  "membership_loop E password expected seedIDs [] s = Some (True, s)"
| "membership_loop E password expected seedIDs (node # rest) s =
     (let (c, s) = getOrCreateClient (hn_Addr node) password s
      in do { (r, s) \<leftarrow> GetClusterNodes E c s;
              case r of
                Inl e \<Rightarrow> Some (False, discardClient (hn_Addr node) s)
              | Inr clusterNodes \<Rightarrow>
                 (case visibleNodeIDs clusterNodes of
                    None \<Rightarrow> Some (False, s)
                  | Some visibleIDs \<Rightarrow>
                      if card visibleIDs \<noteq> expected then Some (False, s)
                      else if seedIDs \<noteq> visibleIDs then Some (False, s)
                      else membership_loop E password expected seedIDs rest s) })"

definition checkMembership :: "env \<Rightarrow> health_node list \<Rightarrow> string \<Rightarrow> cluster_node list \<Rightarrow> st \<Rightarrow> bool op" where
  "checkMembership E nodes password seedNodes s =
     (case visibleNodeIDs seedNodes of
        None \<Rightarrow> Some (False, s)
      | Some seedIDs \<Rightarrow>
          if card seedIDs \<noteq> length nodes then Some (False, s)
          else membership_loop E password (length nodes) seedIDs nodes s)"

section \<open>The report\<close>

definition empty_report :: report where
  "empty_report = \<lparr>rp_ClusterInfo = None, rp_ClusterNodes = [], rp_MembershipOK = False,
     rp_SlotsCoveredOK = False, rp_ReplicaSpreadOK = False, rp_BalancedOK = False, rp_ClusterCheckOK = False,
     rp_Healthy = False, rp_ClusterCheckErrors = [], rp_ClusterCheckWarnings = [],
     rp_ClusterCheckCommandOutputCode = defaultClusterCheckCode\<rparr>"

definition Check ::
  "env \<Rightarrow> health_node list \<Rightarrow> string \<Rightarrow> int \<Rightarrow> int \<Rightarrow> st \<Rightarrow> (report \<times> err option) op" where
  "Check E nodes password desiredPrimaries desiredReplicas s =
     (if nodes = [] then Some ((empty_report, Some ''no nodes provided for cluster health check''), s)
      else
        let s = reconcileClients nodes password s
        in do { (r, s) \<leftarrow> selectSeed E nodes password s;
                case r of
                  Inl e \<Rightarrow> Some ((empty_report, Some e), s)
                | Inr seed \<Rightarrow>
                    do { (member, s) \<leftarrow> checkMembership E nodes password (pr_clusterNodes seed) s;
                         let checkOK = (CommandCodeOutput (pr_clusterCheck seed) = 0);
                             covered = slotsCovered (pr_clusterNodes seed);
                             spread = replicaSpreadOK (pr_clusterNodes seed) desiredPrimaries desiredReplicas;
                             bal = balanced (pr_clusterNodes seed)
                         in Some ((\<lparr>rp_ClusterInfo = Some (pr_clusterInfo seed),
                              rp_ClusterNodes = pr_clusterNodes seed, rp_MembershipOK = member,
                              rp_SlotsCoveredOK = covered, rp_ReplicaSpreadOK = spread, rp_BalancedOK = bal,
                              rp_ClusterCheckOK = checkOK,
                              rp_Healthy = (member \<and> covered \<and> spread \<and> bal \<and> checkOK),
                              rp_ClusterCheckErrors = Errors (pr_clusterCheck seed),
                              rp_ClusterCheckWarnings = Warnings (pr_clusterCheck seed),
                              rp_ClusterCheckCommandOutputCode = CommandCodeOutput (pr_clusterCheck seed)\<rparr>,
                              pr_partialErr seed), s) } })"

section \<open>The cache never serves a stale password\<close>

definition cache_ok :: "st \<Rightarrow> bool" where
  "cache_ok s = (\<forall>a p. hc_clients s a = Some p \<longrightarrow> p = hc_clientsPassword s)"

definition cli_auth :: "string \<Rightarrow> (string \<times> string) list" where
  "cli_auth pw = (if pw = [] then [] else [(''REDISCLI_AUTH'', pw)])"

text \<open>Interactions of the checker authenticated with a password.\<close>

definition authenticated :: "string \<Rightarrow> event \<Rightarrow> bool" where
  "authenticated pw e = (case e of
      Command a p c r \<Rightarrow> p = pw
    | Query a p q \<Rightarrow> p = pw
    | Cli args vars inp r \<Rightarrow> vars = cli_auth pw
    | CheckContext \<Rightarrow> True
    | _ \<Rightarrow> False)"

definition checker_inv :: "string \<Rightarrow> st \<Rightarrow> st \<Rightarrow> bool" where
  "checker_inv pw s0 s = (cache_ok s \<and> hc_clientsPassword s = pw \<and> extends (authenticated pw) s0 s)"

lemma redisCLIEnv_auth: "redisCLIEnv c = cli_auth (snd c)"
  by (simp add: redisCLIEnv_def cli_auth_def)

lemma reconcileClients_inv: "cache_ok s \<Longrightarrow> checker_inv pw s (reconcileClients nodes pw s)"
  by (auto simp: checker_inv_def cache_ok_def reconcileClients_def CloseAll_def restrict_map_def
      split: if_splits)

lemma getOrCreateClient_inv:
  "checker_inv pw s0 s \<Longrightarrow> getOrCreateClient addr pw s = (c, s') \<Longrightarrow> c = (addr, pw) \<and> checker_inv pw s0 s'"
  by (auto simp: checker_inv_def cache_ok_def getOrCreateClient_def split: option.splits if_splits)

lemma discardClient_inv: "checker_inv pw s0 s \<Longrightarrow> checker_inv pw s0 (discardClient addr s)"
  by (auto simp: checker_inv_def cache_ok_def discardClient_def split: if_splits)

lemma checker_inv_log: "authenticated pw e \<Longrightarrow> checker_inv pw s0 s \<Longrightarrow> checker_inv pw s0 (log e s)"
  by (auto simp: checker_inv_def cache_ok_def)

lemma keeps_checker_primitives:
  assumes "checker_inv pw s0 s"
  shows "keeps (checker_inv pw s0) (redis_query E a pw q s)"
    and "keeps (checker_inv pw s0) (run_cli E args (cli_auth pw) inp s)"
    and "keeps (checker_inv pw s0) (ctx_err E s)"
  using assms by (simp_all add: primitive_defs Let_def keeps_def checker_inv_log authenticated_def)

lemma keeps_checker_client:
  assumes "checker_inv pw s0 s"
  shows "keeps (checker_inv pw s0) (GetClusterInfo E (a, pw) s)"
    and "keeps (checker_inv pw s0) (GetClusterNodes E (a, pw) s)"
    and "keeps (checker_inv pw s0) (ClusterCheck E (a, pw) s)"
  unfolding GetClusterInfo_def GetClusterNodes_def ClusterCheck_def cluster_cli_def redisCLIEnv_auth snd_conv fst_conv
  by (intro keeps_intro; simp add: keeps_checker_primitives assms)+

lemma keeps_probeNode: "checker_inv pw s0 s \<Longrightarrow> keeps (checker_inv pw s0) (probeNode E addr pw s)"
proof -
  assume s: "checker_inv pw s0 s"
  obtain c s1 where g: "getOrCreateClient addr pw s = (c, s1)" by fastforce
  have c: "c = (addr, pw)" and s1: "checker_inv pw s0 s1" using getOrCreateClient_inv [OF s g] by auto
  show ?thesis
    unfolding probeNode_def g prod.case Let_def c
    by (intro keeps_intro keeps_checker_client s1; simp add: discardClient_inv)
qed

lemma probeNode_result: "probeNode E addr pw s = Some (r, s') \<Longrightarrow> r \<noteq> (None, None)"
  by (auto simp: probeNode_def Let_def split: prod.splits sum.splits bind_splits)

lemma keeps_selectSeed: "checker_inv pw s0 s \<Longrightarrow> keeps (checker_inv pw s0) (selectSeed E nodes pw s)"
proof -
  have "checker_inv pw s0 s \<Longrightarrow> keeps (checker_inv pw s0) (select_seed_loop E pw nodes st le s)" for st le
  proof (induction nodes arbitrary: st le s)
    case Nil
    then show ?case by (auto intro: keeps_intro)
  next
    case (Cons n nodes)
    obtain r s1 where r: "probeNode E (hn_Addr n) pw s = Some (r, s1)" and s1: "checker_inv pw s0 s1"
      by (rule keepsE [OF keeps_probeNode [OF Cons.prems]])
    obtain p e where pe: "r = (p, e)" "p \<noteq> None \<or> e \<noteq> None" using probeNode_result [OF r] by (cases r) auto
    show ?case
    proof (cases e)
      case None
      with pe obtain pr where "p = Some pr" by auto
      then show ?thesis using r pe None s1 by (simp add: keeps_Some)
    next
      case (Some err)
      then show ?thesis using r pe Cons.IH [OF s1] by (simp add: Let_def)
    qed
  qed
  then show "checker_inv pw s0 s \<Longrightarrow> ?thesis" by (simp add: selectSeed_def)
qed

lemma keeps_checkMembership:
  "checker_inv pw s0 s \<Longrightarrow> keeps (checker_inv pw s0) (checkMembership E nodes pw seed s)"
proof -
  have loop: "checker_inv pw s0 s \<Longrightarrow> keeps (checker_inv pw s0) (membership_loop E pw k ids ns s)" for k ids ns s
  proof (induction ns arbitrary: s)
    case Nil
    then show ?case by (auto intro: keeps_intro)
  next
    case (Cons n ns)
    obtain c s1 where g: "getOrCreateClient (hn_Addr n) pw s = (c, s1)" by fastforce
    have c: "c = (hn_Addr n, pw)" and s1: "checker_inv pw s0 s1" using getOrCreateClient_inv [OF Cons.prems g] by auto
    show ?case
      unfolding membership_loop.simps g prod.case Let_def c
      by (intro keeps_intro keeps_checker_client s1 Cons.IH; simp add: discardClient_inv)
  qed
  assume s: "checker_inv pw s0 s"
  show ?thesis
    unfolding checkMembership_def by (intro keeps_intro loop s)
qed

lemma keeps_Check_inv:
  "cache_ok s \<Longrightarrow> nodes \<noteq> [] \<Longrightarrow> keeps (checker_inv pw s) (Check E nodes pw P R s)"
  unfolding Check_def Let_def
  by (intro keeps_intro keeps_selectSeed keeps_checkMembership reconcileClients_inv) simp_all

text \<open>C25: a rotated password takes effect at once: starting from a cache whose clients all use the
  recorded password, a health check with password \<open>pw\<close> authenticates every query and every \<open>redis-cli\<close>
  run with \<open>pw\<close>, whatever the cache held before, and leaves a cache of clients for \<open>pw\<close> only.\<close>

theorem Check_uses_current_password:
  assumes "cache_ok s" and "nodes \<noteq> []"
  shows "\<exists>r s'. Check E nodes pw P R s = Some (r, s') \<and> cache_ok s' \<and> hc_clientsPassword s' = pw
    \<and> extends (authenticated pw) s s'"
  using keeps_Check_inv [OF assms, of pw E P R] by (auto simp: keeps_def checker_inv_def)

definition one_pod :: "health_node list" where
  "one_pod = [\<lparr>hn_Name = ''redkey-0'', hn_Addr = ''10.0.0.1:6379''\<rparr>]"

lemma Check_uses_current_password_witness:
  "\<exists>r s'. Check calm_env one_pod ''new'' 3 0 start_st = Some (r, s') \<and> cache_ok s' \<and> hc_clientsPassword s' = ''new''
    \<and> extends (authenticated ''new'') start_st s'"
  by (rule Check_uses_current_password) (simp_all add: cache_ok_def start_st_def one_pod_def)

text \<open>A report that says Healthy is backed by evidence: the slots of the primaries it lists form an
  exact partition, every primary is within the balance threshold, the replica spread is the desired
  one, and \<open>redis-cli --cluster check\<close> ended with code 0.\<close>

lemma Check_healthy_sound:
  assumes "Check E nodes pw P R s = Some ((rep, e), s')" and "rp_Healthy rep"
  shows "nodes \<noteq> [] \<and> rp_MembershipOK rep \<and> slotsCovered (rp_ClusterNodes rep) \<and> balanced (rp_ClusterNodes rep)
    \<and> replicaSpreadOK (rp_ClusterNodes rep) P R \<and> rp_ClusterCheckCommandOutputCode rep = 0"
  using assms
  by (auto simp: Check_def empty_report_def Let_def split: if_splits sum.splits bind_splits)

section \<open>A concrete healthy cluster\<close>

definition sole_node :: cluster_node where
  "sole_node = primary_of ''a1'' (range_text (SlotRange 0 16383))"

definition sole_env :: env where
  "sole_env = calm_env\<lparr>e_query := (\<lambda>h a p q. Inr (if q = QNodes then Join (map node_text [sole_node]) [newline] else []))\<rparr>"

lemma range_text_word: "valid_range r \<Longrightarrow> word_ok (range_text r)"
  using range_text_clean [of r]
  by (auto simp: word_ok_def list_all_iff slot_separator_def range_text_def Itoa_def)

lemma range_text_fields: "valid_range r \<Longrightarrow> Fields (range_text r) = [range_text r]"
  using Fields_Join [of "[range_text r]"] range_text_word by simp

lemma sole_parsed: "ParseSlotRanges (cn_Slots sole_node) = Inr [SlotRange 0 16383]"
  unfolding sole_node_def primary_of_slots by (rule parse_single_range) (simp add: valid_range_def maxInt64_def)

lemma sole_printable: "printable_node sole_node"
  using range_text_fields [of "SlotRange 0 16383"]
  by (simp add: sole_node_def valid_range_def primary_of_def printable_node_def word_ok_def is_space_def ip_of_addr_def
      maxInt64_def)

lemma sole_ranges: "primary_ranges ParseSlotRanges [sole_node] = Some [[SlotRange 0 16383]]"
  using sole_parsed by (simp add: sole_node_def)

lemma sole_covered: "slotsCovered [sole_node]"
  unfolding slotsCovered_times_covered sole_ranges by (simp add: slots_of_def clusterTotalSlots_def)

lemma sole_balanced: "balanced [sole_node]"
  unfolding balanced_counts sole_ranges
  by (simp add: CountSlots_def within_threshold_def slots_per_primary_def clusterTotalSlots_def
      unbalancedThresholdPct_def i64_def Let_def)

lemma sole_spread: "replicaSpreadOK [sole_node] 1 0"
  by (simp add: replicaSpreadOK_def sole_node_def primary_of_def isReplica_def splitFlags_def TrimSpace_def is_space_def)

lemma sole_nodes:
  "GetClusterNodes sole_env c s = Some (Inr [sole_node], log (Query (fst c) (snd c) QNodes) s)"
  using parse_cluster_nodes_text [of "[sole_node]"] sole_printable
  by (simp add: GetClusterNodes_def redis_query_def sole_env_def)

lemma sole_visible: "visibleNodeIDs [sole_node] = Some {''a1''}"
  by (simp add: visibleNodeIDs_def sole_node_def primary_of_def hasFailingFlag_def membershipFailFlags_def splitFlags_def TrimSpace_def is_space_def)

lemma sole_answers [simp]:
  "e_query sole_env h a p QClusterInfo = Inr []"
  "e_cli sole_env h args vars inp = \<lparr>cli_Err = None, cli_ExitCode = 0, cli_Stdout = [], cli_Stderr = []\<rparr>"
  by (simp_all add: sole_env_def calm_env_def)

lemma sole_probe:
  "hc_clients s addr = None \<Longrightarrow>
   \<exists>info s'. probeNode sole_env addr pw s = Some ((Some \<lparr>pr_clusterInfo = info, pr_clusterNodes = [sole_node],
       pr_clusterCheck = (parseClusterCheckOutput [])\<lparr>CommandCodeOutput := 0\<rparr>, pr_partialErr = None\<rparr>, None), s')"
  by (simp add: probeNode_def getOrCreateClient_def GetClusterInfo_def redis_query_def sole_nodes ClusterCheck_def
      cluster_cli_def run_cli_def Let_def)

lemma sole_check:
  "hc_clients s = Map.empty \<Longrightarrow> \<exists>rep s'. Check sole_env one_pod pw 1 0 s = Some ((rep, None), s') \<and> rp_Healthy rep"
proof -
  assume s: "hc_clients s = Map.empty"
  let ?s = "reconcileClients one_pod pw s"
  have "hc_clients ?s ''10.0.0.1:6379'' = None" using s by (simp add: reconcileClients_def CloseAll_def)
  then obtain info s1 where p: "probeNode sole_env ''10.0.0.1:6379'' pw ?s
      = Some ((Some \<lparr>pr_clusterInfo = info, pr_clusterNodes = [sole_node],
       pr_clusterCheck = (parseClusterCheckOutput [])\<lparr>CommandCodeOutput := 0\<rparr>, pr_partialErr = None\<rparr>, None), s1)"
    using sole_probe [of ?s "''10.0.0.1:6379''"] by blast
  obtain c s2 where c: "getOrCreateClient ''10.0.0.1:6379'' pw s1 = (c, s2)" by fastforce
  show ?thesis
    unfolding Check_def one_pod_def
    using p c
    by (simp add: one_pod_def selectSeed_def checkMembership_def sole_visible sole_nodes
        Let_def sole_covered sole_balanced sole_spread)
qed

lemma Check_healthy_sound_witness:
  "\<exists>rep :: report. one_pod \<noteq> [] \<and> rp_MembershipOK rep \<and> slotsCovered (rp_ClusterNodes rep) \<and> balanced (rp_ClusterNodes rep)
    \<and> replicaSpreadOK (rp_ClusterNodes rep) 1 0 \<and> rp_ClusterCheckCommandOutputCode rep = 0"
proof -
  have "hc_clients start_st = Map.empty" by (simp add: start_st_def)
  from sole_check [OF this, of "[]"] obtain rep s' where
    c: "Check sole_env one_pod [] 1 0 start_st = Some ((rep, None), s')" and h: "rp_Healthy rep" by blast
  from Check_healthy_sound [OF c h] show ?thesis by (rule exI)
qed

end
