(* ===== verification/Health_Reconciler.thy ===== *)
theory Health_Reconciler
  imports Checker
begin

text \<open>
  \<open>reconciler/health_reconciler.go\<close>: the health check of a ready cluster and its remediations. Each
  remediation is an operation on the world. The concurrent fan-outs (\<open>forgetFromAllPeers\<close>,
  \<open>meetFromAllPeers\<close>) send one command per peer in an order the environment chooses.

  A Go map that is iterated is an association list with distinct keys (\<open>assoc_put\<close>), visited in the
  order the environment chooses (\<open>map_order\<close>); a map that is only looked up is a function or a set.
\<close>

section \<open>Helpers\<close>

definition DefaultPort :: int where "DefaultPort = 6379"

definition extractIP :: "string \<Rightarrow> string" where
  "extractIP addr = (let idx = Index addr '':'' in if 0 < idx then take (nat idx) addr else addr)"

definition truncateOutput :: "string \<Rightarrow> nat \<Rightarrow> string" where
  "truncateOutput output maxLen =
     (if length output \<le> maxLen then output else take maxLen output @ ''...(truncated)'')"

text \<open>\<open>isConfirmedFail\<close> of \<open>upgrade_reconciler.go\<close>: the flag \<open>fail\<close>, not the transient \<open>pfail\<close> or
  \<open>fail?\<close>.\<close>

definition isConfirmedFail :: "string \<Rightarrow> bool" where
  "isConfirmedFail flags = list_ex (\<lambda>f. f = ''fail'') (Split (CHR '','') flags)"

definition redis_addr :: "string \<Rightarrow> string" where
  "redis_addr ip = ip @ '':6379''"

section \<open>Membership\<close>

fun forget_from_each :: "env \<Rightarrow> string \<Rightarrow> string \<Rightarrow> health_node list \<Rightarrow> st \<Rightarrow> unit op" where
  "forget_from_each E password targetID [] s = Some ((), s)"
| "forget_from_each E password targetID (n # rest) s =
     do { (e, s) \<leftarrow> ClusterForget E (hn_Addr n, password) targetID s;
          forget_from_each E password targetID rest s }"

definition forgetFromAllPeers :: "env \<Rightarrow> health_node list \<Rightarrow> string \<Rightarrow> string \<Rightarrow> st \<Rightarrow> unit op" where
  "forgetFromAllPeers E nodes password targetID s =
     do { (order, s) \<leftarrow> map_order E nodes s; forget_from_each E password targetID order s }"

fun meet_from_each :: "env \<Rightarrow> string \<Rightarrow> string \<Rightarrow> health_node list \<Rightarrow> st \<Rightarrow> unit op" where
  "meet_from_each E password targetIP [] s = Some ((), s)"
| "meet_from_each E password targetIP (n # rest) s =
     do { (e, s) \<leftarrow> ClusterMeet E (hn_Addr n, password) targetIP DefaultPort s;
          meet_from_each E password targetIP rest s }"

definition meetFromAllPeers ::
  "env \<Rightarrow> health_node list \<Rightarrow> string set \<Rightarrow> string \<Rightarrow> string \<Rightarrow> st \<Rightarrow> unit op" where
  "meetFromAllPeers E nodes clusterIPs password targetIP s =
     do { (order, s) \<leftarrow> map_order E (filter (\<lambda>n. extractIP (hn_Addr n) \<in> clusterIPs) nodes) s;
          meet_from_each E password targetIP order s }"

fun promoteReplicaOfDeadMaster ::
  "env \<Rightarrow> cluster_node list \<Rightarrow> string set \<Rightarrow> string \<Rightarrow> string \<Rightarrow> st \<Rightarrow> bool op" where
  "promoteReplicaOfDeadMaster E [] expectedIPs password masterID s = Some (False, s)"
| "promoteReplicaOfDeadMaster E (rn # rest) expectedIPs password masterID s =
     (if cn_Primary rn \<noteq> masterID \<or> cn_IP rn = []
      then promoteReplicaOfDeadMaster E rest expectedIPs password masterID s
      else if \<not> Contains (cn_Flags rn) ''slave'' \<or> isConfirmedFail (cn_Flags rn)
      then promoteReplicaOfDeadMaster E rest expectedIPs password masterID s
      else if cn_IP rn \<notin> expectedIPs
      then promoteReplicaOfDeadMaster E rest expectedIPs password masterID s
      else do { (e, s) \<leftarrow> ClusterFailoverTakeover E (redis_addr (cn_IP rn), password) s;
                if e \<noteq> None then promoteReplicaOfDeadMaster E rest expectedIPs password masterID s
                else Some (True, s) })"

definition isForgettableNoaddrGhost :: "cluster_node \<Rightarrow> bool" where
  "isForgettableNoaddrGhost cn =
     (cn_IP cn = [] \<and> Contains (cn_Flags cn) ''noaddr'' \<and> CountSlotsFromRanges (cn_Slots cn) = 0)"

text \<open>The loop over the seed's view; the flags are \<open>forgot\<close> and \<open>forgotSlotOwner\<close>.\<close>

fun heal_forget_loop ::
  "env \<Rightarrow> health_node list \<Rightarrow> string \<Rightarrow> bool \<Rightarrow> cluster_node list \<Rightarrow> string set \<Rightarrow> cluster_node list
   \<Rightarrow> bool \<Rightarrow> bool \<Rightarrow> st \<Rightarrow> (bool \<times> bool) op" where
  "heal_forget_loop E nodes password ephemeral clusterNodes expectedIPs [] forgot forgotSlotOwner s =
     Some ((forgot, forgotSlotOwner), s)"
| "heal_forget_loop E nodes password ephemeral clusterNodes expectedIPs (cn # rest) forgot forgotSlotOwner s =
     (if cn_IP cn = [] then
        if isForgettableNoaddrGhost cn then
          do { (u, s) \<leftarrow> forgetFromAllPeers E nodes password (cn_ID cn) s;
               heal_forget_loop E nodes password ephemeral clusterNodes expectedIPs rest True forgotSlotOwner s }
        else heal_forget_loop E nodes password ephemeral clusterNodes expectedIPs rest forgot forgotSlotOwner s
      else
        let expected = (cn_IP cn \<in> expectedIPs);
            staleGhost = (expected \<and> isConfirmedFail (cn_Flags cn))
        in if expected \<and> \<not> staleGhost
           then heal_forget_loop E nodes password ephemeral clusterNodes expectedIPs rest forgot forgotSlotOwner s
           else
             let ownsSlots = (0 < CountSlotsFromRanges (cn_Slots cn))
             in if ownsSlots then
                  do { (promoted, s) \<leftarrow> promoteReplicaOfDeadMaster E clusterNodes expectedIPs password (cn_ID cn) s;
                       if promoted
                       then heal_forget_loop E nodes password ephemeral clusterNodes expectedIPs rest True forgotSlotOwner s
                       else if \<not> ephemeral
                       then heal_forget_loop E nodes password ephemeral clusterNodes expectedIPs rest forgot forgotSlotOwner s
                       else do { (u, s) \<leftarrow> forgetFromAllPeers E nodes password (cn_ID cn) s;
                                 heal_forget_loop E nodes password ephemeral clusterNodes expectedIPs rest True True s } }
                else do { (u, s) \<leftarrow> forgetFromAllPeers E nodes password (cn_ID cn) s;
                          heal_forget_loop E nodes password ephemeral clusterNodes expectedIPs rest True forgotSlotOwner s })"

fun heal_meet_loop ::
  "env \<Rightarrow> health_node list \<Rightarrow> string \<Rightarrow> string set \<Rightarrow> health_node list \<Rightarrow> bool \<Rightarrow> st \<Rightarrow> bool op" where
  "heal_meet_loop E nodes password clusterIPs [] met s = Some (met, s)"
| "heal_meet_loop E nodes password clusterIPs (n # rest) met s =
     (if extractIP (hn_Addr n) \<in> clusterIPs then heal_meet_loop E nodes password clusterIPs rest met s
      else do { (u, s) \<leftarrow> meetFromAllPeers E nodes clusterIPs password (extractIP (hn_Addr n)) s;
                heal_meet_loop E nodes password clusterIPs rest True s })"

text \<open>\<open>clusterFix\<close> bounds the run by a timeout, which shows only as the context's error.\<close>

definition hr_clusterFix :: "env \<Rightarrow> client \<Rightarrow> st \<Rightarrow> err option op" where
  "hr_clusterFix E seed s =
     do { (r, s) \<leftarrow> ClusterFix E seed s;
          Some (case r of Inl e \<Rightarrow> Some (wrap ''cluster fix'' e) | Inr _ \<Rightarrow> None, s) }"

definition HealMembership ::
  "env \<Rightarrow> health_node list \<Rightarrow> string \<Rightarrow> bool \<Rightarrow> bool \<Rightarrow> st \<Rightarrow> (bool \<times> err option) op" where
  "HealMembership E nodes password meetMissing ephemeral s =
     (case nodes of
        [] \<Rightarrow> Some ((False, Some ''no nodes provided for membership healing''), s)
      | seed # _ \<Rightarrow>
          do { (r, s) \<leftarrow> GetClusterNodes E (hn_Addr seed, password) s;
               case r of
                 Inl e \<Rightarrow> Some ((False, Some (wrap (''getting cluster nodes from seed '' @ hn_Addr seed) e)), s)
               | Inr clusterNodes \<Rightarrow>
                   do { (flags, s) \<leftarrow> heal_forget_loop E nodes password ephemeral clusterNodes
                                       (set (map (\<lambda>n. extractIP (hn_Addr n)) nodes)) clusterNodes False False s;
                        (met, s) \<leftarrow> (if meetMissing then
                             (let seedIP = extractIP (hn_Addr seed);
                                  clusterIPs = set (map (\<lambda>cn. if cn_IP cn = [] then seedIP else cn_IP cn) clusterNodes)
                              in heal_meet_loop E nodes password clusterIPs nodes False s)
                           else Some (False, s));
                        (u, s) \<leftarrow> (if snd flags then hr_clusterFix E (hn_Addr seed, password) s else Some (None, s));
                        if fst flags \<or> met then
                          do { (done, s) \<leftarrow> sleep E (clusterMeetWait (run s)) s;
                               Some ((True, done), s) }
                        else Some ((False, None), s) } })"

definition remediateMembership :: "env \<Rightarrow> health_node list \<Rightarrow> string \<Rightarrow> st \<Rightarrow> err option op" where
  "remediateMembership E nodes password s =
     do { (r, s) \<leftarrow> HealMembership E nodes password True (hr_ephemeral s) s; Some (snd r, s) }"

section \<open>Slot coverage\<close>

text \<open>\<open>sort.Slice\<close> is not stable: the primaries are put in an order the environment chooses before
  they are sorted, so equal keys may end in any order.\<close>

record primary_info =
  pi_addr :: string
  pi_id :: string
  pi_numSlots :: int

definition slots_list :: "slot_range list \<Rightarrow> int list" where
  "slots_list rs = concat (map (\<lambda>r. [Start r..End r]) rs)"

fun coverage_primaries :: "cluster_node list \<Rightarrow> primary_info list \<times> slot_range list" where
  "coverage_primaries [] = ([], [])"
| "coverage_primaries (cn # rest) =
     (let (ps, assigned) = coverage_primaries rest
      in if \<not> Contains (cn_Flags cn) ''master'' then (ps, assigned)
         else if cn_IP cn = [] then (ps, assigned)
         else case ParseSlotRanges (cn_Slots cn) of
                Inl _ \<Rightarrow> (ps, assigned)
              | Inr ranges \<Rightarrow>
                  (\<lparr>pi_addr = redis_addr (cn_IP cn), pi_id = cn_ID cn, pi_numSlots = CountSlots ranges\<rparr> # ps,
                   ranges @ assigned))"

definition missing_slots :: "slot_range list \<Rightarrow> int list" where
  "missing_slots assigned =
     filter (\<lambda>s. \<not> list_ex (\<lambda>r. Start r \<le> s \<and> s \<le> End r) assigned) (map int [0..<TotalClusterSlots])"

fun slot_votes_node :: "int set \<Rightarrow> cluster_node \<Rightarrow> int list
   \<Rightarrow> (int \<times> (string \<times> int \<times> int)) list \<Rightarrow> (int \<times> (string \<times> int \<times> int)) list" where
  "slot_votes_node disputed cn [] owners = owners"
| "slot_votes_node disputed cn (slot # rest) owners =
     (if slot \<notin> disputed then slot_votes_node disputed cn rest owners
      else case map_of owners slot of
             None \<Rightarrow> slot_votes_node disputed cn rest (assoc_put slot (cn_ID cn, cn_Epoch cn, 1) owners)
           | Some (owner, epoch, votes) \<Rightarrow>
               if cn_ID cn = owner
               then slot_votes_node disputed cn rest
                      (assoc_put slot (owner, max epoch (cn_Epoch cn), votes + 1) owners)
               else if epoch < cn_Epoch cn \<or> (cn_Epoch cn = epoch \<and> 1 > votes)
               then slot_votes_node disputed cn rest (assoc_put slot (cn_ID cn, cn_Epoch cn, 1) owners)
               else slot_votes_node disputed cn rest owners)"

fun slot_votes_view :: "int set \<Rightarrow> cluster_node list
   \<Rightarrow> (int \<times> (string \<times> int \<times> int)) list \<Rightarrow> (int \<times> (string \<times> int \<times> int)) list" where
  "slot_votes_view disputed [] owners = owners"
| "slot_votes_view disputed (cn # rest) owners =
     (if \<not> Contains (cn_Flags cn) ''master'' then slot_votes_view disputed rest owners
      else case ParseSlotRanges (cn_Slots cn) of
             Inl _ \<Rightarrow> slot_votes_view disputed rest owners
           | Inr ranges \<Rightarrow> slot_votes_view disputed rest (slot_votes_node disputed cn (slots_list ranges) owners))"

fun collect_owners :: "env \<Rightarrow> string \<Rightarrow> int set \<Rightarrow> health_node list
   \<Rightarrow> (int \<times> (string \<times> int \<times> int)) list \<Rightarrow> st \<Rightarrow> (int \<times> (string \<times> int \<times> int)) list op" where
  "collect_owners E password disputed [] owners s = Some (owners, s)"
| "collect_owners E password disputed (n # rest) owners s =
     do { (r, s) \<leftarrow> GetClusterNodes E (hn_Addr n, password) s;
          case r of
            Inl _ \<Rightarrow> collect_owners E password disputed rest owners s
          | Inr view \<Rightarrow> collect_owners E password disputed rest (slot_votes_view disputed view owners) s }"

fun set_slot_nodes :: "env \<Rightarrow> client \<Rightarrow> (int \<times> string) list \<Rightarrow> st \<Rightarrow> unit op" where
  "set_slot_nodes E c [] s = Some ((), s)"
| "set_slot_nodes E c ((slot, owner) # rest) s =
     do { (e, s) \<leftarrow> ClusterSetSlotNode E c slot owner s; set_slot_nodes E c rest s }"

fun force_agreement :: "env \<Rightarrow> string \<Rightarrow> (int \<times> string) list \<Rightarrow> bool \<Rightarrow> health_node list \<Rightarrow> st \<Rightarrow> unit op" where
  "force_agreement E password fixes ranged [] s = Some ((), s)"
| "force_agreement E password fixes ranged (n # rest) s =
     do { (order, s) \<leftarrow> (if ranged then map_order E fixes s else Some (fixes, s));
          (u, s) \<leftarrow> set_slot_nodes E (hn_Addr n, password) order s;
          force_agreement E password fixes ranged rest s }"

definition resolveSlotDisagreement ::
  "env \<Rightarrow> health_node list \<Rightarrow> string \<Rightarrow> int list \<Rightarrow> st \<Rightarrow> err option op" where
  "resolveSlotDisagreement E nodes password disputedSlots s =
     do { (owners, s) \<leftarrow> collect_owners E password (set disputedSlots) nodes [] s;
          if owners = [] then Some (Some ''no owner found for disputed slots across any node'', s)
          else do { (u, s) \<leftarrow> force_agreement E password (map (\<lambda>(slot, owner, _). (slot, owner)) owners) True nodes s;
                    let trulyMissing = filter (\<lambda>x. map_of owners x = None) disputedSlots
                    in if trulyMissing = [] then Some (None, s)
                       else case nodes of
                              [] \<Rightarrow> None
                            | n # _ \<Rightarrow>
                                do { (e, s) \<leftarrow> ClusterAddSlots E (hn_Addr n, password) trulyMissing s;
                                     Some (wrapped (''assigning truly missing slots to '' @ hn_Addr n) e, s) } } }"

text \<open>The assignment loop: \<open>i\<close> counts the primaries still to come, \<open>slots\<close> are the missing slots not yet
  assigned. \<open>Some\<close> of an error ends the remediation, \<open>None\<close> goes on to the wait.\<close>

fun assign_missing_loop ::
  "env \<Rightarrow> health_node list \<Rightarrow> string \<Rightarrow> int list \<Rightarrow> int \<Rightarrow> primary_info list \<Rightarrow> int list \<Rightarrow> st \<Rightarrow> err option op" where
  "assign_missing_loop E nodes password missing slotsPerPrimary [] slots s = Some (None, s)"
| "assign_missing_loop E nodes password missing slotsPerPrimary (p # rest) slots s =
     (if slots = [] then Some (None, s)
      else
        let needed = slotsPerPrimary - pi_numSlots p
        in if needed \<le> 0 then assign_missing_loop E nodes password missing slotsPerPrimary rest slots s
           else
             let n = (if rest = [] \<or> int (length slots) < needed then length slots else nat needed);
                 slotsToAssign = take n slots
             in do { (e, s) \<leftarrow> ClusterAddSlots E (pi_addr p, password) slotsToAssign s;
                     case e of
                       Some err \<Rightarrow>
                         if Contains err ''already busy'' then
                           do { (re, s) \<leftarrow> resolveSlotDisagreement E nodes password missing s;
                                Some (wrapped ''resolving slot disagreement'' re, s) }
                         else Some (Some (wrap (''assigning slots to '' @ pi_addr p) err), s)
                     | None \<Rightarrow> assign_missing_loop E nodes password missing slotsPerPrimary rest (drop n slots) s })"

definition remediateSlotCoverage :: "env \<Rightarrow> report \<Rightarrow> health_node list \<Rightarrow> string \<Rightarrow> st \<Rightarrow> err option op" where
  "remediateSlotCoverage E rep nodes password s =
     (let (primaries, assigned) = coverage_primaries (rp_ClusterNodes rep);
          missing = missing_slots assigned
      in if primaries = [] then Some (Some ''no primaries found in cluster nodes'', s)
         else if missing = [] then Some (None, s)
         else do { (order, s) \<leftarrow> map_order E primaries s;
                   (e, s) \<leftarrow> assign_missing_loop E nodes password missing (slots_per_primary (int (length primaries)))
                              (sort_key pi_numSlots order) missing s;
                   case e of
                     Some err \<Rightarrow> Some (Some err, s)
                   | None \<Rightarrow> do { (done, s) \<leftarrow> sleep E (clusterMeetWait (run s)) s; Some (done, s) } })"

section \<open>Membership healing forgets only what may be forgotten\<close>

text \<open>What membership healing may do, given the seed's view of the cluster and the addresses of the live
  pods: it may forget a node only if the view has an entry with that identifier which is a phantom
  without address and slots, or whose address belongs to no live pod, or which is in confirmed fail;
  and on a persistent cluster only if that entry owns no slots. It may promote only replicas, on live
  pods. Otherwise it queries, meets, runs the repair and waits.\<close>

definition forgettable :: "bool \<Rightarrow> string set \<Rightarrow> cluster_node \<Rightarrow> bool" where
  "forgettable ephemeral live cn =
     ((isForgettableNoaddrGhost cn \<or> cn_IP cn \<noteq> [] \<and> (cn_IP cn \<notin> live \<or> isConfirmedFail (cn_Flags cn)))
      \<and> (ephemeral \<or> CountSlotsFromRanges (cn_Slots cn) \<le> 0))"

definition promotable :: "string set \<Rightarrow> string \<Rightarrow> cluster_node \<Rightarrow> bool" where
  "promotable live addr cn =
     (addr = redis_addr (cn_IP cn) \<and> cn_IP cn \<in> live \<and> Contains (cn_Flags cn) ''slave''
      \<and> \<not> isConfirmedFail (cn_Flags cn))"

definition healing_event :: "bool \<Rightarrow> string set \<Rightarrow> cluster_node list \<Rightarrow> event \<Rightarrow> bool" where
  "healing_event ephemeral live view e = (case e of
      Command a p c r \<Rightarrow> (case c of
          Forget i \<Rightarrow> list_ex (\<lambda>cn. cn_ID cn = i \<and> forgettable ephemeral live cn) view
        | Takeover \<Rightarrow> list_ex (promotable live a) view
        | Meet ip port \<Rightarrow> True
        | _ \<Rightarrow> False)
    | Query a p q \<Rightarrow> True
    | Cli args vars inp r \<Rightarrow> take 2 args = [''--cluster'', ''fix'']
    | Sleep d \<Rightarrow> True
    | CheckContext \<Rightarrow> True
    | ChooseOrder \<Rightarrow> True
    | _ \<Rightarrow> False)"

lemma healing_harmless [simp]:
  "healing_event eph live view (Query a p q)" "healing_event eph live view (Command a p (Meet ip port) r)"
  "healing_event eph live view (Sleep d)" "healing_event eph live view CheckContext"
  "healing_event eph live view ChooseOrder"
  by (simp_all add: healing_event_def)

lemma healing_forget:
  "cn \<in> set view \<Longrightarrow> forgettable eph live cn \<Longrightarrow> healing_event eph live view (Command a p (Forget (cn_ID cn)) r)"
  by (auto simp: healing_event_def list_ex_iff)

lemma healing_takeover:
  "cn \<in> set view \<Longrightarrow> promotable live (redis_addr (cn_IP cn)) cn \<Longrightarrow>
   healing_event eph live view (Command (redis_addr (cn_IP cn)) p Takeover r)"
  by (auto simp: healing_event_def list_ex_iff)

lemma keeps_forget_from_each:
  assumes "\<And>a r. P (Command a pw (Forget i) r)"
  shows "extends P s0 s \<Longrightarrow> keeps (extends P s0) (forget_from_each E pw i ns s)"
proof (induction ns arbitrary: s)
  case (Cons n ns)
  show ?case unfolding forget_from_each.simps by (intro keeps_intro Cons.IH; simp add: assms Cons.prems)
qed (simp add: keeps_Some)

lemma keeps_forgetFromAllPeers:
  assumes "\<And>a r. P (Command a pw (Forget i) r)" and "P ChooseOrder" and "extends P s0 s"
  shows "keeps (extends P s0) (forgetFromAllPeers E nodes pw i s)"
  unfolding forgetFromAllPeers_def by (intro keeps_intro keeps_forget_from_each; simp add: assms)

lemma keeps_meet_from_each:
  assumes "\<And>a ip port r. P (Command a pw (Meet ip port) r)"
  shows "extends P s0 s \<Longrightarrow> keeps (extends P s0) (meet_from_each E pw i ns s)"
proof (induction ns arbitrary: s)
  case (Cons n ns)
  show ?case unfolding meet_from_each.simps by (intro keeps_intro Cons.IH; simp add: assms Cons.prems)
qed (simp add: keeps_Some)

lemma keeps_meetFromAllPeers:
  assumes "\<And>a ip port r. P (Command a pw (Meet ip port) r)" and "P ChooseOrder" and "extends P s0 s"
  shows "keeps (extends P s0) (meetFromAllPeers E nodes ips pw i s)"
  unfolding meetFromAllPeers_def by (intro keeps_intro keeps_meet_from_each; simp add: assms)

lemma keeps_promote:
  "set cns \<subseteq> set view \<Longrightarrow> extends (healing_event eph live view) s0 s \<Longrightarrow>
    keeps (extends (healing_event eph live view) s0) (promoteReplicaOfDeadMaster E cns live pw i s)"
proof (induction cns arbitrary: s)
  case (Cons rn cns)
  have IH: "\<And>s. extends (healing_event eph live view) s0 s \<Longrightarrow>
      keeps (extends (healing_event eph live view) s0) (promoteReplicaOfDeadMaster E cns live pw i s)"
    using Cons by simp
  have "Contains (cn_Flags rn) ''slave'' \<Longrightarrow> \<not> isConfirmedFail (cn_Flags rn) \<Longrightarrow> cn_IP rn \<in> live \<Longrightarrow>
      healing_event eph live view (Command (redis_addr (cn_IP rn)) p Takeover r)" for p r
    using Cons.prems(1) by (intro healing_takeover) (simp_all add: promotable_def)
  then show ?case
    unfolding promoteReplicaOfDeadMaster.simps by (intro keeps_intro IH; simp add: Cons.prems(2))
qed (simp add: keeps_Some)

lemma keeps_heal_forget:
  "set cns \<subseteq> set view \<Longrightarrow> extends (healing_event eph live view) s0 s \<Longrightarrow>
    keeps (extends (healing_event eph live view) s0) (heal_forget_loop E nodes pw eph view live cns f fo s)"
proof (induction cns arbitrary: f fo s)
  case (Cons cn cns)
  have IH: "\<And>f fo s. extends (healing_event eph live view) s0 s \<Longrightarrow>
      keeps (extends (healing_event eph live view) s0) (heal_forget_loop E nodes pw eph view live cns f fo s)"
    using Cons by simp
  have forget: "forgettable eph live cn \<Longrightarrow> healing_event eph live view (Command a p (Forget (cn_ID cn)) r)" for a p r
    using Cons.prems(1) by (intro healing_forget) simp_all
  have "forgettable eph live cn"
    if "if cn_IP cn = [] then isForgettableNoaddrGhost cn
        else (cn_IP cn \<in> live \<longrightarrow> isConfirmedFail (cn_Flags cn)) \<and> (0 < CountSlotsFromRanges (cn_Slots cn) \<longrightarrow> eph)"
    using that by (auto simp: forgettable_def isForgettableNoaddrGhost_def split: if_splits)
  note fg = forget [OF this]
  show ?case
    unfolding heal_forget_loop.simps Let_def
    by (intro keeps_intro keeps_forgetFromAllPeers keeps_promote [OF subset_refl] IH fg;
        simp add: Cons.prems(2))
qed (simp add: keeps_Some)

lemma keeps_heal_meet:
  assumes "\<And>a ip port r. P (Command a pw (Meet ip port) r)" and "P ChooseOrder"
  shows "extends P s0 s \<Longrightarrow> keeps (extends P s0) (heal_meet_loop E nodes pw ips ns m s)"
proof (induction ns arbitrary: m s)
  case (Cons n ns)
  show ?case
    unfolding heal_meet_loop.simps
    by (intro keeps_intro keeps_meetFromAllPeers Cons.IH; simp add: assms Cons.prems)
qed (simp add: keeps_Some)

lemma keeps_hr_clusterFix:
  "extends (healing_event eph live view) s0 s \<Longrightarrow>
   keeps (extends (healing_event eph live view) s0) (hr_clusterFix E c s)"
  unfolding hr_clusterFix_def ClusterFix_def
  by (intro keeps_cluster_cli_ok keeps_intro; simp add: healing_event_def)

definition live_ips :: "health_node list \<Rightarrow> string set" where
  "live_ips nodes = set (map (\<lambda>n. extractIP (hn_Addr n)) nodes)"

lemma HealMembership_events:
  assumes "e_query E (hist s) (hn_Addr seed) pw QNodes = Inr text"
  shows "keeps (extends (healing_event eph (live_ips (seed # rest)) (ParseClusterNodesOutput text)) s)
    (HealMembership E (seed # rest) pw mm eph s)"
proof -
  let ?P = "healing_event eph (live_ips (seed # rest)) (ParseClusterNodesOutput text)"
  have q: "GetClusterNodes E (hn_Addr seed, pw) s =
      Some (Inr (ParseClusterNodesOutput text), log (Query (hn_Addr seed) pw QNodes) s)"
    using assms by (simp add: GetClusterNodes_def redis_query_def)
  show ?thesis
    unfolding HealMembership_def list.case q live_ips_def [symmetric] Option.bind.simps prod.case sum.case Let_def
    by (intro keeps_intro keeps_heal_forget keeps_heal_meet keeps_hr_clusterFix; simp)
qed



end
