(* ===== verification/Health_Remediation.thy ===== *)
theory Health_Remediation
  imports Health_Reconciler
begin

text \<open>
  The rest of \<open>reconciler/health_reconciler.go\<close>: the replica spread (excess primaries are demoted or
  drained, missing primaries are promoted from surplus replicas, replicas are reassigned), the repair
  of disagreements about the slots, the balance, and \<open>Reconcile\<close>, which runs the check and then the
  remediations the report asks for. The decisions - which replica goes where, who owns a disputed slot -
  are functions of the views (\<open>spread_plan\<close>, \<open>demotion_plan\<close>, \<open>disputed_fixes\<close>); the operations
  carry them out.
\<close>

section \<open>Replica spread\<close>

record replica_info =
  ri_id :: string
  ri_addr :: string
  ri_primaryID :: string

text \<open>The primaries by identifier (a Go map: a later entry overwrites the address) and the replicas.\<close>

fun classify_nodes ::
  "cluster_node list \<Rightarrow> (string \<times> string) list \<Rightarrow> (string \<times> string) list \<times> replica_info list" where
  "classify_nodes [] primaryIDs = (primaryIDs, [])"
| "classify_nodes (cn # rest) primaryIDs =
     (if cn_IP cn = [] then classify_nodes rest primaryIDs
      else if Contains (cn_Flags cn) ''master''
      then classify_nodes rest (assoc_put (cn_ID cn) (redis_addr (cn_IP cn)) primaryIDs)
      else if Contains (cn_Flags cn) ''slave''
      then let (ps, rs) = classify_nodes rest primaryIDs
           in (ps, \<lparr>ri_id = cn_ID cn, ri_addr = redis_addr (cn_IP cn), ri_primaryID = cn_Primary cn\<rparr> # rs)
      else classify_nodes rest primaryIDs)"

definition count_of :: "string \<Rightarrow> replica_info list \<Rightarrow> int" where
  "count_of i rs = int (length (filter (\<lambda>r. ri_primaryID r = i) rs))"

text \<open>The replicas beyond the desired number of their primary, and the counts that remain.\<close>

fun over_assigned :: "string set \<Rightarrow> int \<Rightarrow> (string \<Rightarrow> int) \<Rightarrow> replica_info list
   \<Rightarrow> replica_info list \<times> (string \<Rightarrow> int)" where
  "over_assigned known desired cnt [] = ([], cnt)"
| "over_assigned known desired cnt (r # rs) =
     (if ri_primaryID r \<notin> known then over_assigned known desired cnt rs
      else if cnt (ri_primaryID r) > desired
      then let (ov, c) = over_assigned known desired (cnt(ri_primaryID r := cnt (ri_primaryID r) - 1)) rs
           in (r # ov, c)
      else over_assigned known desired cnt rs)"

definition needs_replicas :: "int \<Rightarrow> (string \<Rightarrow> int) \<Rightarrow> string list \<Rightarrow> string list" where
  "needs_replicas desired cnt ids = concat (map (\<lambda>i. replicate (nat (desired - cnt i)) i) ids)"

definition spread_plan :: "string list \<Rightarrow> int \<Rightarrow> replica_info list \<Rightarrow> (replica_info \<times> string) list" where
  "spread_plan ids desired replicas =
     (let orphaned = filter (\<lambda>r. ri_primaryID r \<notin> set ids) replicas;
          (over, cnt) = over_assigned (set ids) desired (\<lambda>i. count_of i replicas) replicas
      in zip (orphaned @ over) (needs_replicas desired cnt ids))"

fun reassign :: "env \<Rightarrow> string \<Rightarrow> (replica_info \<times> string) list \<Rightarrow> st \<Rightarrow> err option op" where
  "reassign E password [] s = Some (None, s)"
| "reassign E password ((r, target) # rest) s =
     do { (e, s) \<leftarrow> ClusterReplicate E (ri_addr r, password) target s;
          case e of
            Some re \<Rightarrow> Some (Some (wrap (''replicating '' @ ri_addr r @ '' to primary '' @ target) re), s)
          | None \<Rightarrow> reassign E password rest s }"

section \<open>Excess primaries\<close>

record primary_node =
  pn_id :: string
  pn_addr :: string
  pn_slots :: int

definition primary_slots :: "cluster_node \<Rightarrow> int" where
  "primary_slots cn = (case ParseSlotRanges (cn_Slots cn) of Inl _ \<Rightarrow> 0 | Inr parsed \<Rightarrow> CountSlots parsed)"

definition empty_primary :: "cluster_node \<Rightarrow> bool" where
  "empty_primary cn = (\<not> Contains (cn_Slots cn) ''['' \<and> \<not> 0 < primary_slots cn)"

definition node_of :: "cluster_node \<Rightarrow> primary_node" where
  "node_of cn = \<lparr>pn_id = cn_ID cn, pn_addr = redis_addr (cn_IP cn),
     pn_slots = (if Contains (cn_Slots cn) ''['' then 0 else primary_slots cn)\<rparr>"

definition addressed_primaries :: "cluster_node list \<Rightarrow> cluster_node list" where
  "addressed_primaries = filter (\<lambda>cn. \<not> (cn_IP cn = [] \<or> \<not> Contains (cn_Flags cn) ''master''))"

definition emptyPrimaries :: "cluster_node list \<Rightarrow> primary_node list" where
  "emptyPrimaries nodes = map node_of (filter empty_primary (addressed_primaries nodes))"

definition nonEmptyPrimaries :: "cluster_node list \<Rightarrow> primary_node list" where
  "nonEmptyPrimaries nodes = map node_of (filter (\<lambda>cn. \<not> empty_primary cn) (addressed_primaries nodes))"

definition demotion_plan ::
  "primary_node list \<Rightarrow> string list \<Rightarrow> int \<Rightarrow> int \<Rightarrow> replica_info list \<Rightarrow> (primary_node \<times> string) list" where
  "demotion_plan empties ids excess desired replicas =
     zip (take (nat excess) empties)
       (needs_replicas desired (\<lambda>i. count_of i replicas) (filter (\<lambda>i. i \<notin> pn_id ` set empties) ids))"

fun demote :: "env \<Rightarrow> string \<Rightarrow> (primary_node \<times> string) list \<Rightarrow> st \<Rightarrow> err option op" where
  "demote E password [] s = Some (None, s)"
| "demote E password ((ep, target) # rest) s =
     do { (e, s) \<leftarrow> ClusterReplicate E (pn_addr ep, password) target s;
          case e of
            Some re \<Rightarrow> Some (Some (wrap (''demoting '' @ pn_addr ep @ '' to replica of '' @ target) re), s)
          | None \<Rightarrow> demote E password rest s }"

text \<open>The rebalance timeout shows only as an error of the context.\<close>

definition drainPrimaries :: "env \<Rightarrow> string \<Rightarrow> string \<Rightarrow> string list \<Rightarrow> st \<Rightarrow> err option op" where
  "drainPrimaries E seedAddr password drainIDs s =
     do { (r, s) \<leftarrow> ClusterRebalanceWithWeights E (seedAddr, password) (map (\<lambda>i. (i, 0)) (remdups drainIDs)) s;
          Some (case r of Inl e \<Rightarrow> Some (wrap (''weight-0 rebalance from '' @ seedAddr) e) | Inr _ \<Rightarrow> None, s) }"

definition remediateExcessPrimaries ::
  "env \<Rightarrow> cluster_node list \<Rightarrow> (string \<times> string) list \<Rightarrow> replica_info list \<Rightarrow> string \<Rightarrow> int \<Rightarrow> int
   \<Rightarrow> st \<Rightarrow> (bool \<times> err option) op" where
  "remediateExcessPrimaries E nodes primaryIDs replicas password desiredPrimaries desiredReplicas s =
     (let excess = int (length primaryIDs) - desiredPrimaries
      in if excess \<le> 0 then Some ((False, None), s)
         else
           let empties = emptyPrimaries nodes
           in if empties \<noteq> [] then
                do { (order, s) \<leftarrow> map_order E primaryIDs s;
                     let plan = demotion_plan empties (map fst order) excess desiredReplicas replicas
                     in do { (e, s) \<leftarrow> demote E password plan s;
                             case e of
                               Some err \<Rightarrow> Some ((False, Some err), s)
                             | None \<Rightarrow> Some ((plan \<noteq> [], None), s) } }
              else
                do { (candidates, s) \<leftarrow> map_order E (nonEmptyPrimaries nodes) s;
                     let drainCount = min excess (int (length candidates) - 1)
                     in if drainCount \<le> 0 then Some ((False, None), s)
                        else
                          let drainIDs = map pn_id (take (nat drainCount) (sort_key pn_slots candidates))
                          in do { (order, s) \<leftarrow> map_order E primaryIDs s;
                                  case find (\<lambda>(i, addr). i \<notin> set drainIDs) order of
                                    None \<Rightarrow> Some ((False, Some ''no keeper primary available to seed drain rebalance''), s)
                                  | Some (i, seedAddr) \<Rightarrow>
                                      if seedAddr = []
                                      then Some ((False, Some ''no keeper primary available to seed drain rebalance''), s)
                                      else
                                      do { (e, s) \<leftarrow> drainPrimaries E seedAddr password drainIDs s;
                                           case e of
                                             Some err \<Rightarrow> Some ((False, Some (wrap ''draining surplus primaries'' err)), s)
                                           | None \<Rightarrow> Some ((True, None), s) } } })"

section \<open>Too few primaries\<close>

fun reset_each :: "env \<Rightarrow> string \<Rightarrow> replica_info list \<Rightarrow> st \<Rightarrow> err option op" where
  "reset_each E password [] s = Some (None, s)"
| "reset_each E password (r # rest) s =
     do { (e, s) \<leftarrow> ClusterReset E (ri_addr r, password) False s;
          case e of
            Some re \<Rightarrow> Some (Some (wrap (''resetting replica '' @ ri_addr r @ '' to empty primary'') re), s)
          | None \<Rightarrow> reset_each E password rest s }"

fun meet_target :: "env \<Rightarrow> string \<Rightarrow> string set \<Rightarrow> string \<Rightarrow> health_node list \<Rightarrow> st \<Rightarrow> unit op" where
  "meet_target E password resetIPs targetIP [] s = Some ((), s)"
| "meet_target E password resetIPs targetIP (n # rest) s =
     (let peerIP = extractIP (hn_Addr n)
      in if peerIP = [] \<or> peerIP \<in> resetIPs then meet_target E password resetIPs targetIP rest s
         else do { (e, s) \<leftarrow> ClusterMeet E (hn_Addr n, password) targetIP DefaultPort s;
                   meet_target E password resetIPs targetIP rest s })"

fun meet_each_reset ::
  "env \<Rightarrow> string \<Rightarrow> string set \<Rightarrow> health_node list \<Rightarrow> replica_info list \<Rightarrow> st \<Rightarrow> unit op" where
  "meet_each_reset E password resetIPs nodes [] s = Some ((), s)"
| "meet_each_reset E password resetIPs nodes (r # rest) s =
     do { (u, s) \<leftarrow> meet_target E password resetIPs (extractIP (ri_addr r)) nodes s;
          meet_each_reset E password resetIPs nodes rest s }"

definition meetResetReplicas ::
  "env \<Rightarrow> replica_info list \<Rightarrow> health_node list \<Rightarrow> string \<Rightarrow> st \<Rightarrow> unit op" where
  "meetResetReplicas E resetNodes nodes password s =
     meet_each_reset E password (set (map (\<lambda>r. extractIP (ri_addr r)) resetNodes)) nodes resetNodes s"

definition remediatePrimaryDeficit ::
  "env \<Rightarrow> (string \<times> string) list \<Rightarrow> replica_info list \<Rightarrow> health_node list \<Rightarrow> string \<Rightarrow> int \<Rightarrow> int
   \<Rightarrow> st \<Rightarrow> (bool \<times> err option) op" where
  "remediatePrimaryDeficit E primaryIDs replicas nodes password desiredPrimaries desiredReplicas s =
     (let deficit = desiredPrimaries - int (length primaryIDs);
          surplus = int (length replicas) - desiredPrimaries * desiredReplicas
      in if surplus \<le> 0 then Some ((False, None), s)
         else
           let promoted = take (nat (min deficit surplus)) replicas
           in do { (e, s) \<leftarrow> reset_each E password promoted s;
                   case e of
                     Some err \<Rightarrow> Some ((False, Some err), s)
                   | None \<Rightarrow>
                       if promoted = [] then Some ((False, None), s)
                       else do { (u, s) \<leftarrow> meetResetReplicas E promoted nodes password s;
                                 (done, s) \<leftarrow> sleep E (clusterMeetWait (run s)) s;
                                 case done of
                                   Some err \<Rightarrow> Some ((False, Some err), s)
                                 | None \<Rightarrow> Some ((True, None), s) } })"

definition remediateReplicaSpread ::
  "env \<Rightarrow> cluster_node list \<Rightarrow> health_node list \<Rightarrow> string \<Rightarrow> int \<Rightarrow> int \<Rightarrow> st \<Rightarrow> (bool \<times> err option) op" where
  "remediateReplicaSpread E clusterNodes nodes password desiredPrimaries desiredReplicas s =
     (let (primaryIDs, replicas) = classify_nodes clusterNodes []
      in if int (length primaryIDs) \<noteq> desiredPrimaries then
           if int (length primaryIDs) > desiredPrimaries
           then remediateExcessPrimaries E clusterNodes primaryIDs replicas password desiredPrimaries desiredReplicas s
           else remediatePrimaryDeficit E primaryIDs replicas nodes password desiredPrimaries desiredReplicas s
         else do { (order, s) \<leftarrow> map_order E primaryIDs s;
                   (e, s) \<leftarrow> reassign E password (spread_plan (map fst order) desiredReplicas replicas) s;
                   Some ((False, e), s) })"

text \<open>The view of the first node that answers with a non-empty one.\<close>

fun first_view :: "env \<Rightarrow> string \<Rightarrow> health_node list \<Rightarrow> st \<Rightarrow> cluster_node list op" where
  "first_view E password [] s = Some ([], s)"
| "first_view E password (n # rest) s =
     do { (r, s) \<leftarrow> GetClusterNodes E (hn_Addr n, password) s;
          case r of
            Inl _ \<Rightarrow> first_view E password rest s
          | Inr cn \<Rightarrow> if cn \<noteq> [] then Some (cn, s) else first_view E password rest s }"

definition RemediateReplicaTopology ::
  "env \<Rightarrow> health_node list \<Rightarrow> string \<Rightarrow> int \<Rightarrow> int \<Rightarrow> st \<Rightarrow> (bool \<times> bool \<times> err option) op" where
  "RemediateReplicaTopology E nodes password desiredPrimaries desiredReplicas s =
     (if nodes = [] then Some ((False, False, Some ''no nodes provided for replica topology check''), s)
      else do { (clusterNodes, s) \<leftarrow> first_view E password nodes s;
                if clusterNodes = []
                then Some ((False, False, Some ''no reachable node to read cluster topology''), s)
                else if replicaSpreadOK clusterNodes desiredPrimaries desiredReplicas
                then Some ((True, False, None), s)
                else do { (r, s) \<leftarrow> remediateReplicaSpread E clusterNodes nodes password desiredPrimaries desiredReplicas s;
                          Some ((False, fst r, snd r), s) } })"

section \<open>Disagreement about slot owners\<close>

text \<open>The candidates for one slot: identifier, epoch and votes.\<close>

fun add_vote :: "string \<Rightarrow> int \<Rightarrow> (string \<times> int \<times> int) list \<Rightarrow> (string \<times> int \<times> int) list" where
  "add_vote i epoch [] = [(i, epoch, 1)]"
| "add_vote i epoch ((i', ep, votes) # cs) =
     (if i = i' then (i', max ep epoch, votes + 1) # cs else (i', ep, votes) # add_vote i epoch cs)"

fun add_votes :: "nat \<Rightarrow> string \<Rightarrow> int \<Rightarrow> (string \<times> int \<times> int) list \<Rightarrow> (string \<times> int \<times> int) list" where
  "add_votes 0 i epoch cs = cs"
| "add_votes (Suc n) i epoch cs = add_votes n i epoch (add_vote i epoch cs)"

text \<open>How often the ranges of a node contain the slot: each occurrence is a vote.\<close>

definition claims_slot :: "int \<Rightarrow> cluster_node \<Rightarrow> nat" where
  "claims_slot slot cn =
     (if \<not> Contains (cn_Flags cn) ''master'' then 0
      else case ParseSlotRanges (cn_Slots cn) of
             Inl _ \<Rightarrow> 0
           | Inr ranges \<Rightarrow> length (filter (\<lambda>r. Start r \<le> slot \<and> slot \<le> End r) ranges))"

fun slot_candidates :: "int \<Rightarrow> cluster_node list \<Rightarrow> (string \<times> int \<times> int) list \<Rightarrow> (string \<times> int \<times> int) list" where
  "slot_candidates slot [] cs = cs"
| "slot_candidates slot (cn # rest) cs =
     slot_candidates slot rest (add_votes (claims_slot slot cn) (cn_ID cn) (cn_Epoch cn) cs)"

fun best_candidate :: "(string \<times> int \<times> int) option \<Rightarrow> (string \<times> int \<times> int) list \<Rightarrow> (string \<times> int \<times> int) option" where
  "best_candidate best [] = best"
| "best_candidate best ((i, epoch, votes) # cs) =
     best_candidate
       (case best of
          None \<Rightarrow> Some (i, epoch, votes)
        | Some (bi, be, bv) \<Rightarrow>
            if epoch > be \<or> (epoch = be \<and> votes > bv) then Some (i, epoch, votes) else Some (bi, be, bv)) cs"

fun disputed_fixes :: "env \<Rightarrow> cluster_node list \<Rightarrow> int list \<Rightarrow> st \<Rightarrow> (int \<times> string) list op" where
  "disputed_fixes E views [] s = Some ([], s)"
| "disputed_fixes E views (slot # rest) s =
     (let candidates = slot_candidates slot views []
      in if length candidates \<le> 1 then disputed_fixes E views rest s
         else do { (order, s) \<leftarrow> map_order E candidates s;
                   (fixes, s) \<leftarrow> disputed_fixes E views rest s;
                   Some (case best_candidate None order of
                           None \<Rightarrow> fixes
                         | Some (i, _, _) \<Rightarrow> (slot, i) # fixes, s) })"

fun query_views :: "env \<Rightarrow> string \<Rightarrow> health_node list \<Rightarrow> st \<Rightarrow> cluster_node list list op" where
  "query_views E password [] s = Some ([], s)"
| "query_views E password (n # rest) s =
     do { (r, s) \<leftarrow> GetClusterNodes E (hn_Addr n, password) s;
          (views, s) \<leftarrow> query_views E password rest s;
          Some (case r of Inl _ \<Rightarrow> views | Inr v \<Rightarrow> v # views, s) }"

definition resolveConfigDisagreement :: "env \<Rightarrow> health_node list \<Rightarrow> string \<Rightarrow> st \<Rightarrow> err option op" where
  "resolveConfigDisagreement E nodes password s =
     (if length nodes < 2 then Some (Some ''need at least 2 nodes to resolve disagreement'', s)
      else do { (views, s) \<leftarrow> query_views E password nodes s;
                if length views < 2
                then Some (Some ''could not query enough nodes for disagreement resolution'', s)
                else do { (fixes, s) \<leftarrow> disputed_fixes E (concat views) (map int [0..<TotalClusterSlots]) s;
                          if fixes = []
                          then Some (Some ''no disputed slots found, cannot resolve disagreement'', s)
                          else do { (u, s) \<leftarrow> force_agreement E password fixes False nodes s; Some (None, s) } } })"

section \<open>Cluster check and balance\<close>

fun fix_first :: "env \<Rightarrow> string \<Rightarrow> health_node list \<Rightarrow> err option \<Rightarrow> st \<Rightarrow> (bool \<times> err option) op" where
  "fix_first E password [] lastErr s = Some ((False, lastErr), s)"
| "fix_first E password (n # rest) lastErr s =
     do { (r, s) \<leftarrow> ClusterFix E (hn_Addr n, password) s;
          case r of
            Inr _ \<Rightarrow> Some ((True, None), s)
          | Inl e \<Rightarrow> fix_first E password rest (Some e) s }"

definition remediateClusterCheck :: "env \<Rightarrow> health_node list \<Rightarrow> string \<Rightarrow> st \<Rightarrow> err option op" where
  "remediateClusterCheck E nodes password s =
     (if nodes = [] then Some (Some ''no nodes available for cluster fix'', s)
      else do { (r, s) \<leftarrow> fix_first E password nodes None s;
                if fst r then Some (None, s)
                else do { (e, s) \<leftarrow> resolveConfigDisagreement E nodes password s;
                          Some (if e \<noteq> None
                                then wrapped (''cluster fix failed on all '' @ Itoa (int (length nodes)) @ '' nodes'') (snd r)
                                else None, s) } })"

definition remediateBalance :: "env \<Rightarrow> health_node list \<Rightarrow> string \<Rightarrow> st \<Rightarrow> err option op" where
  "remediateBalance E nodes password s =
     (case nodes of
        [] \<Rightarrow> Some (Some ''no nodes available for cluster rebalance'', s)
      | n # _ \<Rightarrow>
          do { (r, s) \<leftarrow> ClusterRebalance E (hn_Addr n, password) s;
               Some (case r of Inl e \<Rightarrow> Some (wrap (''redis-cli --cluster rebalance on '' @ hn_Addr n) e)
                     | Inr _ \<Rightarrow> None, s) })"

section \<open>Reconcile\<close>

datatype reconcileSchedule = reconcileAfterInterval | reconcileImmediately | reconcileAfterWaitInterval

definition SetEphemeral :: "bool \<Rightarrow> st \<Rightarrow> st" where
  "SetEphemeral b s = s\<lparr>hr_ephemeral := b\<rparr>"

text \<open>The checker never returns a nil report: \<open>Check\<close> starts from an allocated one.\<close>

definition remediate_rest ::
  "env \<Rightarrow> report \<Rightarrow> health_node list \<Rightarrow> string \<Rightarrow> st \<Rightarrow> (reconcileSchedule \<times> err option) op" where
  "remediate_rest E rep nodes password s =
     do { (e, s) \<leftarrow> (if rp_ClusterCheckOK rep then Some (None, s) else remediateClusterCheck E nodes password s);
          if e \<noteq> None then Some ((reconcileAfterWaitInterval, e), s)
          else do { (e, s) \<leftarrow> (if rp_BalancedOK rep then Some (None, s) else remediateBalance E nodes password s);
                    Some ((reconcileAfterWaitInterval, e), s) } }"

definition hr_Reconcile ::
  "env \<Rightarrow> health_node list \<Rightarrow> string \<Rightarrow> int \<Rightarrow> int \<Rightarrow> st \<Rightarrow> (reconcileSchedule \<times> err option) op" where
  "hr_Reconcile E nodes password desiredPrimaries desiredReplicas s =
     (let s = s\<lparr>hr_lastReport := None\<rparr>
      in if nodes = [] then Some ((reconcileAfterInterval, Some ''no nodes provided for health reconciliation''), s)
         else
           do { (r, s) \<leftarrow> Check E nodes password desiredPrimaries desiredReplicas s;
                let rep = fst r; s = s\<lparr>hr_lastReport := Some rep\<rparr>
                in if rp_Healthy rep then Some ((reconcileAfterInterval, None), s)
                   else if \<not> rp_MembershipOK rep then
                     do { (e, s) \<leftarrow> remediateMembership E nodes password s;
                          Some ((reconcileAfterWaitInterval, e), s) }
                   else
                     do { (e, s) \<leftarrow> (if rp_SlotsCoveredOK rep then Some (None, s)
                                     else remediateSlotCoverage E rep nodes password s);
                          if e \<noteq> None then Some ((reconcileAfterWaitInterval, e), s)
                          else if rp_ReplicaSpreadOK rep then remediate_rest E rep nodes password s
                          else do { (r, s) \<leftarrow> remediateReplicaSpread E (rp_ClusterNodes rep) nodes password
                                                desiredPrimaries desiredReplicas s;
                                    if snd r \<noteq> None then Some ((reconcileAfterWaitInterval, snd r), s)
                                    else if fst r then Some ((reconcileAfterWaitInterval, None), s)
                                    else remediate_rest E rep nodes password s } } })"

definition hr_Check :: "env \<Rightarrow> health_node list \<Rightarrow> string \<Rightarrow> int \<Rightarrow> int \<Rightarrow> st \<Rightarrow> report option op" where
  "hr_Check E nodes password desiredPrimaries desiredReplicas s =
     (let s = s\<lparr>hr_lastReport := None\<rparr>
      in if nodes = [] then Some (None, s)
         else do { (r, s) \<leftarrow> Check E nodes password desiredPrimaries desiredReplicas s;
                   Some (Some (fst r), s\<lparr>hr_lastReport := Some (fst r)\<rparr>) })"

section \<open>Missing slots are assigned exactly once\<close>

definition assigned_by :: "event \<Rightarrow> int list" where
  "assigned_by e = (case e of
      Command a p c r \<Rightarrow> (case c of AddSlots sl \<Rightarrow> if r = None then sl else [] | _ \<Rightarrow> [])
    | _ \<Rightarrow> [])"

lemma assigned_by_simps [simp]:
  "assigned_by (Command a p (AddSlots sl) None) = sl" "assigned_by (Sleep d) = []" "assigned_by ChooseOrder = []"
  by (simp_all add: assigned_by_def)

lemma assign_missing_loop_all:
  assumes accept: "\<And>h a sl. e_redis E h a pw (AddSlots sl) = None"
  shows "int (length slots) \<le> (\<Sum>p\<leftarrow>ps. max 0 (q - pi_numSlots p)) \<Longrightarrow>
    \<exists>s' es. assign_missing_loop E nodes pw missing q ps slots s = Some (None, s')
      \<and> run s' = run s \<and> hist s' = es @ hist s \<and> concat (map assigned_by (rev es)) = slots"
proof (induction ps arbitrary: slots s)
  case (Cons p ps)
  let ?need = "q - pi_numSlots p"
  show ?case
  proof (cases "slots = [] \<or> ?need \<le> 0")
    case True
    then show ?thesis using Cons by auto
  next
    case False
    define n where "n = (if ps = [] \<or> int (length slots) < ?need then length slots else nat ?need)"
    let ?s1 = "log (Command (pi_addr p) pw (AddSlots (take n slots)) None) s"
    have nonneg: "0 \<le> (\<Sum>p\<leftarrow>ps. max 0 (q - pi_numSlots p))" by (rule sum_list_nonneg) auto
    have step: "assign_missing_loop E nodes pw missing q (p # ps) slots s
        = assign_missing_loop E nodes pw missing q ps (drop n slots) ?s1"
      using False
      by (simp add: n_def [symmetric] ClusterAddSlots_def command_def redis_do_def wrapped_def accept Let_def)
    have "int (length (drop n slots)) \<le> (\<Sum>p\<leftarrow>ps. max 0 (q - pi_numSlots p))"
      using Cons.prems False nonneg by (auto simp: n_def)
    from Cons.IH [OF this] obtain s' es where
      es: "assign_missing_loop E nodes pw missing q ps (drop n slots) ?s1 = Some (None, s')"
      "run s' = run s" "hist s' = es @ hist ?s1" "concat (map assigned_by (rev es)) = drop n slots"
      by (metis log_fields(2))
    then show ?thesis
      unfolding step
      by (intro exI [of _ s'] exI [of _ "es @ [Command (pi_addr p) pw (AddSlots (take n slots)) None]"]) simp
  qed
qed simp

lemma coverage_primaries_parsed:
  "coverage_primaries nodes = (ps, assigned) \<Longrightarrow>
   \<exists>pss. assigned = concat pss \<and> map pi_numSlots ps = map CountSlots pss \<and> list_all (list_all valid_range) pss"
proof (induction nodes arbitrary: ps assigned)
  case (Cons n nodes)
  obtain ps' as' where rec: "coverage_primaries nodes = (ps', as')" by fastforce
  from Cons.IH [OF rec] obtain pss where pss: "as' = concat pss" "map pi_numSlots ps' = map CountSlots pss"
    "list_all (list_all valid_range) pss" by blast
  show ?case
  proof (cases "Contains (cn_Flags n) ''master'' \<and> cn_IP n \<noteq> [] \<and> (\<exists>rs. ParseSlotRanges (cn_Slots n) = Inr rs)")
    case True
    then obtain rs where rs: "ParseSlotRanges (cn_Slots n) = Inr rs" by blast
    have "list_all valid_range rs" using ParseSlotRanges_valid [OF rs] by (simp add: list_all_iff)
    then show ?thesis using Cons.prems True rec rs pss by (intro exI [of _ "rs # pss"]) auto
  next
    case False
    then have "coverage_primaries (n # nodes) = (ps', as')"
      using rec by (auto split: sum.splits)
    then show ?thesis using Cons.prems pss by auto
  qed
qed simp

definition claimed_once :: "slot_range list \<Rightarrow> bool" where
  "claimed_once rs = (\<forall>s. times_covered s rs \<le> (if 0 \<le> s \<and> s < clusterTotalSlots then 1 else 0))"

lemma claimed_once_bound: "claimed_once rs \<Longrightarrow> times_covered s rs \<le> (if 0 \<le> s \<and> s < clusterTotalSlots then 1 else 0)"
  unfolding claimed_once_def by (rule spec)

lemma length_missing_slots:
  assumes "claimed_once rs"
  shows "int (length (missing_slots rs)) = (\<Sum>s = 0..<clusterTotalSlots. 1 - int (times_covered s rs))"
proof -
  have "int (length (filter (\<lambda>x. \<not> list_ex (\<lambda>r. Start r \<le> x \<and> x \<le> End r) rs) (map int [0..<n]))) =
      (\<Sum>s = 0..<int n. 1 - int (times_covered s rs))" for n
  proof (induction n)
    case (Suc n)
    have "times_covered (int n) rs \<le> 1"
      using claimed_once_bound [OF assms, of "int n"] by (simp split: if_splits)
    moreover have "times_covered (int n) rs \<noteq> 0 \<longleftrightarrow> list_ex (\<lambda>r. Start r \<le> int n \<and> int n \<le> End r) rs"
      unfolding times_covered_pos by (auto simp: list_ex_iff slots_of_def)
    ultimately have "int (times_covered (int n) rs) = (if list_ex (\<lambda>r. Start r \<le> int n \<and> int n \<le> End r) rs then 1 else 0)"
      by (cases "times_covered (int n) rs") auto
    moreover have "{0..<int (Suc n)} = insert (int n) {0..<int n}" by auto
    ultimately show ?case using Suc by simp
  qed simp
  from this [of "nat clusterTotalSlots"]
  show ?thesis unfolding missing_slots_def by (simp add: TotalClusterSlots_def clusterTotalSlots_def)
qed

lemma enough_room:
  assumes cov: "coverage_primaries nodes = (ps, assigned)" and once: "claimed_once assigned" and ne: "ps \<noteq> []"
  shows "int (length (missing_slots assigned))
    \<le> (\<Sum>p\<leftarrow>ps. max 0 (slots_per_primary (int (length ps)) - pi_numSlots p))"
proof -
  let ?q = "slots_per_primary (int (length ps))"
  obtain pss where pss: "assigned = concat pss" "map pi_numSlots ps = map CountSlots pss" "list_all (list_all valid_range) pss"
    using coverage_primaries_parsed [OF cov] by blast
  have valid: "\<forall>r\<in>set assigned. valid_range r" using pss by (auto simp: list_all_iff)
  have inside: "slots_of_all assigned \<subseteq> {0..<clusterTotalSlots}"
  proof
    fix s assume "s \<in> slots_of_all assigned"
    then have "times_covered s assigned \<noteq> 0" unfolding times_covered_pos by (simp add: slots_of_all_def)
    then show "s \<in> {0..<clusterTotalSlots}" using claimed_once_bound [OF once, of s] by (simp split: if_splits)
  qed
  have tot: "(\<Sum>r\<leftarrow>assigned. int (card (slots_of r))) = (\<Sum>s = 0..<clusterTotalSlots. int (times_covered s assigned))"
    by (rule sum_times_covered [OF _ inside valid]) simp
  also have "\<dots> \<le> (\<Sum>s = 0..<clusterTotalSlots. 1)"
    using claimed_once_bound [OF once] by (intro sum_mono) (metis atLeastLessThan_iff of_nat_1 of_nat_le_iff)
  finally have le: "(\<Sum>r\<leftarrow>assigned. int (card (slots_of r))) \<le> clusterTotalSlots" by (simp add: clusterTotalSlots_def)
  have each: "CountSlots p = (\<Sum>r\<leftarrow>p. int (card (slots_of r)))" if "p \<in> set pss" for p
  proof -
    have nn: "0 \<le> (\<Sum>r\<leftarrow>xs. int (card (slots_of r)))" for xs by (induction xs) simp_all
    have v: "\<forall>r\<in>set p. valid_range r" using valid that by (auto simp: pss(1))
    have "(\<Sum>r\<leftarrow>p. int (card (slots_of r))) \<le> (\<Sum>r\<leftarrow>assigned. int (card (slots_of r)))"
      using split_list [OF that] nn by (auto simp: pss(1) intro!: add_nonneg_nonneg)
    then show ?thesis
      using le nn [of p] by (subst CountSlots_card [OF v], subst i64_id)
        (simp_all add: minInt64_def maxInt64_def clusterTotalSlots_def)
  qed
  have "(\<Sum>p\<leftarrow>ps. pi_numSlots p) = (\<Sum>p\<leftarrow>pss. CountSlots p)" by (metis pss(2))
  also have "\<dots> = (\<Sum>p\<leftarrow>pss. \<Sum>r\<leftarrow>p. int (card (slots_of r)))" by (intro arg_cong [of _ _ sum_list] map_cong refl each)
  also have "\<dots> = (\<Sum>r\<leftarrow>assigned. int (card (slots_of r)))" unfolding pss(1) by (induction pss) simp_all
  finally have counts: "(\<Sum>p\<leftarrow>ps. pi_numSlots p) = (\<Sum>s = 0..<clusterTotalSlots. int (times_covered s assigned))"
    using tot by simp
  have "clusterTotalSlots \<le> int (length ps) * ?q"
  proof -
    have "0 < int (length ps)" using ne by simp
    then have "clusterTotalSlots + int (length ps) - 1 - (clusterTotalSlots + int (length ps) - 1) mod int (length ps)
        = int (length ps) * ?q" "(clusterTotalSlots + int (length ps) - 1) mod int (length ps) < int (length ps)"
      by (simp_all add: slots_per_primary_def minus_mod_eq_mult_div)
    then show ?thesis by linarith
  qed
  then have "int (length (missing_slots assigned)) \<le> int (length ps) * ?q - (\<Sum>p\<leftarrow>ps. pi_numSlots p)"
    unfolding length_missing_slots [OF once] counts by (simp add: sum_subtractf clusterTotalSlots_def)
  also have "\<dots> = (\<Sum>p\<leftarrow>ps. ?q - pi_numSlots p)"
    by (simp add: sum_list_subtractf sum_list_triv)
  also have "\<dots> \<le> (\<Sum>p\<leftarrow>ps. max 0 (?q - pi_numSlots p))" by (rule sum_list_mono) simp
  finally show ?thesis .
qed


section \<open>Reassigning replicas restores the desired spread\<close>

lemma count_of_simps [simp]:
  "count_of i [] = 0"
  "count_of i (r # rs) = (if ri_primaryID r = i then 1 else 0) + count_of i rs"
  "count_of i (xs @ ys) = count_of i xs + count_of i ys"
  by (simp_all add: count_of_def)

lemma count_of_nonneg: "0 \<le> count_of i rs"
  by (simp add: count_of_def)

lemma count_of_mset: "count_of i rs = int (size (filter_mset (\<lambda>r. ri_primaryID r = i) (mset rs)))"
  unfolding count_of_def mset_filter [symmetric] size_mset ..

lemma over_assigned_spec:
  assumes "over_assigned known d cnt rs = (ov, c)" and "0 \<le> d"
  shows "mset ov \<subseteq># mset (filter (\<lambda>r. ri_primaryID r \<in> known) rs)"
    and "c i = cnt i - count_of i ov"
    and "i \<in> known \<Longrightarrow> c i = (if cnt i > d then max d (cnt i - count_of i rs) else cnt i)"
proof -
  have "mset ov \<subseteq># mset (filter (\<lambda>r. ri_primaryID r \<in> known) rs)
      \<and> c i = cnt i - count_of i ov
      \<and> (i \<in> known \<longrightarrow> c i = (if cnt i > d then max d (cnt i - count_of i rs) else cnt i))"
    using assms(1)
  proof (induction rs arbitrary: cnt ov c)
    case (Cons r rs)
    let ?p = "ri_primaryID r"
    consider "?p \<notin> known" | "?p \<in> known" "cnt ?p > d" | "?p \<in> known" "\<not> cnt ?p > d" by blast
    then show ?case
    proof cases
      case 1
      then show ?thesis using Cons.IH [of cnt ov c] Cons.prems by auto
    next
      case 2
      obtain ov' where ov': "over_assigned known d (cnt(?p := cnt ?p - 1)) rs = (ov', c)" "ov = r # ov'"
        using Cons.prems 2 by (auto split: prod.splits)
      show ?thesis
        using Cons.IH [OF ov'(1)] 2 ov'(2) assms(2) count_of_nonneg [of i rs] by (auto split: if_splits)
    next
      case 3
      have "mset ov \<subseteq># mset (filter (\<lambda>r. ri_primaryID r \<in> known) rs) \<Longrightarrow>
          mset ov \<subseteq># add_mset r (mset (filter (\<lambda>r. ri_primaryID r \<in> known) rs))"
        by (metis add_mset_add_single mset_subset_eq_add_left subset_mset.order_trans)
      then show ?thesis using Cons.IH [of cnt ov c] Cons.prems 3 by auto
    qed
  qed simp
  then show "mset ov \<subseteq># mset (filter (\<lambda>r. ri_primaryID r \<in> known) rs)"
    and "c i = cnt i - count_of i ov"
    and "i \<in> known \<Longrightarrow> c i = (if cnt i > d then max d (cnt i - count_of i rs) else cnt i)" by auto
qed

lemma sum_count_of:
  assumes "distinct ids" and "list_all (\<lambda>r. ri_primaryID r \<in> set ids) rs"
  shows "(\<Sum>i\<leftarrow>ids. count_of i rs) = int (length rs)"
  using assms(2)
proof (induction rs)
  case (Cons r rs)
  have "(\<Sum>i\<leftarrow>ids. if ri_primaryID r = i then 1 else 0 :: int) = 1"
    using assms(1) Cons.prems by (simp add: sum_list_distinct_conv_sum_set)
  then show ?case using Cons by (simp add: sum_list_addf)
qed simp

lemma needs_replicas_count:
  assumes "distinct ids" and "i \<in> set ids"
  shows "int (length (filter (\<lambda>t. t = i) (needs_replicas d c ids))) = int (nat (d - c i))"
proof -
  have "length (filter (\<lambda>t. t = i) (needs_replicas d c xs)) = (if i \<in> set xs then nat (d - c i) else 0)" if "distinct xs" for xs
    using that by (induction xs) (auto simp: needs_replicas_def filter_replicate)
  then show ?thesis using assms by simp
qed

lemma length_needs_replicas: "int (length (needs_replicas d c ids)) = (\<Sum>i\<leftarrow>ids. int (nat (d - c i)))"
  by (induction ids) (simp_all add: needs_replicas_def)

definition moved :: "(replica_info \<times> string) list \<Rightarrow> replica_info list" where
  "moved plan = map (\<lambda>(r, t). r\<lparr>ri_primaryID := t\<rparr>) plan"

lemma spread_plan_restores:
  assumes dist: "distinct ids" and d: "0 \<le> d" and total: "int (length replicas) = int (length ids) * d"
  shows "\<exists>rest. mset replicas = mset (map fst (spread_plan ids d replicas)) + mset rest
    \<and> list_all (\<lambda>i. count_of i (rest @ moved (spread_plan ids d replicas)) = d) ids"
proof -
  let ?in = "\<lambda>r. ri_primaryID r \<in> set ids"
  obtain ov c where ov: "over_assigned (set ids) d (\<lambda>i. count_of i replicas) replicas = (ov, c)" by fastforce
  note spec = over_assigned_spec [OF ov d]
  define avail where "avail = filter (\<lambda>r. \<not> ?in r) replicas @ ov"
  let ?needs = "needs_replicas d c ids"
  have plan: "spread_plan ids d replicas = zip avail ?needs" by (simp add: spread_plan_def ov avail_def)
  obtain kept where kept: "mset kept = mset (filter ?in replicas) - mset ov" using ex_mset by blast
  have split: "mset (filter ?in replicas) = mset ov + mset kept" using spec(1) kept by simp
  have part: "mset replicas = mset (filter (\<lambda>r. \<not> ?in r) replicas) + mset (filter ?in replicas)"
    by (induction replicas) auto
  have all: "mset replicas = mset avail + mset kept"
    unfolding part split avail_def by simp
  have inside: "list_all ?in kept"
  proof -
    have "set_mset (mset kept) \<subseteq> set_mset (mset (filter ?in replicas))" unfolding split by simp
    then show ?thesis by (auto simp: list_all_iff)
  qed
  have ck: "count_of i kept = c i" if "i \<in> set ids" for i
  proof -
    have "count_of i (filter ?in replicas) = count_of i ov + count_of i kept" unfolding count_of_mset split by simp
    moreover have "count_of i (filter ?in replicas) = count_of i replicas"
      using that unfolding count_of_def filter_filter by (intro arg_cong [of _ _ "\<lambda>xs. int (length xs)"] filter_cong) auto
    ultimately show ?thesis using spec(2) [of i] by simp
  qed
  have cle: "c i \<le> d" if "i \<in> set ids" for i using spec(3) [OF that] d by auto
  have "int (length replicas) = int (length avail) + int (length kept)"
    using arg_cong [OF all, of size] by simp
  moreover have "int (length kept) = (\<Sum>i\<leftarrow>ids. c i)"
    using sum_count_of [OF dist inside] ck by (metis (no_types, lifting) map_eq_conv)
  moreover have "(\<Sum>i\<leftarrow>ids. int (nat (d - c i))) = (\<Sum>i\<leftarrow>ids. d - c i)"
    using cle by (intro arg_cong [of _ _ sum_list] map_cong) auto
  ultimately have "length avail = length ?needs"
    using total length_needs_replicas [of d c ids] by (simp add: sum_list_subtractf sum_list_triv)
  then have fst: "map fst (zip avail ?needs) = avail" and snd: "map snd (zip avail ?needs) = ?needs" by simp_all
  have "count_of i (kept @ moved (zip avail ?needs)) = d" if "i \<in> set ids" for i
  proof -
    have "count_of i (moved xs) = int (length (filter (\<lambda>t. t = i) (map snd xs)))" for xs
      by (induction xs) (auto simp: moved_def)
    then have "count_of i (moved (zip avail ?needs)) = d - c i"
      using cle [OF that] needs_replicas_count [OF dist that, of d c] by (simp only: snd)
    then show ?thesis using ck [OF that] by simp
  qed
  then show ?thesis unfolding plan using all fst by (intro exI [of _ kept]) (simp add: list_all_iff)
qed

lemma assoc_put_keys: "set (map fst (assoc_put k v m)) = insert k (set (map fst m))"
  by (induction k v m rule: assoc_put.induct) (simp_all add: insert_commute)

lemma assoc_put_distinct: "distinct (map fst m) \<Longrightarrow> distinct (map fst (assoc_put k v m))"
proof (induction m)
  case (Cons kv m)
  then show ?case using assoc_put_keys [of k v m] by (cases kv) auto
qed simp

lemma classify_nodes_distinct:
  "distinct (map fst m) \<Longrightarrow> classify_nodes nodes m = (ps, rs) \<Longrightarrow> distinct (map fst ps)"
proof (induction nodes arbitrary: m rs)
  case (Cons n nodes)
  note IH = Cons.IH [OF Cons.prems(1)] Cons.IH [OF assoc_put_distinct [OF Cons.prems(1)]]
  show ?case using IH Cons.prems(2) by (simp split: if_splits prod.splits)
qed simp

definition replicate_event :: "string \<Rightarrow> replica_info \<times> string \<Rightarrow> event" where
  "replicate_event pw rt = Command (ri_addr (fst rt)) pw (Replicate (snd rt)) None"

lemma reassign_runs:
  assumes "\<And>h a i. e_redis E h a pw (Replicate i) = None"
  shows "\<exists>s'. reassign E pw plan s = Some (None, s') \<and> hist s' = rev (map (replicate_event pw) plan) @ hist s"
proof (induction plan arbitrary: s)
  case (Cons rt plan)
  obtain r t where rt: "rt = (r, t)" by fastforce
  let ?s1 = "log (replicate_event pw rt) s"
  obtain s' where "reassign E pw plan ?s1 = Some (None, s')" "hist s' = rev (map (replicate_event pw) plan) @ hist ?s1"
    using Cons.IH by blast
  then show ?case
    using assms by (simp add: rt ClusterReplicate_def command_def redis_do_def wrapped_def Let_def replicate_event_def)
qed simp


section \<open>The spread remediation never demotes a slot owner\<close>

text \<open>What the spread remediation may send, given the view it works on: REPLICATE and a soft RESET to a
  replica of the view, REPLICATE to a primary without slots and without a migration in flight, MEET,
  and a rebalance.\<close>

definition spread_event :: "cluster_node list \<Rightarrow> event \<Rightarrow> bool" where
  "spread_event view e = (case e of
      Command a p c r \<Rightarrow> (case c of
          Replicate i \<Rightarrow> list_ex (\<lambda>cn. a = redis_addr (cn_IP cn) \<and> cn_IP cn \<noteq> [] \<and>
              (if Contains (cn_Flags cn) ''master'' then empty_primary cn else Contains (cn_Flags cn) ''slave'')) view
        | Reset hard \<Rightarrow> \<not> hard \<and> list_ex (\<lambda>cn. a = redis_addr (cn_IP cn) \<and> cn_IP cn \<noteq> []
              \<and> \<not> Contains (cn_Flags cn) ''master'' \<and> Contains (cn_Flags cn) ''slave'') view
        | Meet ip port \<Rightarrow> True
        | _ \<Rightarrow> False)
    | Cli args vars inp r \<Rightarrow> take 2 args = [''--cluster'', ''rebalance'']
    | Sleep d \<Rightarrow> True
    | CheckContext \<Rightarrow> True
    | ChooseOrder \<Rightarrow> True
    | _ \<Rightarrow> False)"

lemma spread_harmless [simp]:
  "spread_event view (Command a p (Meet ip port) r)" "spread_event view (Sleep d)"
  "spread_event view CheckContext" "spread_event view ChooseOrder"
  "spread_event view (Cli (rebalance_args a) vars inp res)"
  "spread_event view (Cli (weighted_rebalance_args a w) vars inp res)"
  by (simp_all add: spread_event_def rebalance_args_def weighted_rebalance_args_def)

definition replica_entry :: "cluster_node list \<Rightarrow> replica_info \<Rightarrow> bool" where
  "replica_entry view r = list_ex (\<lambda>cn. ri_addr r = redis_addr (cn_IP cn) \<and> cn_IP cn \<noteq> []
     \<and> \<not> Contains (cn_Flags cn) ''master'' \<and> Contains (cn_Flags cn) ''slave'') view"

lemma spread_replica:
  "replica_entry view r \<Longrightarrow> spread_event view (Command (ri_addr r) p (Replicate i) res)"
  "replica_entry view r \<Longrightarrow> spread_event view (Command (ri_addr r) p (Reset False) res)"
  by (auto simp: spread_event_def replica_entry_def list_ex_iff)

definition empty_entry :: "cluster_node list \<Rightarrow> primary_node \<Rightarrow> bool" where
  "empty_entry view p = list_ex (\<lambda>cn. pn_addr p = redis_addr (cn_IP cn) \<and> cn_IP cn \<noteq> []
     \<and> Contains (cn_Flags cn) ''master'' \<and> empty_primary cn) view"

lemma spread_empty:
  "empty_entry view p \<Longrightarrow> spread_event view (Command (pn_addr p) pw (Replicate i) res)"
  by (auto simp: spread_event_def empty_entry_def list_ex_iff)

lemma emptyPrimaries_entries: "list_all (empty_entry view) (emptyPrimaries view)"
  by (auto simp: emptyPrimaries_def addressed_primaries_def empty_entry_def node_of_def list_all_iff list_ex_iff)

lemma classify_replicas:
  "classify_nodes nodes m = (ps, rs) \<Longrightarrow> set nodes \<subseteq> set view \<Longrightarrow> list_all (replica_entry view) rs"
proof (induction nodes arbitrary: m rs)
  case (Cons n nodes)
  have "replica_entry view \<lparr>ri_id = cn_ID n, ri_addr = redis_addr (cn_IP n), ri_primaryID = cn_Primary n\<rparr>"
    if "cn_IP n \<noteq> []" "\<not> Contains (cn_Flags n) ''master''" "Contains (cn_Flags n) ''slave''"
    using that Cons.prems(2) by (auto simp: replica_entry_def list_ex_iff)
  then show ?case using Cons.IH Cons.prems by (auto split: if_splits prod.splits)
qed simp

lemma keeps_reassign:
  "list_all (replica_entry view) (map fst plan) \<Longrightarrow> extends (spread_event view) s0 s \<Longrightarrow>
   keeps (extends (spread_event view) s0) (reassign E pw plan s)"
proof (induction plan arbitrary: s)
  case (Cons rt plan)
  obtain r t where rt: "rt = (r, t)" by fastforce
  show ?case
    unfolding rt reassign.simps
    by (intro keeps_intro Cons.IH; use Cons.prems spread_replica(1) [of view r] in \<open>simp add: rt\<close>)
qed (simp add: keeps_Some)

lemma keeps_demote:
  "list_all (empty_entry view) (map fst plan) \<Longrightarrow> extends (spread_event view) s0 s \<Longrightarrow>
   keeps (extends (spread_event view) s0) (demote E pw plan s)"
proof (induction plan arbitrary: s)
  case (Cons rt plan)
  obtain r t where rt: "rt = (r, t)" by fastforce
  show ?case
    unfolding rt demote.simps
    by (intro keeps_intro Cons.IH; use Cons.prems spread_empty [of view r] in \<open>simp add: rt\<close>)
qed (simp add: keeps_Some)

lemma keeps_reset_each:
  "list_all (replica_entry view) rs \<Longrightarrow> extends (spread_event view) s0 s \<Longrightarrow>
   keeps (extends (spread_event view) s0) (reset_each E pw rs s)"
proof (induction rs arbitrary: s)
  case (Cons r rs)
  show ?case
    unfolding reset_each.simps
    by (intro keeps_intro Cons.IH; use Cons.prems spread_replica(2) [of view r] in simp)
qed (simp add: keeps_Some)

lemma keeps_meetResetReplicas:
  assumes "\<And>a ip port r. P (Command a pw (Meet ip port) r)"
  shows "extends P s0 s \<Longrightarrow> keeps (extends P s0) (meetResetReplicas E rs nodes pw s)"
proof -
  have target: "extends P s0 s \<Longrightarrow> keeps (extends P s0) (meet_target E pw ips t ns s)" for ips t ns s
  proof (induction ns arbitrary: s)
    case (Cons n ns)
    show ?case unfolding meet_target.simps by (intro keeps_intro Cons.IH; simp add: assms Cons.prems)
  qed (simp add: keeps_Some)
  have "extends P s0 s \<Longrightarrow> keeps (extends P s0) (meet_each_reset E pw ips nodes rs s)" for ips rs s
  proof (induction rs arbitrary: s)
    case (Cons r rs)
    show ?case unfolding meet_each_reset.simps by (intro keeps_intro target Cons.IH; simp add: Cons.prems)
  qed (simp add: keeps_Some)
  then show "extends P s0 s \<Longrightarrow> ?thesis" by (simp add: meetResetReplicas_def)
qed

lemma spread_plan_sources: "set (map fst (spread_plan ids d rs)) \<subseteq> set rs"
proof -
  have "set ov \<subseteq> set rs" if "over_assigned K d cnt rs = (ov, c)" for K cnt ov c rs
    using that by (induction rs arbitrary: cnt ov c) (fastforce split: if_splits prod.splits)+
  then have "set (fst (over_assigned K d cnt rs)) \<subseteq> set rs" for K cnt rs by (metis prod.collapse)
  note sub = this [of "set ids" "\<lambda>i. count_of i rs" rs]
  obtain ov c where ov: "over_assigned (set ids) d (\<lambda>i. count_of i rs) rs = (ov, c)" by fastforce
  then have "set ov \<subseteq> set rs" using sub by simp
  then show ?thesis by (auto simp: spread_plan_def ov dest!: set_zip_leftD)
qed

lemma demotion_plan_sources: "set (map fst (demotion_plan es ids x d rs)) \<subseteq> set es"
  by (auto simp: demotion_plan_def dest!: set_zip_leftD in_set_takeD)

lemma list_all_subset: "list_all P ys \<Longrightarrow> set xs \<subseteq> set ys \<Longrightarrow> list_all P xs"
  by (auto simp: list_all_iff)

lemma keeps_drainPrimaries:
  "extends (spread_event view) s0 s \<Longrightarrow> keeps (extends (spread_event view) s0) (drainPrimaries E a pw ids s)"
  unfolding drainPrimaries_def ClusterRebalanceWithWeights_def
  by (intro keeps_cluster_cli_ok keeps_intro; simp)

lemma keeps_remediateReplicaSpread:
  assumes "extends (spread_event view) s0 s"
  shows "keeps (extends (spread_event view) s0) (remediateReplicaSpread E view nodes pw P R s)"
proof -
  obtain ps rs where cl: "classify_nodes view [] = (ps, rs)" by fastforce
  have rs: "list_all (replica_entry view) rs" using classify_replicas [OF cl] by simp
  have take_rs: "list_all (replica_entry view) (take n rs)" for n
    by (rule list_all_subset [OF rs]) (rule set_take_subset)
  have plan: "list_all (replica_entry view) (map fst (spread_plan ids d rs))" for ids d
    by (rule list_all_subset [OF rs spread_plan_sources])
  have demotion: "list_all (empty_entry view) (map fst (demotion_plan (emptyPrimaries view) ids x d rs))" for ids x d
    by (rule list_all_subset [OF emptyPrimaries_entries demotion_plan_sources])
  show ?thesis
    unfolding remediateReplicaSpread_def cl prod.case remediateExcessPrimaries_def remediatePrimaryDeficit_def Let_def
    by (intro keeps_intro keeps_reassign keeps_demote keeps_reset_each keeps_meetResetReplicas keeps_drainPrimaries
        plan demotion take_rs; simp add: assms)
qed

text \<open>C21: repairing the replica spread never demotes or resets a node that owns slots: it returns, and
  every CLUSTER REPLICATE goes to a replica or to a primary of the view without slots and without a
  migration in flight, every (soft) CLUSTER RESET to a replica; surplus primaries that own slots are
  only drained by a rebalance.\<close>

theorem remediateReplicaSpread_safe:
  "\<exists>r s'. remediateReplicaSpread E view nodes pw P R s = Some (r, s') \<and> extends (spread_event view) s s'"
  using keeps_remediateReplicaSpread [OF extends_refl] by (auto simp: keeps_def)

section \<open>Disputed slots go to the owner with the highest epoch\<close>

lemma add_votes_keys:
  "set (map fst (add_votes n i ep cs)) = (if n = 0 then {} else {i}) \<union> set (map fst cs)"
  "distinct (map fst cs) \<Longrightarrow> distinct (map fst (add_votes n i ep cs))"
proof -
  have keys: "set (map fst (add_vote i ep cs)) = insert i (set (map fst cs))" for cs :: "(string \<times> int \<times> int) list"
    by (induction i ep cs rule: add_vote.induct) (simp_all add: insert_commute)
  have dist: "distinct (map fst (add_vote i ep cs))" if "distinct (map fst cs)" for cs :: "(string \<times> int \<times> int) list"
    using that
  proof (induction i ep cs rule: add_vote.induct)
    case (2 i epoch i' ep votes cs)
    have "set (map fst (add_vote i epoch cs)) = insert i (set (map fst cs))"
      by (induction i epoch cs rule: add_vote.induct) (simp_all add: insert_commute)
    then show ?case using 2 by auto
  qed simp
  show "set (map fst (add_votes n i ep cs)) = (if n = 0 then {} else {i}) \<union> set (map fst cs)"
    using keys by (induction n arbitrary: cs) auto
  show "distinct (map fst cs) \<Longrightarrow> distinct (map fst (add_votes n i ep cs))"
    using dist by (induction n arbitrary: cs) auto
qed

definition claimants :: "int \<Rightarrow> cluster_node list \<Rightarrow> string set" where
  "claimants slot view = cn_ID ` {cn \<in> set view. claims_slot slot cn \<noteq> 0}"

lemma slot_candidates_keys:
  "distinct (map fst cs) \<Longrightarrow>
   set (map fst (slot_candidates slot view cs)) = claimants slot view \<union> set (map fst cs)
   \<and> distinct (map fst (slot_candidates slot view cs))"
proof (induction view arbitrary: cs)
  case (Cons cn view)
  have "claimants slot (cn # view) = (if claims_slot slot cn = 0 then {} else {cn_ID cn}) \<union> claimants slot view"
    by (auto simp: claimants_def)
  then show ?case using Cons.IH [OF add_votes_keys(2) [OF Cons.prems]] add_votes_keys(1) by (simp add: Un_assoc)
qed (simp add: claimants_def)

definition epoch_of :: "(string \<times> int \<times> int) list \<Rightarrow> string \<Rightarrow> int option" where
  "epoch_of cs j = map_option fst (map_of cs j)"

lemma epoch_of_add_vote:
  "epoch_of (add_vote i ep cs) j =
     (if j = i then Some (case epoch_of cs i of None \<Rightarrow> ep | Some e \<Rightarrow> max e ep) else epoch_of cs j)"
  by (induction i ep cs rule: add_vote.induct) (auto simp: epoch_of_def)

lemma epoch_of_add_votes:
  "epoch_of (add_votes n i ep cs) j =
     (if n \<noteq> 0 \<and> j = i then Some (case epoch_of cs i of None \<Rightarrow> ep | Some e \<Rightarrow> max e ep) else epoch_of cs j)"
  by (induction n arbitrary: cs) (auto simp: epoch_of_add_vote split: option.splits)

definition claims :: "int \<Rightarrow> cluster_node list \<Rightarrow> string \<Rightarrow> cluster_node set" where
  "claims slot view i = {cn \<in> set view. claims_slot slot cn \<noteq> 0 \<and> cn_ID cn = i}"

lemma slot_candidates_epoch:
  "epoch_of (slot_candidates slot view cs) j = Some e \<Longrightarrow>
   (epoch_of cs j = Some e \<or> e \<in> cn_Epoch ` claims slot view j)
   \<and> (\<forall>e0. epoch_of cs j = Some e0 \<longrightarrow> e0 \<le> e) \<and> (\<forall>cn\<in>claims slot view j. cn_Epoch cn \<le> e)"
proof (induction view arbitrary: cs)
  case (Cons cn view)
  let ?cs = "add_votes (claims_slot slot cn) (cn_ID cn) (cn_Epoch cn) cs"
  have cl: "claims slot (cn # view) j = (if claims_slot slot cn \<noteq> 0 \<and> cn_ID cn = j then {cn} else {}) \<union> claims slot view j"
    by (auto simp: claims_def)
  have IH: "(epoch_of ?cs j = Some e \<or> e \<in> cn_Epoch ` claims slot view j)
      \<and> (\<forall>e0. epoch_of ?cs j = Some e0 \<longrightarrow> e0 \<le> e) \<and> (\<forall>cn\<in>claims slot view j. cn_Epoch cn \<le> e)"
    using Cons by simp
  show ?case
  proof (cases "claims_slot slot cn \<noteq> 0 \<and> cn_ID cn = j")
    case True
    then have "epoch_of ?cs j = Some (case epoch_of cs j of None \<Rightarrow> cn_Epoch cn | Some e \<Rightarrow> max e (cn_Epoch cn))"
      by (auto simp: epoch_of_add_votes)
    then show ?thesis using IH True cl by (auto simp: max_def split: option.splits if_splits)
  next
    case False
    then have "epoch_of ?cs j = epoch_of cs j" by (auto simp: epoch_of_add_votes)
    then show ?thesis using IH False cl by auto
  qed
qed (simp add: claims_def)

lemma best_candidate_spec:
  "best_candidate b cs = Some (i, e, v) \<Longrightarrow>
   (b = Some (i, e, v) \<or> (i, e, v) \<in> set cs)
   \<and> (\<forall>bi be bv. b = Some (bi, be, bv) \<longrightarrow> be \<le> e) \<and> list_all (\<lambda>(i', e', v'). e' \<le> e) cs"
proof (induction b cs rule: best_candidate.induct)
  case (2 b j ep vo cs)
  then show ?case by (force split: option.splits if_splits)
qed simp

lemma best_candidate_exists: "b \<noteq> None \<or> cs \<noteq> [] \<Longrightarrow> best_candidate b cs \<noteq> None"
  by (induction b cs rule: best_candidate.induct) (auto split: option.splits)

text \<open>The slots that more than one identifier claims, and the claim that wins.\<close>

definition disputed :: "cluster_node list \<Rightarrow> int \<Rightarrow> bool" where
  "disputed view slot = (1 < card (claimants slot view))"

definition highest_claim :: "cluster_node list \<Rightarrow> int \<times> string \<Rightarrow> bool" where
  "highest_claim view sf = (case sf of (slot, i) \<Rightarrow>
     (\<exists>cn\<in>set view. claims_slot slot cn \<noteq> 0 \<and> cn_ID cn = i
        \<and> (\<forall>cn'\<in>set view. claims_slot slot cn' \<noteq> 0 \<longrightarrow> cn_Epoch cn' \<le> cn_Epoch cn)))"

lemma best_is_highest:
  assumes "best_candidate None order = Some (i, e, v)" and order: "mset order = mset (slot_candidates slot view [])"
  shows "highest_claim view (slot, i)"
proof -
  let ?cs = "slot_candidates slot view []"
  have keys: "set (map fst ?cs) = claimants slot view" and dist: "distinct (map fst ?cs)"
    using slot_candidates_keys [of "[]" slot view] by simp_all
  have set: "set order = set ?cs" by (rule mset_eq_setD [OF order])
  from best_candidate_spec [OF assms(1)] have mem: "(i, e, v) \<in> set ?cs"
    and max: "\<And>i' e' v'. (i', e', v') \<in> set ?cs \<Longrightarrow> e' \<le> e" by (auto simp: set list_all_iff)
  have ep: "epoch_of ?cs i' = Some e'" if "(i', e', v') \<in> set ?cs" for i' e' v'
    using map_of_is_SomeI [OF dist that] by (simp add: epoch_of_def)
  from slot_candidates_epoch [OF ep [OF mem]] obtain cn where
    cn: "cn \<in> set view" "claims_slot slot cn \<noteq> 0" "cn_ID cn = i" "cn_Epoch cn = e"
    by (auto simp: epoch_of_def claims_def)
  have "cn_Epoch cn' \<le> e" if "cn' \<in> set view" "claims_slot slot cn' \<noteq> 0" for cn'
  proof -
    have "cn_ID cn' \<in> set (map fst ?cs)" unfolding keys using that by (auto simp: claimants_def)
    then obtain e' v' where m: "(cn_ID cn', e', v') \<in> set ?cs" by auto
    have "cn_Epoch cn' \<le> e'" using slot_candidates_epoch [OF ep [OF m]] that by (simp add: claims_def)
    then show ?thesis using max [OF m] by simp
  qed
  then show ?thesis using cn by (auto simp: highest_claim_def)
qed

lemma candidates_card: "length (slot_candidates slot view []) = card (claimants slot view)"
  using slot_candidates_keys [of "[]" slot view] distinct_card [of "map fst (slot_candidates slot view [])"] by simp

text \<open>C23: when the repair tool fails, the disagreement about slots is settled by configuration epoch:
  the forced assignments are exactly for the slots that the views give to more than one primary, in
  order, and each goes to a primary whose claim carries the highest epoch of all claims to that slot,
  whatever the order in which the candidates are visited.\<close>

theorem disputed_fixes_highest_epoch:
  "\<exists>fixes s'. disputed_fixes E view slots s = Some (fixes, s')
     \<and> map fst fixes = filter (disputed view) slots \<and> list_all (highest_claim view) fixes"
proof (induction slots arbitrary: s)
  case (Cons slot slots)
  let ?cs = "slot_candidates slot view []"
  show ?case
  proof (cases "length ?cs \<le> 1")
    case True
    then show ?thesis using Cons.IH [of s] candidates_card [of slot view] by (simp add: Let_def disputed_def)
  next
    case False
    obtain fx s' where IH: "disputed_fixes E view slots (log ChooseOrder s) = Some (fx, s')"
      "map fst fx = filter (disputed view) slots" "list_all (highest_claim view) fx"
      using Cons.IH by blast
    let ?order = "shuffle (e_order E (hist s)) ?cs"
    have "?order \<noteq> []" using False by (metis length_0_conv length_shuffle le_zero_eq linear zero_le_one)
    then obtain i e v where best: "best_candidate None ?order = Some (i, e, v)"
      using best_candidate_exists [of None ?order] by (cases "best_candidate None ?order") auto
    have yes: "disputed view slot" using False candidates_card [of slot view] by (simp add: disputed_def)
    have "highest_claim view (slot, i)" by (rule best_is_highest [OF best mset_shuffle])
    then show ?thesis
      using False IH best yes by (simp add: Let_def map_order_def)
  qed
qed simp

section \<open>A healthy cluster is only observed\<close>

definition observing :: "event \<Rightarrow> bool" where
  "observing e = (case e of
      Query a p q \<Rightarrow> True
    | Cli args vars inp r \<Rightarrow> take 2 args = [''--cluster'', ''check'']
    | CheckContext \<Rightarrow> True
    | _ \<Rightarrow> False)"

lemma getOrCreateClient_extends:
  "getOrCreateClient addr pw s = (c, s') \<Longrightarrow> extends P s0 s \<Longrightarrow> extends P s0 s'"
  by (auto simp: getOrCreateClient_def split: option.splits)

lemma discardClient_extends [simp]: "extends P s0 (discardClient addr s) = extends P s0 s"
  by (simp add: discardClient_def)

lemma reconcileClients_extends [simp]: "extends P s0 (reconcileClients nodes pw s) = extends P s0 s"
  by (simp add: reconcileClients_def CloseAll_def)

lemma keeps_Check:
  assumes P: "\<And>a p q. P (Query a p q)" "\<And>a vars inp r. P (Cli [''--cluster'', ''check'', a] vars inp r)" "P CheckContext"
  shows "extends P s0 s \<Longrightarrow> keeps (extends P s0) (Check E nodes pw D R s)"
proof -
  have probe: "keeps (extends P s0) (probeNode E addr pw s)" if "extends P s0 s" for addr s
  proof -
    obtain c s1 where g: "getOrCreateClient addr pw s = (c, s1)" by fastforce
    show ?thesis
      unfolding probeNode_def g prod.case Let_def ClusterCheck_def
      by (intro keeps_intro keeps_cluster_cli; simp add: P getOrCreateClient_extends [OF g that])
  qed
  have seeds: "keeps (extends P s0) (select_seed_loop E pw ns st le s)" if "extends P s0 s" for ns st le s
    using that
  proof (induction ns arbitrary: st le s)
    case Nil
    then show ?case by (auto intro: keeps_intro)
  next
    case (Cons n ns)
    obtain r s1 where r: "probeNode E (hn_Addr n) pw s = Some (r, s1)" and s1: "extends P s0 s1"
      by (rule keepsE [OF probe [OF Cons.prems]])
    obtain p e where pe: "r = (p, e)" "p \<noteq> None \<or> e \<noteq> None" using probeNode_result [OF r] by (cases r) auto
    show ?case using r pe s1 Cons.IH [OF s1] by (cases e) (auto simp: keeps_Some Let_def)
  qed
  have members: "keeps (extends P s0) (membership_loop E pw k ids ns s)" if "extends P s0 s" for k ids ns s
    using that
  proof (induction ns arbitrary: s)
    case (Cons n ns)
    obtain c s1 where g: "getOrCreateClient (hn_Addr n) pw s = (c, s1)" by fastforce
    show ?case
      unfolding membership_loop.simps g prod.case Let_def
      by (intro keeps_intro Cons.IH; simp add: P getOrCreateClient_extends [OF g Cons.prems])
  qed (simp add: keeps_Some)
  assume "extends P s0 s"
  then show ?thesis
    unfolding Check_def checkMembership_def selectSeed_def Let_def
    by (intro keeps_intro seeds members; simp)
qed

text \<open>C24: while a cluster is healthy, reconciling it only observes: when the check's report says Healthy,
  the pass sends no command to Redis, runs nothing but \<open>redis-cli --cluster check\<close>, writes nothing to
  Kubernetes, leaves the configuration as it was, succeeds and asks for the next pass after the
  ordinary interval.\<close>

theorem healthy_only_observes:
  assumes "Check E nodes pw D R (s\<lparr>hr_lastReport := None\<rparr>) = Some ((rep, ce), s1)" and "rp_Healthy rep"
  shows "hr_Reconcile E nodes pw D R s = Some ((reconcileAfterInterval, None), s1\<lparr>hr_lastReport := Some rep\<rparr>)
    \<and> extends observing s s1"
proof -
  have "keeps (extends observing s) (Check E nodes pw D R (s\<lparr>hr_lastReport := None\<rparr>))"
    by (rule keeps_Check) (simp_all add: observing_def)
  from keepsD [OF this assms(1)] have ex: "extends observing s s1" .
  have "nodes \<noteq> []" using assms by (auto simp: Check_def empty_report_def)
  then show ?thesis using assms ex by (simp add: hr_Reconcile_def Let_def)
qed

lemma healthy_only_observes_witness:
  "\<exists>(rep :: report) s1. hr_Reconcile sole_env one_pod [] 1 0 start_st
      = Some ((reconcileAfterInterval, None), s1\<lparr>hr_lastReport := Some rep\<rparr>) \<and> extends observing start_st s1"
proof -
  have "hc_clients (start_st\<lparr>hr_lastReport := None\<rparr>) = Map.empty" by (simp add: start_st_def)
  from sole_check [OF this, of "[]"] obtain rep s' where
    c: "Check sole_env one_pod [] 1 0 (start_st\<lparr>hr_lastReport := None\<rparr>) = Some ((rep, None), s')"
    and h: "rp_Healthy rep" by blast
  from healthy_only_observes [OF c h] show ?thesis by (intro exI)
qed

definition gap_node :: cluster_node where
  "gap_node = primary_of ''a1'' (range_text (SlotRange 0 16382))"

lemma gap_coverage:
  "coverage_primaries [gap_node] =
     ([\<lparr>pi_addr = ''10.0.0.1:6379'', pi_id = ''a1'', pi_numSlots = 16383\<rparr>], [SlotRange 0 16382])"
  using parse_single_range [of "SlotRange 0 16382"]
  by (simp add: gap_node_def valid_range_def maxInt64_def primary_of_def redis_addr_def CountSlots_def i64_def)


definition replica_of :: "string \<Rightarrow> string \<Rightarrow> cluster_node" where
  "replica_of i master = (primary_of i [])\<lparr>cn_Flags := ''slave'', cn_Primary := master\<rparr>"


end
