(* ===== verification/Cluster_Ops.thy ===== *)
theory Cluster_Ops
  imports Health_Remediation
begin

text \<open>
  The operations that the lifecycle handlers of \<open>reconciler/cluster_reconciler.go\<close> share: initialising
  the nodes, forming a cluster, recording the status, healing the topology and rotating the password.

  The configuration a handler works on is \<open>cfg\<close> of the state: \<open>config.Status.X = v\<close> changes it, and
  \<open>Status().Update\<close> sends it; a failed update leaves the change in memory, as in the code. Nodes are
  pointers in the code, shared between slices; here they are values, and \<open>update_nodes\<close> carries a
  refreshed node back to the list it came from by its name, which is unique (a pod name).
\<close>

abbreviation spec_of :: "st \<Rightarrow> config_spec" where
  "spec_of s \<equiv> rc_Spec (cfg s)"

section \<open>Status\<close>

definition set_status :: "(config_state \<Rightarrow> config_state) \<Rightarrow> st \<Rightarrow> st" where
  "set_status f s = s\<lparr>cfg := (cfg s)\<lparr>rc_Status := f (rc_Status (cfg s))\<rparr>\<rparr>"

definition status_update :: "env \<Rightarrow> st \<Rightarrow> kerr option op" where
  "status_update E s = update_status E (cfg s) s"

text \<open>The text of a status, a constant of the operator's API, appears only in errors.\<close>

definition updateClusterStatus :: "env \<Rightarrow> cluster_status \<Rightarrow> st \<Rightarrow> err option op" where
  "updateClusterStatus E status s =
     do { (e, s) \<leftarrow> status_update E (set_status (\<lambda>t. t\<lparr>cs_Status := status\<rparr>) s);
          Some (failed (''updating cluster status to '' @ e_status_text E status) e, s) }"

definition updateSubstatus :: "env \<Rightarrow> substatus_name \<Rightarrow> st \<Rightarrow> unit op" where
  "updateSubstatus E substatus s =
     (if substatus_of (cfg s) = substatus then Some ((), s)
      else do { (e, s) \<leftarrow> status_update E (set_status (\<lambda>t. t\<lparr>cs_Substatus := substatus\<rparr>) s); Some ((), s) })"

definition setConfigPhaseApplied :: "env \<Rightarrow> st \<Rightarrow> err option op" where
  "setConfigPhaseApplied E s =
     do { (e, s) \<leftarrow> status_update E (set_status (\<lambda>t. t\<lparr>cs_ConfigPhase := Applied\<rparr>) s);
          Some (failed ''setting ConfigPhase to Applied'' e, s) }"

fun node_status :: "node list \<Rightarrow> (string \<rightharpoonup> redis_node_status) \<Rightarrow> (string \<rightharpoonup> redis_node_status)" where
  "node_status [] m = m"
| "node_status (n # rest) m =
     node_status rest (m(n_Name n \<mapsto>
       \<lparr>rn_Role = (if NodeIsReplica n then ''replica'' else ''primary''), rn_IP = n_IP n\<rparr>))"

definition updateNodeStatus :: "env \<Rightarrow> node list \<Rightarrow> st \<Rightarrow> err option op" where
  "updateNodeStatus E nodes s =
     do { (e, s) \<leftarrow> status_update E (set_status (\<lambda>t. t\<lparr>cs_Nodes := Some (node_status nodes Map.empty)\<rparr>) s);
          Some (map_option kerr_text e, s) }"

definition setHealthCondition ::
  "env \<Rightarrow> condition_type \<Rightarrow> bool \<Rightarrow> string \<Rightarrow> string \<Rightarrow> redkey_config \<Rightarrow> redkey_config" where
  "setHealthCondition E condType ok trueReason falseReason c =
     c\<lparr>rc_Status := (rc_Status c)\<lparr>cs_Conditions := e_set_condition E (cs_Conditions (rc_Status c))
        \<lparr>cond_Type = condType, cond_Status = ok, cond_Reason = (if ok then trueReason else falseReason),
         cond_ObservedGeneration = rc_Generation c\<rparr>\<rparr>\<rparr>"

definition health_conditions :: "env \<Rightarrow> report \<Rightarrow> redkey_config \<Rightarrow> redkey_config" where
  "health_conditions E rep c =
     setHealthCondition E ConditionClusterCheckPassing (rp_ClusterCheckOK rep) ''ClusterCheckPassed'' ''ClusterCheckFailed''
     (setHealthCondition E ConditionReplicasBalanced (rp_ReplicaSpreadOK rep) ''ReplicasBalanced'' ''ReplicasUnbalanced''
     (setHealthCondition E ConditionSlotsBalanced (rp_BalancedOK rep) ''SlotsBalanced'' ''SlotsUnbalanced''
     (setHealthCondition E ConditionSlotsCovered (rp_SlotsCoveredOK rep) ''AllSlotsAssigned'' ''SlotsUncovered''
     (setHealthCondition E ConditionMembershipHealthy (rp_MembershipOK rep) ''MembershipConsistent'' ''MembershipInconsistent''
     (setHealthCondition E ConditionHealthy (rp_Healthy rep) ''AllChecksPassed'' ''SomeChecksFailed'' c)))))"

definition applyHealthStatus :: "env \<Rightarrow> report \<Rightarrow> st \<Rightarrow> unit op" where
  "applyHealthStatus E rep s =
     do { (e, s) \<leftarrow> status_update E
            (set_status (\<lambda>t. t\<lparr>cs_Substatus := (if rp_Healthy rep then SubEmpty else Remediating)\<rparr>)
              (s\<lparr>cfg := health_conditions E rep (cfg s)\<rparr>));
          Some ((), s) }"

section \<open>Owner, password, addresses\<close>

definition getOwner :: "env \<Rightarrow> st \<Rightarrow> (err + string list) op" where
  "getOwner E s =
     do { (r, s) \<leftarrow> k8s_get e_get_owner GetOwner E s;
          Some (case r of Inl k \<Rightarrow> Inl (kerr_text k) | Inr owner \<Rightarrow> Inr owner, s) }"

text \<open>A secret that cannot be read counts as no password.\<close>

definition getPassword :: "env \<Rightarrow> config_spec \<Rightarrow> st \<Rightarrow> string op" where
  "getPassword E sp s =
     do { (r, s) \<leftarrow> GetRedisPassword E (sp_AuthSecretName sp) s;
          Some (case r of Inl e \<Rightarrow> [] | Inr pw \<Rightarrow> pw, s) }"

definition totalNodes :: "config_spec \<Rightarrow> int" where
  "totalNodes sp = sint (total_replicas32 sp)"

definition pod_names :: "env \<Rightarrow> int \<Rightarrow> string list" where
  "pod_names E n = map (\<lambda>i. pod_name E (int i)) [0..<nat n]"

definition buildHealthNodes :: "env \<Rightarrow> st \<Rightarrow> (err + health_node list) op" where
  "buildHealthNodes E s =
     do { (r, s) \<leftarrow> GetPodAddresses E s;
          Some (case r of Inl e \<Rightarrow> Inl e
                | Inr podAddrs \<Rightarrow> Inr (concat (map (\<lambda>name.
                    case map_of podAddrs name of None \<Rightarrow> [] | Some addr \<Rightarrow> [\<lparr>hn_Name = name, hn_Addr = addr\<rparr>])
                    (pod_names E (totalNodes (spec_of s))))), s) }"

definition refreshHealthConditions :: "env \<Rightarrow> string \<Rightarrow> st \<Rightarrow> unit op" where
  "refreshHealthConditions E password s =
     do { (r, s) \<leftarrow> buildHealthNodes E s;
          case r of
            Inl _ \<Rightarrow> Some ((), s)
          | Inr nodes \<Rightarrow>
              if nodes = [] then Some ((), s)
              else do { (rep, s) \<leftarrow> hr_Check E nodes password (primaries (spec_of s)) (replicas_per_primary (spec_of s))
                                      (SetEphemeral (sp_Ephemeral (spec_of s)) s);
                        case rep of None \<Rightarrow> Some ((), s) | Some report \<Rightarrow> applyHealthStatus E report s } }"

section \<open>Nodes\<close>

text \<open>The nodes of the given pods, in order; the first that is missing or does not answer is an error.\<close>

fun init_nodes :: "env \<Rightarrow> (string \<times> string) list \<Rightarrow> string \<Rightarrow> int \<Rightarrow> int \<Rightarrow> string list \<Rightarrow> st \<Rightarrow> (err + node list) op" where
  "init_nodes E podAddrs password maxRetries backoff [] s = Some (Inr [], s)"
| "init_nodes E podAddrs password maxRetries backoff (name # rest) s =
     (case map_of podAddrs name of
        None \<Rightarrow> Some (Inl (''pod '' @ name @ '' not found or has no IP''), s)
      | Some addr \<Rightarrow>
          do { (r, s) \<leftarrow> NodeInit E (NewNode name addr password) maxRetries backoff s;
               case snd r of
                 Some e \<Rightarrow> Some (Inl e, s)
               | None \<Rightarrow>
                   do { (ns, s) \<leftarrow> init_nodes E podAddrs password maxRetries backoff rest s;
                        Some (case ns of Inl e \<Rightarrow> Inl e | Inr nodes \<Rightarrow> Inr (fst r # nodes), s) } })"

definition initNodesWithCount :: "env \<Rightarrow> int \<Rightarrow> string \<Rightarrow> st \<Rightarrow> (err + node list) op" where
  "initNodesWithCount E n password s =
     (let cc = RuntimeClusterConfig (run s)
      in do { (r, s) \<leftarrow> GetPodAddresses E s;
              case r of
                Inl e \<Rightarrow> Some (Inl (wrap ''getting pod addresses'' e), s)
              | Inr podAddrs \<Rightarrow>
                  init_nodes E podAddrs password (cc_ConnectionMaxRetries cc)
                    (seconds (cc_ConnectionBackOffSeconds cc)) (pod_names E n) s })"

definition initNodes :: "env \<Rightarrow> string \<Rightarrow> st \<Rightarrow> (err + node list) op" where
  "initNodes E password s = initNodesWithCount E (totalNodes (spec_of s)) password s"

definition update_nodes :: "node list \<Rightarrow> node list \<Rightarrow> node list" where
  "update_nodes changed nodes =
     map (\<lambda>n. case find (\<lambda>c. n_Name c = n_Name n) changed of Some c \<Rightarrow> c | None \<Rightarrow> n) nodes"

fun refreshRoles :: "env \<Rightarrow> node list \<Rightarrow> st \<Rightarrow> (node list \<times> err option) op" where
  "refreshRoles E [] s = Some (([], None), s)"
| "refreshRoles E (n # rest) s =
     do { (r, s) \<leftarrow> NodeRefreshInfo E n s;
          case snd r of
            Some e \<Rightarrow> Some ((n # rest, Some (wrap (''refreshing '' @ n_Name n) e)), s)
          | None \<Rightarrow> do { (rr, s) \<leftarrow> refreshRoles E rest s; Some ((fst r # fst rr, snd rr), s) } }"

fun meet_others :: "env \<Rightarrow> node \<Rightarrow> nat \<Rightarrow> nat \<Rightarrow> node list \<Rightarrow> st \<Rightarrow> err option op" where
  "meet_others E n i j [] s = Some (None, s)"
| "meet_others E n i j (other # rest) s =
     (if i = j then meet_others E n i (Suc j) rest s
      else do { (e, s) \<leftarrow> ClusterMeet E (client_of n) (n_IP other) DefaultPort s;
                case e of
                  Some me \<Rightarrow> Some (Some (wrap (''node '' @ n_Name n @ '' meeting '' @ n_Name other) me), s)
                | None \<Rightarrow> meet_others E n i (Suc j) rest s })"

fun meet_from :: "env \<Rightarrow> node list \<Rightarrow> nat \<Rightarrow> node list \<Rightarrow> st \<Rightarrow> err option op" where
  "meet_from E nodes i [] s = Some (None, s)"
| "meet_from E nodes i (n # rest) s =
     do { (e, s) \<leftarrow> meet_others E n i 0 nodes s;
          case e of Some me \<Rightarrow> Some (Some me, s) | None \<Rightarrow> meet_from E nodes (Suc i) rest s }"

definition meetNodes :: "env \<Rightarrow> node list \<Rightarrow> st \<Rightarrow> err option op" where
  "meetNodes E nodes s = meet_from E nodes 0 nodes s"

fun gossip_loop :: "env \<Rightarrow> string set \<Rightarrow> node list \<Rightarrow> st \<Rightarrow> (err + bool) op" where
  "gossip_loop E expectedIDs [] s = Some (Inr True, s)"
| "gossip_loop E expectedIDs (n # rest) s =
     do { (r, s) \<leftarrow> GetClusterNodes E (client_of n) s;
          case r of
            Inl e \<Rightarrow> Some (Inl (wrap (''getting cluster nodes from '' @ n_Name n) e), s)
          | Inr clusterNodes \<Rightarrow>
              if expectedIDs \<subseteq> cn_ID ` set clusterNodes then gossip_loop E expectedIDs rest s
              else Some (Inr False, s) }"

definition checkGossipConvergence :: "env \<Rightarrow> node list \<Rightarrow> st \<Rightarrow> (err + bool) op" where
  "checkGossipConvergence E nodes s = gossip_loop E (n_ID ` set nodes) nodes s"

section \<open>Forming a cluster\<close>

text \<open>The slots of the \<open>i\<close>-th primary; the last part of the loop of \<open>assignSlots\<close> logs the first and the
  last slot, which panics when a primary gets none (more than 16384 primaries).\<close>

definition share_of :: "int \<Rightarrow> int \<Rightarrow> int" where
  "share_of numPrimaries i =
     (let slotsPerNode = clusterTotalSlots div numPrimaries;
          remainder = clusterTotalSlots mod numPrimaries
      in if i < remainder then slotsPerNode + 1 else slotsPerNode)"

fun assign_slots_loop :: "env \<Rightarrow> int \<Rightarrow> int \<Rightarrow> int \<Rightarrow> node list \<Rightarrow> st \<Rightarrow> (node list \<times> err option) op" where
  "assign_slots_loop E numPrimaries i slotStart [] s = Some (([], None), s)"
| "assign_slots_loop E numPrimaries i slotStart (primary # rest) s =
     (let cnt = share_of numPrimaries i;
          slots = map (\<lambda>k. slotStart + int k) [0..<nat cnt]
      in do { (r, s) \<leftarrow> NodeRefreshInfo E primary s;
              case snd r of
                Some e \<Rightarrow> Some ((primary # rest, Some (wrap (''refreshing '' @ n_Name primary @ '' info'') e)), s)
              | None \<Rightarrow>
                  if n_Slots (fst r) \<noteq> [] then
                    do { (rr, s) \<leftarrow> assign_slots_loop E numPrimaries (i + 1) (slotStart + cnt) rest s;
                         Some ((fst r # fst rr, snd rr), s) }
                  else
                    do { (e, s) \<leftarrow> ClusterAddSlots E (client_of (fst r)) slots s;
                         case e of
                           Some ae \<Rightarrow> Some ((fst r # rest, Some (wrap (''assigning slots to '' @ n_Name primary) ae)), s)
                         | None \<Rightarrow>
                             if slots = [] then None
                             else do { (rr, s) \<leftarrow> assign_slots_loop E numPrimaries (i + 1) (slotStart + cnt) rest s;
                                       Some ((fst r # fst rr, snd rr), s) } } })"

definition assignSlots :: "env \<Rightarrow> node list \<Rightarrow> st \<Rightarrow> (node list \<times> err option) op" where
  "assignSlots E prims s =
     (if prims = [] then None else assign_slots_loop E (int (length prims)) 0 0 prims s)"

fun set_replicas_loop ::
  "env \<Rightarrow> node list \<Rightarrow> int \<Rightarrow> int \<Rightarrow> node list \<Rightarrow> st \<Rightarrow> (node list \<times> err option) op" where
  "set_replicas_loop E prims replicasPerPrimary i [] s = Some (([], None), s)"
| "set_replicas_loop E prims replicasPerPrimary i (replica # rest) s =
     (let primaryIdx = i div replicasPerPrimary
      in if replicasPerPrimary = 0 then None
         else case index_at (min primaryIdx (int (length prims) - 1)) prims of
           None \<Rightarrow> None
         | Some primary \<Rightarrow>
             do { (r, s) \<leftarrow> NodeRefreshInfo E replica s;
                  case snd r of
                    Some e \<Rightarrow> Some ((replica # rest, Some (wrap (''refreshing '' @ n_Name replica @ '' info'') e)), s)
                  | None \<Rightarrow>
                      if NodeIsReplica (fst r) \<and> n_PrimaryID (fst r) = n_ID primary then
                        do { (rr, s) \<leftarrow> set_replicas_loop E prims replicasPerPrimary (i + 1) rest s;
                             Some ((fst r # fst rr, snd rr), s) }
                      else
                        do { (e, s) \<leftarrow> ClusterReplicate E (client_of (fst r)) (n_ID primary) s;
                             case e of
                               Some re \<Rightarrow> Some ((fst r # rest,
                                  Some (wrap (''setting '' @ n_Name replica @ '' as replica of '' @ n_Name primary) re)), s)
                             | None \<Rightarrow>
                                 do { (rr, s) \<leftarrow> set_replicas_loop E prims replicasPerPrimary (i + 1) rest s;
                                      Some ((fst r # fst rr, snd rr), s) } } })"

definition setReplicas :: "env \<Rightarrow> node list \<Rightarrow> node list \<Rightarrow> int \<Rightarrow> st \<Rightarrow> (node list \<times> err option) op" where
  "setReplicas E prims replicas replicasPerPrimary s =
     set_replicas_loop E prims replicasPerPrimary 0 replicas s"

definition serving :: "cluster_info \<Rightarrow> bool" where
  "serving info = (ci_State info = ''ok'' \<and> ci_SlotsOK info = clusterTotalSlots)"

definition clusterAlreadyFormed :: "env \<Rightarrow> node list \<Rightarrow> st \<Rightarrow> (node list \<times> (err + bool)) op" where
  "clusterAlreadyFormed E nodes s =
     (case nodes of
        [] \<Rightarrow> None
      | seed # _ \<Rightarrow>
          do { (r, s) \<leftarrow> GetClusterInfo E (client_of seed) s;
               case r of
                 Inl e \<Rightarrow> Some ((nodes, Inl e), s)
               | Inr info \<Rightarrow>
                   if \<not> serving info then Some ((nodes, Inr False), s)
                   else do { (rr, s) \<leftarrow> refreshRoles E nodes s;
                             case snd rr of
                               Some e \<Rightarrow> Some ((fst rr, Inl e), s)
                             | None \<Rightarrow>
                                 let replicas = int (length (filter NodeIsReplica (fst rr)));
                                     primariesWithSlots = int (length (filter (\<lambda>n. \<not> NodeIsReplica n \<and> n_Slots n \<noteq> []) (fst rr)));
                                     sp = spec_of s
                                 in Some ((fst rr, Inr (primariesWithSlots = primaries sp
                                       \<and> replicas = primaries sp * replicas_per_primary sp)), s) } })"

definition verifyCluster :: "env \<Rightarrow> node \<Rightarrow> st \<Rightarrow> (err + bool) op" where
  "verifyCluster E seed s =
     do { (r, s) \<leftarrow> GetClusterInfo E (client_of seed) s;
          Some (case r of Inl e \<Rightarrow> Inl e | Inr info \<Rightarrow> Inr (serving info), s) }"

section \<open>Healing the topology\<close>

definition pod_nodes :: "(string \<times> string) list \<Rightarrow> health_node list" where
  "pod_nodes podAddrs = map (\<lambda>(name, addr). \<lparr>hn_Name = name, hn_Addr = addr\<rparr>) podAddrs"

definition healTopology :: "env \<Rightarrow> bool \<Rightarrow> st \<Rightarrow> (bool \<times> err option) op" where
  "healTopology E meetMissing s =
     do { (r, s) \<leftarrow> GetPodAddresses E s;
          case r of
            Inl e \<Rightarrow> Some ((False, Some (wrap ''getting pod addresses for topology healing'' e)), s)
          | Inr podAddrs \<Rightarrow>
              if podAddrs = [] then Some ((False, None), s)
              else do { (order, s) \<leftarrow> map_order E podAddrs s;
                        (password, s) \<leftarrow> getPassword E (spec_of s) s;
                        HealMembership E (pod_nodes order) password meetMissing (sp_Ephemeral (spec_of s)) s } }"

definition ensureReplicaTopology :: "env \<Rightarrow> st \<Rightarrow> (bool \<times> err option) op" where
  "ensureReplicaTopology E s =
     (if primaries (spec_of s) = 0 then Some ((True, None), s)
      else do { (r, s) \<leftarrow> GetPodAddresses E s;
                case r of
                  Inl e \<Rightarrow> Some ((False, Some (wrap ''getting pod addresses for replica topology check'' e)), s)
                | Inr podAddrs \<Rightarrow>
                    if podAddrs = [] then Some ((True, None), s)
                    else do { (order, s) \<leftarrow> map_order E podAddrs s;
                              (password, s) \<leftarrow> getPassword E (spec_of s) s;
                              (h, s) \<leftarrow> HealMembership E (pod_nodes order) password True (sp_Ephemeral (spec_of s)) s;
                              case snd h of
                                Some e \<Rightarrow> Some ((False, Some (wrap ''healing membership before replica topology check'' e)), s)
                              | None \<Rightarrow>
                                  if fst h then Some ((False, None), s)
                                  else do { (t, s) \<leftarrow> RemediateReplicaTopology E (pod_nodes order) password
                                                        (primaries (spec_of s)) (replicas_per_primary (spec_of s)) s;
                                            (case t of (ok, _, e) \<Rightarrow>
                                               Some (if e \<noteq> None then (False, e) else (ok, None), s)) } } })"

text \<open>\<open>formCluster\<close> returns its verdict and the nodes as it refreshed them.\<close>

definition form_assign :: "env \<Rightarrow> node list \<Rightarrow> st \<Rightarrow> (bool \<times> node list) op" where
  "form_assign E nodes s =
     (case slice_upto (primaries (spec_of s)) nodes of
        None \<Rightarrow> None
      | Some prims \<Rightarrow>
          do { (a, s) \<leftarrow> assignSlots E prims s;
               case snd a of
                 Some err \<Rightarrow>
                   if Contains err ''already busy''
                   then do { (h, s) \<leftarrow> healTopology E False s; Some ((False, update_nodes (fst a) nodes), s) }
                   else Some ((False, update_nodes (fst a) nodes), s)
               | None \<Rightarrow> Some ((True, update_nodes (fst a) nodes), s) })"

definition form_replicas :: "env \<Rightarrow> node list \<Rightarrow> st \<Rightarrow> (bool \<times> node list) op" where
  "form_replicas E nodes s =
     (if replicas_per_primary (spec_of s) \<le> 0 then Some ((True, nodes), s)
      else do { (c, s) \<leftarrow> checkGossipConvergence E nodes s;
                case c of
                  Inl _ \<Rightarrow> Some ((False, nodes), s)
                | Inr converged \<Rightarrow>
                    if \<not> converged then Some ((False, nodes), s)
                    else
                      case (slice_upto (primaries (spec_of s)) nodes, slice_from (primaries (spec_of s)) nodes) of
                        (Some prims, Some reps) \<Rightarrow>
                          do { (r, s) \<leftarrow> setReplicas E prims reps (replicas_per_primary (spec_of s)) s;
                               Some ((snd r = None, update_nodes (fst r) nodes), s) }
                      | _ \<Rightarrow> None })"

definition form_verify :: "env \<Rightarrow> node list \<Rightarrow> st \<Rightarrow> (bool \<times> node list) op" where
  "form_verify E nodes s =
     (case nodes of
        [] \<Rightarrow> None
      | seed # _ \<Rightarrow>
          do { (v, s) \<leftarrow> verifyCluster E seed s;
               Some ((case v of Inl _ \<Rightarrow> False | Inr ok \<Rightarrow> ok, nodes), s) })"

definition formCluster :: "env \<Rightarrow> node list \<Rightarrow> st \<Rightarrow> (bool \<times> node list) op" where
  "formCluster E nodes s =
     do { (e, s) \<leftarrow> meetNodes E nodes s;
          if e \<noteq> None then Some ((False, nodes), s)
          else do { (f, s) \<leftarrow> clusterAlreadyFormed E nodes s;
                    let nodes = fst f
                    in if snd f = Inr True then Some ((True, nodes), s)
                       else do { (a, s) \<leftarrow> form_assign E nodes s;
                                 if \<not> fst a then Some (a, s)
                                 else do { (r, s) \<leftarrow> form_replicas E (snd a) s;
                                           if \<not> fst r then Some (r, s)
                                           else form_verify E (snd r) s } } } }"

section \<open>Passwords\<close>

fun config_set_each :: "env \<Rightarrow> string \<Rightarrow> string \<Rightarrow> (string \<times> string) list \<Rightarrow> st \<Rightarrow> err option op" where
  "config_set_each E oldPassword newPassword [] s = Some (None, s)"
| "config_set_each E oldPassword newPassword ((name, addr) # rest) s =
     do { (e, s) \<leftarrow> ClientConfigSet E (addr, oldPassword) ''requirepass'' newPassword s;
          case e of
            Some ce \<Rightarrow> Some (Some (wrap (''CONFIG SET requirepass on '' @ name) ce), s)
          | None \<Rightarrow>
              do { (e, s) \<leftarrow> ClientConfigSet E (addr, oldPassword) ''masterauth'' newPassword s;
                   case e of
                     Some ce \<Rightarrow> Some (Some (wrap (''CONFIG SET masterauth on '' @ name) ce), s)
                   | None \<Rightarrow> config_set_each E oldPassword newPassword rest s } }"

definition applyAuthCredentials :: "env \<Rightarrow> string \<Rightarrow> string \<Rightarrow> st \<Rightarrow> err option op" where
  "applyAuthCredentials E oldPassword newPassword s =
     do { (r, s) \<leftarrow> GetPodAddresses E s;
          case r of
            Inl e \<Rightarrow> Some (Some (wrap ''getting pod addresses for auth config'' e), s)
          | Inr podAddrs \<Rightarrow>
              do { (order, s) \<leftarrow> map_order E podAddrs s;
                   (e, s) \<leftarrow> config_set_each E oldPassword newPassword order s;
                   case e of
                     Some ce \<Rightarrow> Some (Some ce, s)
                   | None \<Rightarrow>
                       do { (e, s) \<leftarrow> UpdateConfigMap E (spec_of s) newPassword s;
                            case e of
                              Some ue \<Rightarrow> Some (Some (wrap ''updating ConfigMap with new auth'' ue), s)
                            | None \<Rightarrow> Some (None, s\<lparr>run := SetAuthSecret (sp_AuthSecretName (spec_of s)) (run s)\<rparr>) } } }"

definition applyAuthToAllNodes :: "env \<Rightarrow> redkey_config \<Rightarrow> st \<Rightarrow> err option op" where
  "applyAuthToAllNodes E previousConfig s =
     do { (newPassword, s) \<leftarrow> getPassword E (spec_of s) s;
          (oldPassword, s) \<leftarrow> getPassword E (rc_Spec previousConfig) s;
          applyAuthCredentials E oldPassword newPassword s }"

definition reconcileAuthRotation :: "env \<Rightarrow> string \<Rightarrow> st \<Rightarrow> err option op" where
  "reconcileAuthRotation E currentPassword s =
     do { (r, s) \<leftarrow> GetConfigMapPassword E s;
          case r of
            Inl e \<Rightarrow> Some (Some (wrap ''reading current node password from ConfigMap'' e), s)
          | Inr found \<Rightarrow>
              if found = None \<or> found = Some currentPassword then Some (None, s)
              else do { (e, s) \<leftarrow> applyAuthCredentials E (the found) currentPassword s;
                        Some (wrapped ''applying rotated auth'' e, s) } }"

section \<open>The shape of a handler\<close>

text \<open>A handler returns when to reconcile next and an error. Its steps have four shapes: an error of a
  step ends the handler with the error (\<open>or_fail\<close>, \<open>get_or_fail\<close>; an empty context leaves it as it is)
  or is logged and retried after the wait interval (\<open>or_retry\<close>, \<open>get_or_retry\<close>).\<close>

type_synonym outcome = "reconcileSchedule \<times> err option"

definition ends :: "reconcileSchedule \<Rightarrow> st \<Rightarrow> outcome op" where
  "ends schedule s = Some ((schedule, None), s)"

definition in_context :: "string \<Rightarrow> err \<Rightarrow> err" where
  "in_context context e = (if context = [] then e else wrap context e)"

definition or_fail :: "string \<Rightarrow> (st \<Rightarrow> err option op) \<Rightarrow> (st \<Rightarrow> outcome op) \<Rightarrow> st \<Rightarrow> outcome op" where
  "or_fail context m k s =
     do { (e, s) \<leftarrow> m s;
          case e of Some err \<Rightarrow> Some ((reconcileAfterInterval, Some (in_context context err)), s) | None \<Rightarrow> k s }"

definition get_or_fail :: "string \<Rightarrow> (st \<Rightarrow> (err + 'a) op) \<Rightarrow> ('a \<Rightarrow> st \<Rightarrow> outcome op) \<Rightarrow> st \<Rightarrow> outcome op" where
  "get_or_fail context m k s =
     do { (r, s) \<leftarrow> m s;
          case r of Inl err \<Rightarrow> Some ((reconcileAfterInterval, Some (in_context context err)), s) | Inr x \<Rightarrow> k x s }"

definition or_retry :: "(st \<Rightarrow> err option op) \<Rightarrow> (st \<Rightarrow> outcome op) \<Rightarrow> st \<Rightarrow> outcome op" where
  "or_retry m k s =
     do { (e, s) \<leftarrow> m s; if e \<noteq> None then ends reconcileAfterWaitInterval s else k s }"

definition get_or_retry :: "(st \<Rightarrow> (err + 'a) op) \<Rightarrow> ('a \<Rightarrow> st \<Rightarrow> outcome op) \<Rightarrow> st \<Rightarrow> outcome op" where
  "get_or_retry m k s =
     do { (r, s) \<leftarrow> m s; case r of Inl _ \<Rightarrow> ends reconcileAfterWaitInterval s | Inr x \<Rightarrow> k x s }"

text \<open>A step without a result, and one whose error is only logged.\<close>

definition andthen :: "(st \<Rightarrow> 'a op) \<Rightarrow> (st \<Rightarrow> outcome op) \<Rightarrow> st \<Rightarrow> outcome op" where
  "andthen m k s = do { (u, s) \<leftarrow> m s; k s }"

lemma keeps_steps [keeps_intro]:
  "I s \<Longrightarrow> keeps I (ends sch s)"
  "keeps I (m1 s) \<Longrightarrow> (\<And>s. I s \<Longrightarrow> keeps I (k s)) \<Longrightarrow> keeps I (or_fail c m1 k s)"
  "keeps I (m2 s) \<Longrightarrow> (\<And>x s. I s \<Longrightarrow> keeps I (k2 x s)) \<Longrightarrow> keeps I (get_or_fail c m2 k2 s)"
  "keeps I (m1 s) \<Longrightarrow> (\<And>s. I s \<Longrightarrow> keeps I (k s)) \<Longrightarrow> keeps I (or_retry m1 k s)"
  "keeps I (m2 s) \<Longrightarrow> (\<And>x s. I s \<Longrightarrow> keeps I (k2 x s)) \<Longrightarrow> keeps I (get_or_retry m2 k2 s)"
  "keeps I (m3 s) \<Longrightarrow> (\<And>s. I s \<Longrightarrow> keeps I (k s)) \<Longrightarrow> keeps I (andthen m3 k s)"
  unfolding ends_def or_fail_def get_or_fail_def or_retry_def get_or_retry_def andthen_def
  by (intro keeps_intro; simp add: ends_def keeps_Some)+

end
