(* ===== verification/Scale.thy ===== *)
theory Scale
  imports Cluster_Ops
begin

text \<open>
  \<open>reconciler/scale_reconciler.go\<close> and \<open>scale_zero_reconciler.go\<close>: growing and shrinking a cluster,
  recreating it (fast scaling) and removing it. The decisions that the code takes from the roles of
  the nodes - which join as primaries, which are kept, drained and removed - are the functions
  \<open>classify\<close>, \<open>scale_up_plan\<close> and \<open>scale_down_plan\<close>; the handlers carry them out phase by phase.

  The probes that the code runs concurrently (\<open>mastersReachable\<close>, \<open>anyMasterHasOpenSlots\<close>) are sent in
  an order the environment chooses. The watchdog that cancels a running repair only reads; its
  cancellation is an outcome of the repair.
\<close>

section \<open>Helpers\<close>

definition defaultRebalanceMaxAttempts :: nat where "defaultRebalanceMaxAttempts = 5"

definition fastScalingEligible :: "config_spec \<Rightarrow> bool" where
  "fastScalingEligible sp =
     (if \<not> sp_Ephemeral sp then False
      else if replicas_per_primary sp \<noteq> 0 then False
      else sp_PurgeKeysOnRebalance sp = Some True)"

definition hasReplicaNodes :: "node list \<Rightarrow> bool" where
  "hasReplicaNodes nodes = list_ex NodeIsReplica nodes"

definition filterUnmet :: "node list \<Rightarrow> string set \<Rightarrow> node list" where
  "filterUnmet nodes memberIDs = filter (\<lambda>n. n_ID n \<notin> memberIDs) nodes"

definition ordinalOf :: "string \<Rightarrow> int" where
  "ordinalOf name =
     (let idx = LastIndex name ''-''
      in if idx < 0 \<or> idx = int (length name) - 1 then 2 ^ 30
         else case Atoi (drop (nat (idx + 1)) name) of
                (v, None) \<Rightarrow> v
              | (v, Some _) \<Rightarrow> 2 ^ 30)"

definition initAllNodes :: "env \<Rightarrow> string \<Rightarrow> st \<Rightarrow> (err + node list) op" where
  "initAllNodes E password s =
     (let cc = RuntimeClusterConfig (run s)
      in do { (r, s) \<leftarrow> GetPodAddresses E s;
              case r of
                Inl e \<Rightarrow> Some (Inl (wrap ''getting pod addresses'' e), s)
              | Inr podAddrs \<Rightarrow>
                  do { (order, s) \<leftarrow> map_order E (map fst podAddrs) s;
                       init_nodes E podAddrs password (cc_ConnectionMaxRetries cc)
                         (seconds (cc_ConnectionBackOffSeconds cc)) (sort_key ordinalOf order) s } })"

definition slotsStable :: "env \<Rightarrow> node \<Rightarrow> st \<Rightarrow> (err + bool) op" where
  "slotsStable E seed s =
     do { (r, s) \<leftarrow> GetClusterNodes E (client_of seed) s;
          Some (case r of Inl e \<Rightarrow> Inl e | Inr nodes \<Rightarrow> Inr (\<not> HasInFlightSlots nodes), s) }"

section \<open>Rebalancing with repairs\<close>

definition master_addrs :: "cluster_node list \<Rightarrow> string list" where
  "master_addrs nodes =
     map (\<lambda>cn. redis_addr (cn_IP cn)) (filter (\<lambda>cn. \<not> (cn_IP cn = [] \<or> \<not> Contains (cn_Flags cn) ''master'')) nodes)"

fun probe_open :: "env \<Rightarrow> string \<Rightarrow> string list \<Rightarrow> st \<Rightarrow> bool op" where
  "probe_open E password [] s = Some (False, s)"
| "probe_open E password (addr # rest) s =
     do { (r, s) \<leftarrow> GetClusterNodes E (addr, password) s;
          (others, s) \<leftarrow> probe_open E password rest s;
          Some ((case r of Inl _ \<Rightarrow> False | Inr nodes \<Rightarrow> HasInFlightSlots nodes) \<or> others, s) }"

definition anyMasterHasOpenSlots :: "env \<Rightarrow> cluster_node list \<Rightarrow> string \<Rightarrow> st \<Rightarrow> bool op" where
  "anyMasterHasOpenSlots E clusterNodes password s =
     do { (order, s) \<leftarrow> map_order E (master_addrs clusterNodes) s; probe_open E password order s }"

fun probe_reachable :: "env \<Rightarrow> string \<Rightarrow> string list \<Rightarrow> st \<Rightarrow> bool op" where
  "probe_reachable E password [] s = Some (True, s)"
| "probe_reachable E password (addr # rest) s =
     do { (r, s) \<leftarrow> GetClusterInfo E (addr, password) s;
          (others, s) \<leftarrow> probe_reachable E password rest s;
          Some ((case r of Inl _ \<Rightarrow> False | Inr _ \<Rightarrow> True) \<and> others, s) }"

definition mastersReachable :: "env \<Rightarrow> node \<Rightarrow> string \<Rightarrow> st \<Rightarrow> bool op" where
  "mastersReachable E seed password s =
     do { (r, s) \<leftarrow> GetClusterNodes E (client_of seed) s;
          case r of
            Inl _ \<Rightarrow> Some (False, s)
          | Inr clusterNodes \<Rightarrow>
              do { (order, s) \<leftarrow> map_order E (master_addrs clusterNodes) s; probe_reachable E password order s } }"

definition runClusterFix :: "env \<Rightarrow> node \<Rightarrow> string \<Rightarrow> st \<Rightarrow> err option op" where
  "runClusterFix E seed password s =
     do { (r, s) \<leftarrow> ClusterFix E (client_of seed) s;
          Some (case r of Inl e \<Rightarrow> Some (wrap ''cluster fix'' e) | Inr _ \<Rightarrow> None, s) }"

text \<open>\<open>redis.HasInFlightSlots(clusterNodes) || cr.anyMasterHasOpenSlots(...)\<close> probes only when the first
  is false.\<close>

definition recoverOpenSlots :: "env \<Rightarrow> node \<Rightarrow> string \<Rightarrow> st \<Rightarrow> err option op" where
  "recoverOpenSlots E seed password s =
     do { (r, s) \<leftarrow> GetClusterNodes E (client_of seed) s;
          case r of
            Inl e \<Rightarrow> Some (Some e, s)
          | Inr clusterNodes \<Rightarrow>
              do { (inFlight, s) \<leftarrow> (if HasInFlightSlots clusterNodes then Some (True, s)
                                     else anyMasterHasOpenSlots E clusterNodes password s);
                   if \<not> inFlight \<and> SlotsFullyCovered clusterNodes then Some (None, s)
                   else runClusterFix E seed password s } }"

definition runRebalanceOnce :: "env \<Rightarrow> node \<Rightarrow> (string \<times> int) list \<Rightarrow> st \<Rightarrow> err option op" where
  "runRebalanceOnce E seed weights s =
     do { (r, s) \<leftarrow> ClusterRebalanceWithWeights E (client_of seed) weights s;
          Some (case r of Inl e \<Rightarrow> Some e | Inr _ \<Rightarrow> None, s) }"

definition with_last :: "string \<Rightarrow> err option \<Rightarrow> err" where
  "with_last context lastErr = (case lastErr of None \<Rightarrow> context | Some e \<Rightarrow> wrap context e)"

text \<open>The retry loop: \<open>left\<close> attempts remain.\<close>

fun rebalance_loop ::
  "env \<Rightarrow> node \<Rightarrow> (string \<times> int) list \<Rightarrow> bool \<Rightarrow> string \<Rightarrow> int \<Rightarrow> nat \<Rightarrow> err option \<Rightarrow> st \<Rightarrow> err option op" where
  "rebalance_loop E seed weights meetMissing password backoff 0 lastErr s =
     Some (Some (with_last (''rebalance from '' @ n_Name seed @ '' did not converge after ''
       @ Itoa (int defaultRebalanceMaxAttempts) @ '' attempt(s)'') lastErr), s)"
| "rebalance_loop E seed weights meetMissing password backoff (Suc left) lastErr s =
     do { (h, s) \<leftarrow> healTopology E meetMissing s;
          if snd h = None \<and> fst h then
            Some (Some (case lastErr of
              Some e \<Rightarrow> wrap (''topology changed while rebalancing from '' @ n_Name seed @ '', re-evaluating from a clean state'') e
            | None \<Rightarrow> ''topology changed before rebalancing from '' @ n_Name seed @ '', re-evaluating from a clean state''), s)
          else do { (reachable, s) \<leftarrow> mastersReachable E seed password s;
                    if \<not> reachable then
                      Some (Some (with_last (''rebalance from '' @ n_Name seed @ '' deferred, a cluster master is unreachable'') lastErr), s)
                    else do { (re, s) \<leftarrow> recoverOpenSlots E seed password s;
                              (e, s) \<leftarrow> runRebalanceOnce E seed weights s;
                              case e of
                                None \<Rightarrow> Some (None, s)
                              | Some err \<Rightarrow>
                                  do { (ce, s) \<leftarrow> ctx_err E s;
                                       if ce \<noteq> None then Some (ce, s)
                                       else if left = 0
                                       then rebalance_loop E seed weights meetMissing password backoff left (Some err) s
                                       else do { (fe, s) \<leftarrow> runClusterFix E seed password s;
                                                 (done, s) \<leftarrow> sleep E backoff s;
                                                 if done \<noteq> None then Some (done, s)
                                                 else rebalance_loop E seed weights meetMissing password backoff left (Some err) s } } } } }"

definition rebalanceWithRetry ::
  "env \<Rightarrow> node \<Rightarrow> (string \<times> int) list \<Rightarrow> bool \<Rightarrow> st \<Rightarrow> err option op" where
  "rebalanceWithRetry E seed weights meetMissing s =
     (let backoff = (if clusterMeetWait (run s) \<le> 0 then seconds 1 else clusterMeetWait (run s))
      in do { (password, s) \<leftarrow> getPassword E (spec_of s) s;
              rebalance_loop E seed weights meetMissing password backoff defaultRebalanceMaxAttempts None s })"

section \<open>Removing nodes\<close>

fun forget_on :: "env \<Rightarrow> string \<Rightarrow> node list \<Rightarrow> st \<Rightarrow> unit op" where
  "forget_on E nodeID [] s = Some ((), s)"
| "forget_on E nodeID (k # keep) s =
     (if n_ID k = nodeID then forget_on E nodeID keep s
      else do { (e, s) \<leftarrow> ClusterForget E (client_of k) nodeID s; forget_on E nodeID keep s })"

fun remove_each :: "env \<Rightarrow> node list \<Rightarrow> node list \<Rightarrow> st \<Rightarrow> unit op" where
  "remove_each E keep [] s = Some ((), s)"
| "remove_each E keep (n # rest) s =
     do { (u, s) \<leftarrow> forget_on E (n_ID n) keep s;
          (e, s) \<leftarrow> ClientShutdownSave E (client_of n) s;
          remove_each E keep rest s }"

definition removal_order :: "node list \<Rightarrow> node list" where
  "removal_order remove = filter NodeIsReplica remove @ filter (\<lambda>n. \<not> NodeIsReplica n) remove"

definition removeNodes :: "env \<Rightarrow> node list \<Rightarrow> node list \<Rightarrow> st \<Rightarrow> err option op" where
  "removeNodes E keep remove s =
     do { (u, s) \<leftarrow> remove_each E keep (removal_order remove) s;
          if 0 < clusterMeetWait (run s) then sleep E (clusterMeetWait (run s)) s else Some (None, s) }"

section \<open>Finishing\<close>

definition finishScaling :: "env \<Rightarrow> node list \<Rightarrow> st \<Rightarrow> outcome op" where
  "finishScaling E nodes s =
     do { (t, s) \<leftarrow> ensureReplicaTopology E s;
          if snd t \<noteq> None \<or> \<not> fst t then ends reconcileAfterWaitInterval s
          else or_fail [] (updateClusterStatus E Ready)
                (or_fail [] (setConfigPhaseApplied E) (\<lambda>s.
                   do { (password, s) \<leftarrow> getPassword E (spec_of s) s;
                        (u, s) \<leftarrow> refreshHealthConditions E password s;
                        (e, s) \<leftarrow> updateNodeStatus E nodes s;
                        ends reconcileAfterInterval s }))
                (set_status (\<lambda>x. x\<lparr>cs_Substatus := SubEmpty\<rparr>) s) }"

section \<open>Fast scaling\<close>

definition fast_form :: "env \<Rightarrow> st \<Rightarrow> outcome op" where
  "fast_form E =
     andthen (updateSubstatus E WaitingForPods) (\<lambda>s.
       get_or_fail ''checking pod readiness during fast scaling'' (AllPodsReady E (total_replicas32 (spec_of s))) (\<lambda>ready s.
         if \<not> ready then ends reconcileAfterWaitInterval s
         else do { (password, s) \<leftarrow> getPassword E (spec_of s) s;
                   get_or_fail ''initializing nodes for fast scaling'' (initNodes E password) (\<lambda>nodes s.
                     if int (length nodes) < totalNodes (spec_of s) then ends reconcileAfterWaitInterval s
                     else do { (u, s) \<leftarrow> updateSubstatus E FormingCluster s;
                               (f, s) \<leftarrow> formCluster E nodes s;
                               if \<not> fst f then ends reconcileAfterWaitInterval s
                               else finishScaling E (snd f) s }) s }) s)"

definition recreate_objects :: "env \<Rightarrow> st \<Rightarrow> outcome op" where
  "recreate_objects E =
     andthen (updateSubstatus E RecreatingCluster)
       (get_or_fail ''getting owner for fast scaling'' (getOwner E) (\<lambda>owner s.
          do { (password, s) \<leftarrow> getPassword E (spec_of s) s;
               or_fail ''recreating cluster objects for fast scaling'' (EnsureClusterObjects E owner (spec_of s) password)
                 (ends reconcileAfterWaitInterval) s }))"

definition handleFastScaling :: "env \<Rightarrow> st \<Rightarrow> outcome op" where
  "handleFastScaling E =
     get_or_fail ''checking StatefulSet for fast scaling'' (StatefulSetExists E) (\<lambda>exists s.
       if \<not> exists then recreate_objects E s
       else get_or_fail ''reading StatefulSet replicas for fast scaling'' (GetStatefulSetReplicas E) (\<lambda>current s.
              if sint current \<noteq> totalNodes (spec_of s)
              then andthen (updateSubstatus E DeletingStatefulSet)
                     (or_fail ''deleting StatefulSet for fast scaling'' (DeleteStatefulSet E)
                        (ends reconcileAfterWaitInterval)) s
              else fast_form E s) s)"

section \<open>Scaling up\<close>

text \<open>The roles in which scale-up finds the nodes; existing nodes are refreshed first.\<close>

datatype member_class = ExistingPrimary | ExistingReplica | PendingNode | NewNode

fun classify :: "env \<Rightarrow> string set \<Rightarrow> node list \<Rightarrow> st \<Rightarrow> (err + (node \<times> member_class) list) op" where
  "classify E memberIDs [] s = Some (Inr [], s)"
| "classify E memberIDs (n # rest) s =
     do { (r, s) \<leftarrow> (if n_ID n \<in> memberIDs then
             do { (rr, s) \<leftarrow> NodeRefreshInfo E n s;
                  Some (case snd rr of
                          Some e \<Rightarrow> Inl (wrap (''refreshing existing node '' @ n_Name n) e)
                        | None \<Rightarrow> Inr (fst rr, if NodeIsReplica (fst rr) then ExistingReplica
                                              else if n_Slots (fst rr) \<noteq> [] then ExistingPrimary else PendingNode), s) }
           else Some (Inr (n, NewNode), s));
          case r of
            Inl e \<Rightarrow> Some (Inl e, s)
          | Inr c \<Rightarrow> do { (cs, s) \<leftarrow> classify E memberIDs rest s;
                         Some (case cs of Inl e \<Rightarrow> Inl e | Inr ds \<Rightarrow> Inr (c # ds), s) } }"

definition of_class :: "member_class \<Rightarrow> (node \<times> member_class) list \<Rightarrow> node list" where
  "of_class k cs = map fst (filter (\<lambda>c. snd c = k) cs)"

text \<open>The nodes that become primaries and those that become replicas: nodes already met come first.
  \<open>None\<close>: too few.\<close>

definition scale_up_plan :: "int \<Rightarrow> (node \<times> member_class) list \<Rightarrow> (node list \<times> node list) option" where
  "scale_up_plan primaryCount cs =
     (let available = of_class PendingNode cs @ of_class NewNode cs;
          needed = max 0 (primaryCount - int (length (of_class ExistingPrimary cs)))
      in if needed > int (length available) then None
         else Some (take (nat needed) available, drop (nat needed) available))"

definition join_group :: "env \<Rightarrow> node list \<Rightarrow> node list \<Rightarrow> st \<Rightarrow> bool op" where
  "join_group E meetGroup gossipGroup s =
     do { (e, s) \<leftarrow> meetNodes E meetGroup s;
          if e \<noteq> None then Some (False, s)
          else do { (c, s) \<leftarrow> checkGossipConvergence E gossipGroup s;
                    Some (case c of Inl _ \<Rightarrow> False | Inr converged \<Rightarrow> converged, s) } }"

definition scale_up_verify :: "env \<Rightarrow> node list \<Rightarrow> st \<Rightarrow> outcome op" where
  "scale_up_verify E nodes =
     andthen (updateSubstatus E Verifying) (\<lambda>s.
       case nodes of
         [] \<Rightarrow> None
       | seed # _ \<Rightarrow>
           get_or_retry (verifyCluster E seed) (\<lambda>ok s.
             if \<not> ok then ends reconcileAfterWaitInterval s else finishScaling E nodes s) s)"

definition scale_up_attach ::
  "env \<Rightarrow> string set \<Rightarrow> node list \<Rightarrow> node list \<Rightarrow> node list \<Rightarrow> node list \<Rightarrow> st \<Rightarrow> outcome op" where
  "scale_up_attach E memberIDs nodes allPrimaries allReplicas futureReplicas s =
     (if 0 < replicas_per_primary (spec_of s) \<and> allReplicas \<noteq> [] then
        do { (u, s) \<leftarrow> updateSubstatus E AttachingReplicas s;
             (joined, s) \<leftarrow> (let unmeet = filterUnmet futureReplicas memberIDs
                in if unmeet \<noteq> [] then join_group E (allPrimaries @ unmeet) (allPrimaries @ allReplicas) s
                   else Some (True, s));
             if \<not> joined then ends reconcileAfterWaitInterval s
             else do { (r, s) \<leftarrow> refreshRoles E nodes s;
                       if snd r \<noteq> None then ends reconcileAfterWaitInterval s
                       else do { (a, s) \<leftarrow> setReplicas E allPrimaries (update_nodes (fst r) allReplicas)
                                             (replicas_per_primary (spec_of s)) s;
                                 if snd a \<noteq> None then ends reconcileAfterWaitInterval s
                                 else scale_up_verify E (update_nodes (fst a) (fst r)) s } } }
      else scale_up_verify E nodes s)"

definition scale_up_slots :: "env \<Rightarrow> string \<Rightarrow> node \<Rightarrow> bool \<Rightarrow> (st \<Rightarrow> outcome op) \<Rightarrow> st \<Rightarrow> outcome op" where
  "scale_up_slots E password anchorNode newPrimaries k =
     (if newPrimaries
      then andthen (updateSubstatus E Rebalancing)
             (or_retry (rebalanceWithRetry E anchorNode [] False)
               (get_or_retry (slotsStable E anchorNode) (\<lambda>stable s.
                 if \<not> stable then ends reconcileAfterWaitInterval s else k s)))
      else or_retry (recoverOpenSlots E anchorNode password) k)"

definition scale_up_members ::
  "env \<Rightarrow> string \<Rightarrow> string set \<Rightarrow> (node \<times> member_class) list \<Rightarrow> st \<Rightarrow> outcome op" where
  "scale_up_members E password memberIDs cs s =
     (let nodes = map fst cs;
          existingPrimaries = of_class ExistingPrimary cs; existingReplicas = of_class ExistingReplica cs
      in case scale_up_plan (primaries (spec_of s)) cs of
           None \<Rightarrow>
             if 0 < int (length existingReplicas) - primaries (spec_of s) * replicas_per_primary (spec_of s)
             then do { (t, s) \<leftarrow> ensureReplicaTopology E s;
                       if snd t \<noteq> None then ends reconcileAfterWaitInterval s else ends reconcileImmediately s }
             else ends reconcileAfterWaitInterval s
         | Some (futurePrimaries, futureReplicas) \<Rightarrow>
             let allPrimaries = existingPrimaries @ futurePrimaries
             in case allPrimaries @ nodes of
                  [] \<Rightarrow> None
                | anchorNode # _ \<Rightarrow>
                    do { (u, s) \<leftarrow> updateSubstatus E InitializingNodes s;
                         (joined, s) \<leftarrow> (let unmeet = filterUnmet futurePrimaries memberIDs
                            in if unmeet \<noteq> [] then join_group E (existingPrimaries @ unmeet) (existingPrimaries @ unmeet) s
                               else Some (True, s));
                         if \<not> joined then ends reconcileAfterWaitInterval s
                         else do { (h, s) \<leftarrow> healTopology E False s;
                                   if snd h \<noteq> None then ends reconcileAfterWaitInterval s
                                   else if fst h then ends reconcileImmediately s
                                   else scale_up_slots E password anchorNode (futurePrimaries \<noteq> [])
                                          (scale_up_attach E memberIDs nodes allPrimaries
                                             (existingReplicas @ futureReplicas) futureReplicas) s } })"

definition member_ids :: "cluster_node list \<Rightarrow> string set" where
  "member_ids members = cn_ID ` {cm \<in> set members. cn_ID cm \<noteq> [] \<and> \<not> Contains (cn_Flags cm) ''handshake''}"

definition handleScalingUp :: "env \<Rightarrow> st \<Rightarrow> outcome op" where
  "handleScalingUp E s =
     (if fastScalingEligible (spec_of s) then handleFastScaling E s
      else
        let target = total_replicas32 (spec_of s)
        in andthen (updateSubstatus E WaitingForPods)
             (or_fail ''scaling StatefulSet up'' (ScaleStatefulSet E target)
               (get_or_fail ''checking pod readiness during scale up'' (AllPodsReady E target) (\<lambda>ready s.
                  if \<not> ready then ends reconcileAfterWaitInterval s
                  else do { (password, s) \<leftarrow> getPassword E (spec_of s) s;
                            get_or_fail ''initializing nodes for scale up'' (initNodes E password) (\<lambda>nodes s.
                              if int (length nodes) < sint target then ends reconcileAfterWaitInterval s
                              else case nodes of
                                     [] \<Rightarrow> None
                                   | seed # _ \<Rightarrow>
                                       get_or_fail ''getting cluster nodes for topology discovery''
                                         (GetClusterNodes E (client_of seed)) (\<lambda>members.
                                            get_or_fail [] (classify E (member_ids members) nodes)
                                              (scale_up_members E password (member_ids members))) s) s }))) s)"

section \<open>Scaling down\<close>

text \<open>Which nodes stay and which go, by their current role: the first primaries and the first replicas in
  ordinal order are kept.\<close>

record scale_down_parts =
  keepPrimaries :: "node list"
  drainPrimariesOf :: "node list"
  keepReplicas :: "node list"
  removeReplicas :: "node list"

definition scale_down_plan :: "nat \<Rightarrow> nat \<Rightarrow> node list \<Rightarrow> scale_down_parts" where
  "scale_down_plan targetPrimaries targetReplicas nodes =
     (let currentPrimaries = filter NodeIsPrimary nodes;
          currentReplicas = filter (\<lambda>n. \<not> NodeIsPrimary n) nodes
      in \<lparr>keepPrimaries = take targetPrimaries currentPrimaries,
          drainPrimariesOf = drop targetPrimaries currentPrimaries,
          keepReplicas = take targetReplicas currentReplicas,
          removeReplicas = drop targetReplicas currentReplicas\<rparr>)"

definition holds_slots :: "node \<Rightarrow> bool" where
  "holds_slots n = (TrimSpace (n_Slots n) \<noteq> [])"

definition drain_weights :: "node list \<Rightarrow> node list \<Rightarrow> (string \<times> int) list" where
  "drain_weights keep drain =
     foldl (\<lambda>m n. assoc_put (n_ID n) 0 m) (foldl (\<lambda>m n. assoc_put (n_ID n) 1 m) [] keep) drain"

text \<open>Draining returns the drained primaries as they were last seen, or \<open>None\<close> when the pass ends here.\<close>

definition drain_phase :: "env \<Rightarrow> node list \<Rightarrow> node list \<Rightarrow> st \<Rightarrow> node list option op" where
  "drain_phase E keepP drainP s =
     (if drainP = [] then Some (Some drainP, s)
      else do { (u, s) \<leftarrow> updateSubstatus E DrainingPrimaries s;
                if \<not> list_ex holds_slots drainP then Some (Some drainP, s)
                else case keepP of
                       [] \<Rightarrow> None
                     | seed # _ \<Rightarrow>
                         do { (e, s) \<leftarrow> rebalanceWithRetry E seed (drain_weights keepP drainP) True s;
                              if e \<noteq> None then Some (None, s)
                              else do { (st, s) \<leftarrow> slotsStable E seed s;
                                        if st \<noteq> Inr True then Some (None, s)
                                        else do { (r, s) \<leftarrow> refreshRoles E drainP s;
                                                  if snd r \<noteq> None \<or> list_ex holds_slots (fst r) then Some (None, s)
                                                  else Some (Some (fst r), s) } } } })"

definition scale_down_verify :: "env \<Rightarrow> node list \<Rightarrow> st \<Rightarrow> outcome op" where
  "scale_down_verify E keep s =
     (case keep of
        [] \<Rightarrow> ends reconcileAfterWaitInterval s
      | seed # _ \<Rightarrow>
          andthen (updateSubstatus E Verifying)
            (get_or_retry (verifyCluster E seed) (\<lambda>ok s.
               if \<not> ok then ends reconcileAfterWaitInterval s else finishScaling E keep s)) s)"

definition scale_down_reattach :: "env \<Rightarrow> node list \<Rightarrow> node list \<Rightarrow> st \<Rightarrow> outcome op" where
  "scale_down_reattach E keepP keepR s =
     (if 0 < replicas_per_primary (spec_of s) \<and> keepR \<noteq> [] then
        do { (u, s) \<leftarrow> updateSubstatus E AttachingReplicas s;
             (r, s) \<leftarrow> refreshRoles E (keepP @ keepR) s;
             if snd r \<noteq> None then ends reconcileAfterWaitInterval s
             else do { (a, s) \<leftarrow> setReplicas E keepP (drop (length keepP) (fst r)) (replicas_per_primary (spec_of s)) s;
                       if snd a \<noteq> None then ends reconcileAfterWaitInterval s
                       else scale_down_verify E (take (length keepP) (fst r) @ fst a) s } }
      else scale_down_verify E (keepP @ keepR) s)"

definition scale_down_remove :: "env \<Rightarrow> scale_down_parts \<Rightarrow> st \<Rightarrow> outcome op" where
  "scale_down_remove E parts s =
     do { (d, s) \<leftarrow> drain_phase E (keepPrimaries parts) (drainPrimariesOf parts) s;
          case d of
            None \<Rightarrow> ends reconcileAfterWaitInterval s
          | Some drained \<Rightarrow>
              andthen (updateSubstatus E RemovingNodes)
                (or_retry (removeNodes E (keepPrimaries parts @ keepReplicas parts) (removeReplicas parts @ drained))
                  (andthen (updateSubstatus E ShrinkingStatefulSet) (\<lambda>s.
                     or_fail ''scaling StatefulSet down'' (ScaleStatefulSet E (total_replicas32 (spec_of s)))
                       (scale_down_reattach E (keepPrimaries parts) (keepReplicas parts)) s))) s }"

text \<open>The pass in which the surplus nodes are already gone. A node list shorter than the target is
  sliced beyond its length, which panics.\<close>

definition scale_down_finish :: "env \<Rightarrow> node list \<Rightarrow> st \<Rightarrow> outcome op" where
  "scale_down_finish E nodes =
     andthen (updateSubstatus E Verifying) (\<lambda>s.
       or_fail ''scaling StatefulSet down'' (ScaleStatefulSet E (total_replicas32 (spec_of s))) (\<lambda>s.
         case nodes of
           [] \<Rightarrow> ends reconcileAfterWaitInterval s
         | seed # _ \<Rightarrow>
             get_or_retry (verifyCluster E seed) (\<lambda>ok s.
               if \<not> ok then ends reconcileAfterWaitInterval s
               else case slice_upto (totalNodes (spec_of s)) nodes of
                      None \<Rightarrow> None
                    | Some kept \<Rightarrow> finishScaling E kept s) s) s)"

definition handleScalingDown :: "env \<Rightarrow> st \<Rightarrow> outcome op" where
  "handleScalingDown E s =
     do { (password, s) \<leftarrow> getPassword E (spec_of s) s;
          get_or_fail ''initializing nodes for scale down'' (initAllNodes E password) (\<lambda>nodes0 s.
            do { (r, s) \<leftarrow> refreshRoles E nodes0 s;
                 let nodes = fst r
                 in if snd r \<noteq> None then ends reconcileAfterWaitInterval s
                    else if fastScalingEligible (spec_of s) \<and> \<not> hasReplicaNodes nodes
                    then handleFastScaling E s
                    else do { (h, s) \<leftarrow> healTopology E True s;
                              if snd h \<noteq> None then ends reconcileAfterWaitInterval s
                              else if fst h then ends reconcileImmediately s
                              else if int (length nodes) \<le> totalNodes (spec_of s) then scale_down_finish E nodes s
                              else
                                let p = primaries (spec_of s); q = p * replicas_per_primary (spec_of s)
                                in if p < 0 \<or> q < 0 then None
                                   else scale_down_remove E (scale_down_plan (nat p) (nat q) nodes) s } }) s }"

section \<open>Scaling to zero\<close>

definition scale_zero_finish :: "env \<Rightarrow> st \<Rightarrow> outcome op" where
  "scale_zero_finish E s =
     or_fail ''updating status after scale-to-zero'' (\<lambda>s. do { (e, s) \<leftarrow> status_update E s; Some (map_option kerr_text e, s) })
       (or_fail ''scale-to-zero'' (setConfigPhaseApplied E) (ends reconcileAfterInterval))
       (set_status (\<lambda>x. x\<lparr>cs_Nodes := Some Map.empty, cs_Status := Ready, cs_Substatus := SubEmpty\<rparr>) s)"

definition handleScalingToZero :: "env \<Rightarrow> st \<Rightarrow> outcome op" where
  "handleScalingToZero E =
     andthen (updateSubstatus E DeletingResources)
       (or_fail ''scale-to-zero'' (DeleteStatefulSet E)
         (or_fail ''scale-to-zero'' (DeleteService E)
           (or_fail ''scale-to-zero'' (DeleteConfigMap E)
             (or_fail ''scale-to-zero'' (DeletePDB E) (\<lambda>s.
               if sp_DeletePVC (spec_of s) = Some True
               then andthen (updateSubstatus E DeletingPVCs)
                      (or_fail ''scale-to-zero'' (DeletePVCs E) (scale_zero_finish E)) s
               else scale_zero_finish E s)))))"

end
