(* ===== verification/Lifecycle.thy ===== *)
theory Lifecycle
  imports Cluster_Ops
begin

text \<open>
  The lifecycle handlers of \<open>reconciler/cluster_reconciler.go\<close> that create a cluster, wait for its pods,
  form it, watch over it once it is ready, and turn a new configuration into a status. The previous
  configuration is an argument; no handler changes it.
\<close>

section \<open>A new cluster\<close>

definition write_status :: "env \<Rightarrow> (config_state \<Rightarrow> config_state) \<Rightarrow> st \<Rightarrow> err option op" where
  "write_status E f s = do { (e, s) \<leftarrow> status_update E (set_status f s); Some (map_option kerr_text e, s) }"

definition provision :: "env \<Rightarrow> string \<Rightarrow> st \<Rightarrow> outcome op" where
  "provision E ensuring =
     get_or_fail ''getting owner Redkey'' (getOwner E) (\<lambda>owner s.
       get_or_fail ''getting Redis password'' (GetRedisPassword E (sp_AuthSecretName (spec_of s))) (\<lambda>password s.
         or_fail ensuring (EnsureClusterObjects E owner (spec_of s) password)
           (or_fail [] (updateClusterStatus E Initializing) (ends reconcileImmediately))
           (s\<lparr>run := SetAuthSecret (sp_AuthSecretName (spec_of s)) (run s)\<rparr>)) s)"

definition handleNew :: "env \<Rightarrow> st \<Rightarrow> outcome op" where
  "handleNew E s =
     (if primaries (spec_of s) = 0 then
        or_fail ''updating status for zero-primary cluster''
          (write_status E (\<lambda>x. x\<lparr>cs_Status := Ready, cs_Nodes := Some Map.empty\<rparr>))
          (or_fail [] (setConfigPhaseApplied E) (ends reconcileAfterInterval)) s
      else provision E ''ensuring cluster objects'' s)"

section \<open>Waiting for the pods, forming the cluster\<close>

definition handleInitializing :: "env \<Rightarrow> st \<Rightarrow> outcome op" where
  "handleInitializing E s =
     get_or_fail ''checking pod readiness'' (AllPodsReady E (total_replicas32 (spec_of s))) (\<lambda>ready s.
       if \<not> ready then ends reconcileAfterWaitInterval s
       else do { (password, s) \<leftarrow> getPassword E (spec_of s) s;
                 get_or_fail ''initializing nodes'' (initNodes E password) (\<lambda>nodes s.
                   if int (length nodes) < totalNodes (spec_of s) then ends reconcileAfterWaitInterval s
                   else or_fail [] (updateClusterStatus E Configuring) (ends reconcileImmediately) s) s }) s"

definition formed :: "env \<Rightarrow> string \<Rightarrow> node list \<Rightarrow> st \<Rightarrow> outcome op" where
  "formed E password nodes =
     or_fail [] (updateClusterStatus E Ready)
       (or_fail [] (setConfigPhaseApplied E)
         (andthen (refreshHealthConditions E password)
           (andthen (updateNodeStatus E nodes) (ends reconcileAfterInterval))))"

definition handleConfiguring :: "env \<Rightarrow> st \<Rightarrow> outcome op" where
  "handleConfiguring E s =
     do { (password, s) \<leftarrow> getPassword E (spec_of s) s;
          get_or_fail ''initializing nodes for configuration'' (initNodes E password) (\<lambda>nodes s.
            if int (length nodes) < totalNodes (spec_of s) then ends reconcileAfterWaitInterval s
            else do { (f, s) \<leftarrow> formCluster E nodes s;
                      if \<not> fst f then ends reconcileAfterWaitInterval s else formed E password (snd f) s }) s }"

section \<open>A ready cluster\<close>

text \<open>A secret that cannot be read is logged, and the pass continues with no password. The report the
  health reconciler kept is recorded in the status even when its remediation failed.\<close>

definition remaining_status :: "redkey_config \<Rightarrow> config_spec \<Rightarrow> cluster_status" where
  "remaining_status previous sp =
     (let report = DetectChanges (rc_Spec previous) sp
      in if HasKubernetesChanges report \<or> HasRedisConfigChanges report
         then DetermineStatusTransition
                \<lparr>HasRobinChanges = False, HasTopologyChanges = False, HasKubernetesChanges = HasKubernetesChanges report,
                 HasRedisConfigChanges = HasRedisConfigChanges report, HasAuthChanges = False,
                 HasPurgeKeysOnRebalanceChange = False, TopologyScaleDirection = NoScale,
                 PrimariesDelta = 0, ReplicasDelta = 0\<rparr>
         else StatusEmpty)"

definition ready_again :: "env \<Rightarrow> redkey_config option \<Rightarrow> reconcileSchedule \<Rightarrow> st \<Rightarrow> outcome op" where
  "ready_again E previousConfig schedule s =
     (if phase_of (cfg s) = InProgress \<and> schedule = reconcileAfterInterval then
        (let status = (case previousConfig of None \<Rightarrow> StatusEmpty | Some p \<Rightarrow> remaining_status p (spec_of s))
         in if status \<noteq> StatusEmpty
            then or_fail [] (updateClusterStatus E status) (ends reconcileImmediately) s
            else or_fail [] (setConfigPhaseApplied E) (ends schedule) s)
      else ends schedule s)"

definition check_ready :: "env \<Rightarrow> redkey_config option \<Rightarrow> health_node list \<Rightarrow> string \<Rightarrow> st \<Rightarrow> outcome op" where
  "check_ready E previousConfig nodes password s =
     do { (r, s) \<leftarrow> hr_Reconcile E nodes password (primaries (spec_of s)) (replicas_per_primary (spec_of s))
                      (SetEphemeral (sp_Ephemeral (spec_of s)) s);
          (u, s) \<leftarrow> (case hr_lastReport s of None \<Rightarrow> Some ((), s) | Some report \<Rightarrow> applyHealthStatus E report s);
          if snd r \<noteq> None then Some (r, s) else ready_again E previousConfig (fst r) s }"

definition handleReady :: "env \<Rightarrow> redkey_config option \<Rightarrow> st \<Rightarrow> outcome op" where
  "handleReady E previousConfig =
     get_or_fail ''getting pod addresses for health check'' (buildHealthNodes E) (\<lambda>nodes s.
       if nodes = [] then Some ((reconcileAfterInterval, Some ''no pods found for cluster health check''), s)
       else do { (r, s) \<leftarrow> GetRedisPassword E (sp_AuthSecretName (spec_of s)) s;
                 let password = (case r of Inl _ \<Rightarrow> [] | Inr pw \<Rightarrow> pw)
                 in or_fail ''reconciling auth rotation'' (reconcileAuthRotation E password)
                      (check_ready E previousConfig nodes password) s })"

section \<open>A new configuration for an existing cluster\<close>

definition adopt_status :: "env \<Rightarrow> string \<Rightarrow> redkey_config \<Rightarrow> (st \<Rightarrow> outcome op) \<Rightarrow> st \<Rightarrow> outcome op" where
  "adopt_status E context previousConfig k s =
     (if status_of (cfg s) = status_of previousConfig then k s
      else or_fail context (write_status E (\<lambda>x. x\<lparr>cs_Status := status_of previousConfig\<rparr>)) k s)"

definition apply_auth_change :: "env \<Rightarrow> string \<Rightarrow> ChangeReport \<Rightarrow> redkey_config \<Rightarrow> (st \<Rightarrow> outcome op) \<Rightarrow> st \<Rightarrow> outcome op" where
  "apply_auth_change E context report previousConfig k =
     (if HasAuthChanges report then or_fail context (applyAuthToAllNodes E previousConfig) k else k)"

definition handleConfigChange :: "env \<Rightarrow> redkey_config \<Rightarrow> st \<Rightarrow> outcome op" where
  "handleConfigChange E previousConfig s =
     (let report = DetectChanges (rc_Spec previousConfig) (spec_of s);
          newStatus = DetermineStatusTransition report
      in apply_auth_change E ''applying auth config'' report previousConfig
           (if newStatus = StatusEmpty
            then or_fail [] (setConfigPhaseApplied E)
                   (adopt_status E ''updating cluster status from previous'' previousConfig (ends reconcileAfterInterval))
            else or_fail [] (updateClusterStatus E newStatus) (ends reconcileImmediately)) s)"

end
