(* ===== verification/Standalone.thy ===== *)
theory Standalone
  imports Lifecycle Scale
begin

text \<open>
  \<open>reconciler/standalone_reconciler.go\<close>: a single Redis node without cluster mode. The lifecycle shares
  the creation and the removal of the objects with the cluster; it sends no CLUSTER command otherwise.
\<close>

definition ensureStandaloneObjects :: "env \<Rightarrow> st \<Rightarrow> outcome op" where
  "ensureStandaloneObjects E = provision E ''ensuring standalone objects''"

text \<open>The node's address, when it answers a PING.\<close>

definition standaloneNodeReachable :: "env \<Rightarrow> string \<Rightarrow> st \<Rightarrow> string option op" where
  "standaloneNodeReachable E password s =
     do { (r, s) \<leftarrow> GetPodAddresses E s;
          case r of
            Inl _ \<Rightarrow> Some (None, s)
          | Inr podAddrs \<Rightarrow>
              (case map_of podAddrs (pod_name E 0) of
                 None \<Rightarrow> Some (None, s)
               | Some addr \<Rightarrow>
                   if addr = [] then Some (None, s)
                   else let cc = RuntimeClusterConfig (run s)
                        in do { (e, s) \<leftarrow> CheckConnection E (addr, password) (cc_ConnectionMaxRetries cc)
                                            (seconds (cc_ConnectionBackOffSeconds cc)) s;
                                Some (if e = None then Some addr else None, s) }) }"

definition updateStandaloneNodeStatus :: "env \<Rightarrow> string \<Rightarrow> st \<Rightarrow> err option op" where
  "updateStandaloneNodeStatus E addr =
     write_status E (\<lambda>x. x\<lparr>cs_Nodes := Some [pod_name E 0 \<mapsto> \<lparr>rn_Role = ''primary'', rn_IP = extractIP addr\<rparr>]\<rparr>)"

definition standalone_finish :: "env \<Rightarrow> string \<Rightarrow> st \<Rightarrow> outcome op" where
  "standalone_finish E password s =
     do { (addr, s) \<leftarrow> standaloneNodeReachable E password s;
          case addr of
            None \<Rightarrow> ends reconcileAfterWaitInterval s
          | Some a \<Rightarrow>
              andthen (updateStandaloneNodeStatus E a)
                (or_fail [] (updateClusterStatus E Ready)
                  (or_fail [] (setConfigPhaseApplied E) (ends reconcileAfterInterval))) s }"

definition handleStandaloneInitializing :: "env \<Rightarrow> st \<Rightarrow> outcome op" where
  "handleStandaloneInitializing E =
     get_or_fail ''checking standalone pod readiness'' (AllPodsReady E 1) (\<lambda>ready s.
       if \<not> ready then ends reconcileAfterWaitInterval s
       else do { (password, s) \<leftarrow> getPassword E (spec_of s) s; standalone_finish E password s })"

definition handleStandaloneReady :: "env \<Rightarrow> st \<Rightarrow> outcome op" where
  "handleStandaloneReady E s =
     do { (password, s) \<leftarrow> getPassword E (spec_of s) s;
          (e, s) \<leftarrow> reconcileAuthRotation E password s;
          (addr, s) \<leftarrow> standaloneNodeReachable E password s;
          ends (if addr = None then reconcileAfterWaitInterval else reconcileAfterInterval) s }"

text \<open>The pod is deleted while its revision differs from the one the StatefulSet controller has computed for
  the template it has observed. True only once the pod runs that revision.\<close>

definition recycleStandalonePod :: "env \<Rightarrow> st \<Rightarrow> (err + bool) op" where
  "recycleStandalonePod E s =
     do { (r, s) \<leftarrow> GetStatefulSetUpdateRevisionObserved E s;
          case r of
            Inl e \<Rightarrow> Some (Inl (wrap ''getting StatefulSet update revision during standalone upgrade'' e), s)
          | Inr observed \<Rightarrow>
              (case observed of
                 None \<Rightarrow> Some (Inr False, s)
               | Some desiredRevision \<Rightarrow>
                   if desiredRevision = [] then Some (Inr False, s)
                   else do { (h, s) \<leftarrow> GetPodControllerRevisionHash E 0 s;
                             case h of
                               Inl _ \<Rightarrow> Some (Inr False, s)
                             | Inr actualRevision \<Rightarrow>
                                 if actualRevision = desiredRevision then Some (Inr True, s)
                                 else do { (e, s) \<leftarrow> DeletePod E (pod_name E 0) s;
                                           Some (case e of
                                             Some de \<Rightarrow> Inl (wrap (''deleting standalone pod '' @ pod_name E 0 @ '' for recycle'') de)
                                           | None \<Rightarrow> Inr False, s) } }) }"

definition handleStandaloneUpgrading :: "env \<Rightarrow> st \<Rightarrow> outcome op" where
  "handleStandaloneUpgrading E =
     get_or_fail ''getting owner Redkey'' (getOwner E) (\<lambda>owner s.
       do { (password, s) \<leftarrow> getPassword E (spec_of s) s;
            or_fail ''updating ConfigMap during standalone upgrade'' (UpdateConfigMap E (spec_of s) password) (\<lambda>s.
              or_fail ''updating StatefulSet template during standalone upgrade''
                (UpdateStatefulSetTemplate E owner (spec_of s)
                  (ComputeConfigChecksum (e_sha256_hex E) (sp_Image (spec_of s)) (sp_Version (spec_of s)) (sp_RedisConfig (spec_of s)))) (\<lambda>s.
                or_fail ''reconciling Service during standalone upgrade'' (ReconcileService E (spec_of s)) (\<lambda>s.
                  or_fail ''reconciling PDB during standalone upgrade'' (ReconcilePDB E (spec_of s))
                    (get_or_fail [] (recycleStandalonePod E) (\<lambda>recycled.
                       if \<not> recycled then ends reconcileAfterWaitInterval
                       else get_or_fail ''checking standalone pod readiness during upgrade'' (AllPodsReady E 1) (\<lambda>ready.
                              if \<not> ready then ends reconcileAfterWaitInterval else standalone_finish E password))) s) s) s) s })"

definition handleStandaloneConfigChange :: "env \<Rightarrow> redkey_config \<Rightarrow> st \<Rightarrow> outcome op" where
  "handleStandaloneConfigChange E previousConfig s =
     (let report = DetectChanges (rc_Spec previousConfig) (spec_of s)
      in apply_auth_change E ''applying standalone auth config'' report previousConfig (\<lambda>s.
           if HasTopologyChanges report then
             if primaries (spec_of s) = 0
             then or_fail [] (updateClusterStatus E ScalingToZero) (ends reconcileImmediately) s
             else ensureStandaloneObjects E s
           else if HasKubernetesChanges report \<or> HasRedisConfigChanges report
           then or_fail [] (updateClusterStatus E Upgrading) (ends reconcileImmediately) s
           else adopt_status E ''updating standalone status from previous'' previousConfig
                  (or_fail [] (setConfigPhaseApplied E) (ends reconcileAfterInterval)) s) s)"

definition reconcileStandalone :: "env \<Rightarrow> redkey_config option \<Rightarrow> st \<Rightarrow> outcome op" where
  "reconcileStandalone E previousConfig s =
     (case status_of (cfg s) of
        StatusEmpty \<Rightarrow> (case previousConfig of None \<Rightarrow> handleNew E s | Some p \<Rightarrow> handleStandaloneConfigChange E p s)
      | Initializing \<Rightarrow> handleStandaloneInitializing E s
      | Configuring \<Rightarrow> handleStandaloneInitializing E s
      | Ready \<Rightarrow> handleStandaloneReady E s
      | ScalingToZero \<Rightarrow> handleScalingToZero E s
      | Upgrading \<Rightarrow> handleStandaloneUpgrading E s
      | _ \<Rightarrow> ends reconcileAfterInterval s)"

end
