(* ===== verification/Upgrade.thy ===== *)
theory Upgrade
  imports Cluster_Ops
begin

text \<open>
  \<open>reconciler/upgrade_reconciler.go\<close>: the destructive fast upgrade and the rolling upgrade with one extra
  primary. A rolling upgrade is a state machine over the substatus of the configuration: each pass runs
  the handler of the current substatus (\<open>handleRollingUpgrade\<close>), and the partition counts the primaries
  still to be recycled, from the last one down to 0.

  Ordinals are \<open>int\<close>; where the code narrows one to 32 bits the model has \<open>i32\<close>. A pause (\<open>time.Sleep\<close>)
  cannot be cancelled: its outcome is ignored.
\<close>

section \<open>Steps of the helpers\<close>

text \<open>An error of \<open>m\<close> is returned, wrapped unless the context is empty; otherwise \<open>k\<close> continues with its
  result.\<close>

definition get_or_err :: "string \<Rightarrow> (st \<Rightarrow> (err + 'a) op) \<Rightarrow> ('a \<Rightarrow> st \<Rightarrow> err option op) \<Rightarrow> st \<Rightarrow> err option op" where
  "get_or_err context m k s =
     do { (r, s) \<leftarrow> m s; case r of Inl e \<Rightarrow> Some (Some (in_context context e), s) | Inr x \<Rightarrow> k x s }"

definition i32 :: "int \<Rightarrow> int" where
  "i32 x = signed_take_bit 31 x"

definition pause :: "env \<Rightarrow> int \<Rightarrow> st \<Rightarrow> unit op" where
  "pause E d s = do { (u, s) \<leftarrow> sleep E d s; Some ((), s) }"

text \<open>The guard every upgrade handler starts with: a healed topology is evaluated afresh, a failed healing
  only logged.\<close>

definition heal_first :: "env \<Rightarrow> (st \<Rightarrow> outcome op) \<Rightarrow> st \<Rightarrow> outcome op" where
  "heal_first E k s =
     do { (h, s) \<leftarrow> healTopology E True s;
          if snd h = None \<and> fst h then ends reconcileImmediately s else k s }"

definition originalPrimaries :: "config_spec \<Rightarrow> 32 word" where
  "originalPrimaries sp = sp_Primaries sp"

definition upgradeExtraNodes :: "config_spec \<Rightarrow> 32 word" where
  "upgradeExtraNodes sp = 1 + sp_ReplicasPerPrimary sp"

definition upgrade_pods :: "config_spec \<Rightarrow> int" where
  "upgrade_pods sp = sint (total_replicas32 sp) + sint (upgradeExtraNodes sp)"

definition getPodAddr :: "env \<Rightarrow> int \<Rightarrow> st \<Rightarrow> (err + string) op" where
  "getPodAddr E ordinal s =
     do { (r, s) \<leftarrow> GetPodAddresses E s;
          Some (case r of
                  Inl e \<Rightarrow> Inl (wrap ''getting pod addresses'' e)
                | Inr podAddrs \<Rightarrow> (case map_of podAddrs (pod_name E ordinal) of
                    None \<Rightarrow> Inl (''pod '' @ pod_name E ordinal @ '' not found or has no IP'')
                  | Some addr \<Rightarrow> Inr addr), s) }"

text \<open>A member whose own identifier cannot be read is asked to forget all the same.\<close>

fun forget_from_pods :: "env \<Rightarrow> (string \<times> string) list \<Rightarrow> string \<Rightarrow> string \<Rightarrow> string list \<Rightarrow> st \<Rightarrow> err option op" where
  "forget_from_pods E podAddrs nodeID password [] s = Some (None, s)"
| "forget_from_pods E podAddrs nodeID password (name # rest) s =
     (case map_of podAddrs name of
        None \<Rightarrow> forget_from_pods E podAddrs nodeID password rest s
      | Some addr \<Rightarrow>
          do { (myID, s) \<leftarrow> ClusterMyID E (addr, password) s;
               if (case myID of Inl _ \<Rightarrow> [] | Inr i \<Rightarrow> i) = nodeID
               then forget_from_pods E podAddrs nodeID password rest s
               else do { (e, s) \<leftarrow> ClusterForget E (addr, password) nodeID s;
                         case e of
                           None \<Rightarrow> forget_from_pods E podAddrs nodeID password rest s
                         | Some fe \<Rightarrow>
                             if Contains fe ''Unknown node''
                             then forget_from_pods E podAddrs nodeID password rest s
                             else Some (Some (wrap (''node '' @ name @ '' forgetting '' @ nodeID) fe), s) } })"

definition forgetNodeFromAll :: "env \<Rightarrow> string \<Rightarrow> string \<Rightarrow> int \<Rightarrow> st \<Rightarrow> err option op" where
  "forgetNodeFromAll E nodeID password nodeCount =
     get_or_err ''getting pod addresses for forget'' (GetPodAddresses E) (\<lambda>podAddrs.
       forget_from_pods E podAddrs nodeID password (pod_names E nodeCount))"

section \<open>Synchronisation, flushing\<close>

fun sync_loop :: "env \<Rightarrow> client \<Rightarrow> nat \<Rightarrow> st \<Rightarrow> bool op" where
  "sync_loop E c 0 s = Some (False, s)"
| "sync_loop E c (Suc left) s =
     do { (r, s) \<leftarrow> ClientReplicaLinkUp E c s;
          if r = Inr True then Some (True, s)
          else do { (u, s) \<leftarrow> (if left = 0 then Some ((), s) else pause E (seconds 1) s);
                    sync_loop E c left s } }"

definition syncMaxAttempts :: nat where "syncMaxAttempts = 10"

definition waitReplicaSynced :: "env \<Rightarrow> string \<Rightarrow> string \<Rightarrow> st \<Rightarrow> err option op" where
  "waitReplicaSynced E replicaAddr password s =
     do { (up, s) \<leftarrow> sync_loop E (replicaAddr, password) syncMaxAttempts s;
          Some (if up then None else Some (''replica '' @ replicaAddr @ '' did not reach master_link_status:up''), s) }"

definition flushAndPersistNode :: "env \<Rightarrow> string \<Rightarrow> string \<Rightarrow> st \<Rightarrow> err option op" where
  "flushAndPersistNode E addr password =
     get_or_err (''checking role of node '' @ addr @ '' before recycle'') (ClientIsReplica E (addr, password)) (\<lambda>isReplica.
       or_wrap (''flushing node '' @ addr @ '' before recycle'')
         (\<lambda>s. if isReplica then Some (None, s) else ClientFlushAll E (addr, password) s)
         (or_wrap (''resetting cluster state of node '' @ addr @ '' before recycle'') (ClusterReset E (addr, password) True)
           (or_wrap (''persisting empty dataset on node '' @ addr @ '' before recycle'') (ClientSave E (addr, password))
             (\<lambda>s. Some (None, s)))))"

section \<open>Forgetting\<close>

definition replica_of_id :: "string \<Rightarrow> cluster_node \<Rightarrow> bool" where
  "replica_of_id primaryID cn = (cn_Primary cn = primaryID \<and> Contains (cn_Flags cn) ''slave'')"

fun forget_replicas :: "env \<Rightarrow> string \<Rightarrow> string \<Rightarrow> int \<Rightarrow> cluster_node list \<Rightarrow> st \<Rightarrow> err option op" where
  "forget_replicas E primaryID password totalPods [] s = Some (None, s)"
| "forget_replicas E primaryID password totalPods (cn # rest) s =
     (if replica_of_id primaryID cn then
        do { (e, s) \<leftarrow> forgetNodeFromAll E (cn_ID cn) password totalPods s;
             case e of
               None \<Rightarrow> forget_replicas E primaryID password totalPods rest s
             | Some fe \<Rightarrow>
                 if Contains fe ''Unknown node'' then forget_replicas E primaryID password totalPods rest s
                 else Some (Some (wrap (''forgetting replica '' @ cn_ID cn @ '' of primary '' @ primaryID) fe), s) }
      else forget_replicas E primaryID password totalPods rest s)"

definition forgetReplicasOfNode :: "env \<Rightarrow> string \<Rightarrow> string \<Rightarrow> st \<Rightarrow> err option op" where
  "forgetReplicasOfNode E primaryID password =
     get_or_err [] (getPodAddr E 0) (\<lambda>node0Addr.
       get_or_err ''getting cluster nodes to find replicas'' (GetClusterNodes E (node0Addr, password)) (\<lambda>nodes s.
         forget_replicas E primaryID password (upgrade_pods (spec_of s)) nodes s))"

fun forget_extras :: "env \<Rightarrow> string \<Rightarrow> string \<Rightarrow> int \<Rightarrow> cluster_node list \<Rightarrow> st \<Rightarrow> err option op" where
  "forget_extras E extraID password allMembers [] s = Some (None, s)"
| "forget_extras E extraID password allMembers (cn # rest) s =
     (if replica_of_id extraID cn then
        or_wrap (''forgetting extra replica '' @ cn_ID cn) (forgetNodeFromAll E (cn_ID cn) password allMembers)
          (forget_extras E extraID password allMembers rest) s
      else forget_extras E extraID password allMembers rest s)"

definition forgetExtraReplicas :: "env \<Rightarrow> string \<Rightarrow> st \<Rightarrow> err option op" where
  "forgetExtraReplicas E password s =
     get_or_err [] (getPodAddr E (totalNodes (spec_of s))) (\<lambda>extraAddr.
       get_or_err [] (ClusterMyID E (extraAddr, password)) (\<lambda>extraID.
         get_or_err [] (getPodAddr E 0) (\<lambda>node0Addr.
           get_or_err [] (GetClusterNodes E (node0Addr, password)) (\<lambda>clusterNodes s.
             forget_extras E extraID password (totalNodes (spec_of s)) clusterNodes s)))) s"

text \<open>A node that still owns slots is never forgotten here.\<close>

definition forgettable_failed :: "cluster_node \<Rightarrow> bool" where
  "forgettable_failed cn =
     (isConfirmedFail (cn_Flags cn) \<and> \<not> Contains (cn_Flags cn) ''myself'' \<and> \<not> 0 < CountSlotsFromRanges (cn_Slots cn))"

fun forget_failed :: "env \<Rightarrow> string \<Rightarrow> int \<Rightarrow> cluster_node list \<Rightarrow> st \<Rightarrow> err option op" where
  "forget_failed E password totalPods [] s = Some (None, s)"
| "forget_failed E password totalPods (cn # rest) s =
     (if forgettable_failed cn then
        do { (e, s) \<leftarrow> forgetNodeFromAll E (cn_ID cn) password totalPods s;
             forget_failed E password totalPods rest s }
      else forget_failed E password totalPods rest s)"

definition forgetFailedNodes :: "env \<Rightarrow> client \<Rightarrow> string \<Rightarrow> st \<Rightarrow> err option op" where
  "forgetFailedNodes E seedClient password =
     get_or_err ''getting cluster nodes to find failed entries'' (GetClusterNodes E seedClient) (\<lambda>nodes s.
       forget_failed E password (upgrade_pods (spec_of s)) nodes s)"


section \<open>Replicas\<close>

definition host_of :: "string \<Rightarrow> string" where
  "host_of addr = hd (Split (CHR '':'') addr)"

text \<open>\<open>CLUSTER MEET\<close> from the primary, a pause for the gossip, \<open>CLUSTER REPLICATE\<close> to it.\<close>

definition attach_replica :: "env \<Rightarrow> client \<Rightarrow> string \<Rightarrow> string \<Rightarrow> string \<Rightarrow> string \<Rightarrow> string
   \<Rightarrow> (st \<Rightarrow> err option op) \<Rightarrow> st \<Rightarrow> err option op" where
  "attach_replica E primaryClient primaryID replicaAddr password meeting replicating k =
     or_wrap meeting (ClusterMeet E primaryClient (host_of replicaAddr) DefaultPort) (\<lambda>s.
       do { (u, s) \<leftarrow> pause E (seconds 2) s;
            or_wrap replicating (ClusterReplicate E (replicaAddr, password) primaryID) k s })"

text \<open>A replica pod with an outdated template is deleted, and the pass ends with an error that asks for a
  retry; a persistent one is flushed before.\<close>

definition delete_outdated :: "env \<Rightarrow> int \<Rightarrow> string \<Rightarrow> st \<Rightarrow> err option op" where
  "delete_outdated E replicaOrdinal password =
     (\<lambda>s. if sp_Ephemeral (spec_of s) then Some (None, s)
          else get_or_err (''getting replica '' @ Itoa replicaOrdinal @ '' address for flush'') (getPodAddr E replicaOrdinal)
                 (\<lambda>replicaAddr. or_wrap (''flushing replica '' @ Itoa replicaOrdinal @ '' before recycle'')
                    (flushAndPersistNode E replicaAddr password) (\<lambda>s. Some (None, s))) s)"

definition recycle_replica :: "env \<Rightarrow> int \<Rightarrow> client \<Rightarrow> string \<Rightarrow> string \<Rightarrow> string \<Rightarrow> int \<Rightarrow> st \<Rightarrow> err option op" where
  "recycle_replica E primaryOrdinal primaryClient primaryID desiredRevision password replicaOrdinal =
     get_or_err (''replica pod '' @ Itoa replicaOrdinal @ '' not available yet'')
       (GetPodControllerRevisionHash E replicaOrdinal) (\<lambda>actualRevision.
       if actualRevision \<noteq> desiredRevision then
         (\<lambda>s. do { (e, s) \<leftarrow> delete_outdated E replicaOrdinal password s;
                   if e \<noteq> None then Some (e, s)
                   else or_wrap (''deleting replica pod '' @ Itoa replicaOrdinal) (DeletePod E (pod_name E replicaOrdinal))
                     (\<lambda>s. Some (Some (''replica pod '' @ Itoa replicaOrdinal @ '' deleted, waiting for recreation with new template''), s)) s })
       else
         get_or_err (''checking replica pod '' @ Itoa replicaOrdinal @ '' readiness'') (IsPodOrdinalReady E replicaOrdinal) (\<lambda>ready.
           if \<not> ready then (\<lambda>s. Some (Some (''replica pod '' @ Itoa replicaOrdinal @ '' not ready yet''), s))
           else
             get_or_err (''getting replica '' @ Itoa replicaOrdinal @ '' address'') (getPodAddr E replicaOrdinal) (\<lambda>replicaAddr.
               attach_replica E primaryClient primaryID replicaAddr password
                 (''meeting replica '' @ Itoa replicaOrdinal)
                 (''replicating '' @ Itoa replicaOrdinal @ '' to primary '' @ Itoa primaryOrdinal)
                 (or_wrap (''waiting for replica '' @ Itoa replicaOrdinal @ '' to sync with primary '' @ Itoa primaryOrdinal)
                    (waitReplicaSynced E replicaAddr password) (\<lambda>s. Some (None, s))))))"

fun each_ordinal :: "(int \<Rightarrow> st \<Rightarrow> err option op) \<Rightarrow> int list \<Rightarrow> st \<Rightarrow> err option op" where
  "each_ordinal f [] s = Some (None, s)"
| "each_ordinal f (i # rest) s =
     do { (e, s) \<leftarrow> f i s; case e of Some err \<Rightarrow> Some (Some err, s) | None \<Rightarrow> each_ordinal f rest s }"

text \<open>The ordinals of the replicas of a primary: all primaries come first.\<close>

definition replica_ordinals :: "config_spec \<Rightarrow> int \<Rightarrow> int list" where
  "replica_ordinals sp primaryOrdinal =
     map (\<lambda>r. i32 (primaries sp + primaryOrdinal * replicas_per_primary sp + int r)) [0..<nat (replicas_per_primary sp)]"

definition recycleReplicasForPrimary :: "env \<Rightarrow> int \<Rightarrow> string \<Rightarrow> st \<Rightarrow> err option op" where
  "recycleReplicasForPrimary E primaryOrdinal password =
     get_or_err (''getting primary '' @ Itoa primaryOrdinal @ '' address'') (getPodAddr E (i32 primaryOrdinal)) (\<lambda>primaryAddr.
       get_or_err (''getting primary '' @ Itoa primaryOrdinal @ '' ID'') (ClusterMyID E (primaryAddr, password)) (\<lambda>primaryID.
         get_or_err ''getting StatefulSet update revision'' (GetStatefulSetUpdateRevision E) (\<lambda>desiredRevision s.
           if desiredRevision = [] then Some (Some ''StatefulSet update revision not yet available'', s)
           else each_ordinal (recycle_replica E primaryOrdinal (primaryAddr, password) primaryID desiredRevision password)
                  (replica_ordinals (spec_of s) primaryOrdinal) s)))"

definition pivot_replicas :: "string \<Rightarrow> cluster_node list \<Rightarrow> int" where
  "pivot_replicas pivotID nodes =
     int (length (filter (\<lambda>cn. replica_of_id pivotID cn \<and> \<not> Contains (cn_Flags cn) ''fail'') nodes))"

definition reattach_pivot_replica :: "env \<Rightarrow> client \<Rightarrow> string \<Rightarrow> string \<Rightarrow> int \<Rightarrow> st \<Rightarrow> err option op" where
  "reattach_pivot_replica E pivotClient pivotID password ordinal =
     get_or_err (''checking extra replica pod '' @ Itoa ordinal @ '' readiness'') (IsPodOrdinalReady E ordinal) (\<lambda>ready.
       if \<not> ready then (\<lambda>s. Some (Some (''extra replica pod '' @ Itoa ordinal @ '' not ready''), s))
       else
         get_or_err (''getting extra replica '' @ Itoa ordinal @ '' address'') (getPodAddr E ordinal) (\<lambda>addr.
           attach_replica E pivotClient pivotID addr password
             (''meeting extra replica '' @ Itoa ordinal)
             (''replicating extra replica '' @ Itoa ordinal @ '' to pivot'')
             (or_wrap (''waiting for pivot replica '' @ Itoa ordinal @ '' to sync'')
                (waitReplicaSynced E addr password) (\<lambda>s. Some (None, s)))))"

definition pivot_ordinal :: "config_spec \<Rightarrow> int" where
  "pivot_ordinal sp = i32 (primaries sp + primaries sp * replicas_per_primary sp)"

definition ensurePivotReplica :: "env \<Rightarrow> string \<Rightarrow> st \<Rightarrow> err option op" where
  "ensurePivotReplica E password s =
     (let sp = spec_of s; pivot = pivot_ordinal sp
      in get_or_err ''getting extra primary address'' (getPodAddr E pivot) (\<lambda>pivotAddr.
           get_or_err ''getting extra primary ID'' (ClusterMyID E (pivotAddr, password)) (\<lambda>pivotID.
             get_or_err ''getting cluster nodes from pivot'' (GetClusterNodes E (pivotAddr, password)) (\<lambda>nodes s.
               if replicas_per_primary sp \<le> pivot_replicas pivotID nodes then Some (None, s)
               else each_ordinal (reattach_pivot_replica E (pivotAddr, password) pivotID password)
                      (map (\<lambda>r. i32 (pivot + 1 + int r)) [0..<nat (replicas_per_primary sp)]) s))) s)"

definition rebalance_replica :: "env \<Rightarrow> int \<Rightarrow> client \<Rightarrow> string \<Rightarrow> string \<Rightarrow> int \<Rightarrow> st \<Rightarrow> err option op" where
  "rebalance_replica E p primaryClient primaryID password replicaOrdinal =
     get_or_err (''getting replica '' @ Itoa replicaOrdinal @ '' address for rebalance'') (getPodAddr E replicaOrdinal) (\<lambda>replicaAddr.
       attach_replica E primaryClient primaryID replicaAddr password
         (''meeting replica '' @ Itoa replicaOrdinal @ '' during rebalance'')
         (''replicating '' @ Itoa replicaOrdinal @ '' to primary '' @ Itoa p @ '' during rebalance'')
         (\<lambda>s. Some (None, s)))"

definition rebalance_primary :: "env \<Rightarrow> string \<Rightarrow> int \<Rightarrow> st \<Rightarrow> err option op" where
  "rebalance_primary E password p =
     get_or_err (''getting primary '' @ Itoa p @ '' address for rebalance'') (getPodAddr E (i32 p)) (\<lambda>primaryAddr.
       get_or_err (''getting primary '' @ Itoa p @ '' ID for rebalance'') (ClusterMyID E (primaryAddr, password)) (\<lambda>primaryID s.
         each_ordinal (rebalance_replica E p (primaryAddr, password) primaryID password) (replica_ordinals (spec_of s) p) s))"

definition rebalanceReplicas :: "env \<Rightarrow> string \<Rightarrow> st \<Rightarrow> err option op" where
  "rebalanceReplicas E password s =
     each_ordinal (rebalance_primary E password) (map int [0..<nat (primaries (spec_of s))]) s"


section \<open>Fast upgrade\<close>

definition fastUpgradeEligible :: "config_spec \<Rightarrow> bool" where
  "fastUpgradeEligible sp =
     (sp_Ephemeral sp \<and> replicas_per_primary sp = 0 \<and> sp_PurgeKeysOnRebalance sp = Some True)"

text \<open>Both upgrades start by writing the objects the new pods are made from.\<close>

definition update_objects :: "env \<Rightarrow> string \<Rightarrow> (st \<Rightarrow> outcome op) \<Rightarrow> string list \<Rightarrow> st \<Rightarrow> outcome op" where
  "update_objects E kind k owner s =
     or_fail (''updating StatefulSet template for '' @ kind)
       (UpdateStatefulSetTemplate E owner (spec_of s)
          (ComputeConfigChecksum (e_sha256_hex E) (sp_Image (spec_of s)) (sp_Version (spec_of s)) (sp_RedisConfig (spec_of s))))
       (\<lambda>s. or_fail (''reconciling Service for '' @ kind) (ReconcileService E (spec_of s))
         (\<lambda>s. or_fail (''reconciling PDB for '' @ kind) (ReconcilePDB E (spec_of s)) k s) s) s"

definition handleFastUpgradeStart :: "env \<Rightarrow> st \<Rightarrow> outcome op" where
  "handleFastUpgradeStart E s =
     do { (password, s) \<leftarrow> getPassword E (spec_of s) s;
          or_fail ''updating ConfigMap for fast upgrade'' (UpdateConfigMap E (spec_of s) password)
            (get_or_fail ''getting owner for fast upgrade'' (getOwner E)
              (update_objects E ''fast upgrade''
                (or_fail ''setting partition to 0 for fast upgrade'' (SetStatefulSetPartition E 0)
                  (or_fail ''deleting pods for fast upgrade'' (DeleteAllPods E)
                    (andthen (updateSubstatus E FastUpgrading) (ends reconcileAfterWaitInterval)))))) s }"

definition handleFastUpgradeWaitReady :: "env \<Rightarrow> st \<Rightarrow> outcome op" where
  "handleFastUpgradeWaitReady E s =
     get_or_fail ''checking pods during fast upgrade'' (AllPodsReady E (total_replicas32 (spec_of s))) (\<lambda>ready.
       if \<not> ready then ends reconcileAfterWaitInterval
       else andthen (updateSubstatus E EndingFastUpgrade) (ends reconcileImmediately)) s"

text \<open>The last steps of both upgrades.\<close>

definition finish_upgrade :: "env \<Rightarrow> string \<Rightarrow> st \<Rightarrow> outcome op" where
  "finish_upgrade E kind s =
     do { (t, s) \<leftarrow> ensureReplicaTopology E s;
          if snd t \<noteq> None \<or> \<not> fst t then ends reconcileAfterWaitInterval s
          else
            or_fail (''updating status to Ready after '' @ kind)
              (\<lambda>s. do { (e, s) \<leftarrow> status_update E s; Some (map_option kerr_text e, s) })
              (or_fail [] (setConfigPhaseApplied E) (\<lambda>s.
                 do { (password, s) \<leftarrow> getPassword E (spec_of s) s;
                      (u, s) \<leftarrow> refreshHealthConditions E password s;
                      ends reconcileAfterInterval s }))
              (set_status (\<lambda>x. x\<lparr>cs_Substatus := SubEmpty, cs_UpgradingPartition := 0, cs_Status := Ready\<rparr>) s) }"

text \<open>Whether a node still knows of slots, assigned or failed.\<close>

fun needs_reset :: "env \<Rightarrow> node list \<Rightarrow> st \<Rightarrow> (err + bool) op" where
  "needs_reset E [] s = Some (Inr False, s)"
| "needs_reset E (n # rest) s =
     do { (r, s) \<leftarrow> GetClusterInfo E (client_of n) s;
          case r of
            Inl e \<Rightarrow> Some (Inl (wrap (''getting cluster info for '' @ n_Name n) e), s)
          | Inr info \<Rightarrow>
              if 0 < ci_SlotsOK info \<or> 0 < ci_SlotsFail info then Some (Inr True, s) else needs_reset E rest s }"

fun hard_reset_each :: "env \<Rightarrow> node list \<Rightarrow> st \<Rightarrow> unit op" where
  "hard_reset_each E [] s = Some ((), s)"
| "hard_reset_each E (n # rest) s =
     do { (e, s) \<leftarrow> ClusterReset E (client_of n) True s; hard_reset_each E rest s }"

definition fast_join :: "env \<Rightarrow> node list \<Rightarrow> st \<Rightarrow> outcome op" where
  "fast_join E nodes =
     get_or_fail [] (needs_reset E nodes) (\<lambda>reset.
       if reset then andthen (hard_reset_each E nodes) (ends reconcileAfterWaitInterval)
       else or_fail ''meeting nodes during fast upgrade'' (meetNodes E nodes) (ends reconcileAfterWaitInterval))"

definition fast_attach :: "env \<Rightarrow> node list \<Rightarrow> node list \<Rightarrow> st \<Rightarrow> err option op" where
  "fast_attach E nodes prims s =
     (if replicas_per_primary (spec_of s) \<le> 0 then Some (None, s)
      else case slice_from (primaries (spec_of s)) nodes of
             None \<Rightarrow> None
           | Some reps \<Rightarrow>
               do { (r, s) \<leftarrow> setReplicas E prims reps (replicas_per_primary (spec_of s)) s;
                    Some (wrapped ''attaching replicas during fast upgrade'' (snd r), s) })"

definition fast_assign :: "env \<Rightarrow> node list \<Rightarrow> node list \<Rightarrow> st \<Rightarrow> outcome op" where
  "fast_assign E nodes prims =
     or_fail ''assigning slots during fast upgrade''
       (\<lambda>s. do { (a, s) \<leftarrow> assignSlots E prims s; Some (snd a, s) })
       (or_fail [] (fast_attach E nodes prims) (\<lambda>s.
          case nodes of
            [] \<Rightarrow> None
          | seed # _ \<Rightarrow>
              get_or_fail ''verifying cluster after fast upgrade'' (verifyCluster E seed) (\<lambda>ok.
                if \<not> ok then ends reconcileAfterWaitInterval else finish_upgrade E ''fast upgrade'') s))"

definition handleFastUpgradeFormCluster :: "env \<Rightarrow> st \<Rightarrow> outcome op" where
  "handleFastUpgradeFormCluster E s =
     do { (password, s) \<leftarrow> getPassword E (spec_of s) s;
          get_or_fail ''initializing nodes for fast upgrade cluster formation'' (initNodes E password) (\<lambda>nodes s.
            if int (length nodes) < totalNodes (spec_of s) then ends reconcileAfterWaitInterval s
            else case slice_upto (primaries (spec_of s)) nodes of
                   None \<Rightarrow> None
                 | Some prims \<Rightarrow>
                     get_or_fail ''checking gossip convergence during fast upgrade'' (checkGossipConvergence E nodes) (\<lambda>converged.
                       if \<not> converged then fast_join E nodes else fast_assign E nodes prims) s) s }"

definition handleFastUpgrade :: "env \<Rightarrow> st \<Rightarrow> outcome op" where
  "handleFastUpgrade E s =
     (if substatus_of (cfg s) = FastUpgrading then handleFastUpgradeWaitReady E s
      else if substatus_of (cfg s) = EndingFastUpgrade then handleFastUpgradeFormCluster E s
      else handleFastUpgradeStart E s)"

section \<open>Rolling upgrade\<close>

definition handleUpgradeStart :: "env \<Rightarrow> st \<Rightarrow> outcome op" where
  "handleUpgradeStart E s =
     do { (password, s) \<leftarrow> getPassword E (spec_of s) s;
          or_fail ''updating ConfigMap for rolling upgrade'' (UpdateConfigMap E (spec_of s) password)
            (get_or_fail ''getting owner for rolling upgrade'' (getOwner E)
              (update_objects E ''rolling upgrade'' (\<lambda>s.
                or_fail ''scaling up for rolling upgrade''
                  (ScaleStatefulSet E (total_replicas32 (spec_of s) + upgradeExtraNodes (spec_of s)))
                  (andthen (updateSubstatus E UpgradeScalingUp) (ends reconcileAfterWaitInterval)) s))) s }"

definition replicate_extra :: "env \<Rightarrow> node list \<Rightarrow> int \<Rightarrow> int \<Rightarrow> st \<Rightarrow> err option op" where
  "replicate_extra E nodes extraPrimaryIdx extraReplicaIdx s =
     (case (index_at extraPrimaryIdx nodes, index_at extraReplicaIdx nodes) of
        (Some p, Some r) \<Rightarrow>
          or_wrap (''replicating extra replica '' @ Itoa extraReplicaIdx @ '' to extra primary'')
            (ClusterReplicate E (client_of r) (n_ID p)) (\<lambda>s. Some (None, s)) s
      | _ \<Rightarrow> None)"

definition attach_extras :: "env \<Rightarrow> node list \<Rightarrow> st \<Rightarrow> err option op" where
  "attach_extras E nodes s =
     (if replicas_per_primary (spec_of s) \<le> 0 then Some (None, s)
      else each_ordinal (replicate_extra E nodes (totalNodes (spec_of s)))
             (map (\<lambda>r. totalNodes (spec_of s) + 1 + int r) [0..<nat (replicas_per_primary (spec_of s))]) s)"

definition scaled_up :: "env \<Rightarrow> st \<Rightarrow> outcome op" where
  "scaled_up E s =
     andthen (updateSubstatus E UpgradeResharding) (ends reconcileImmediately)
       (set_status (\<lambda>x. x\<lparr>cs_UpgradingPartition := primaries (spec_of s) - 1\<rparr>) s)"

definition handleUpgradeScalingUp :: "env \<Rightarrow> st \<Rightarrow> outcome op" where
  "handleUpgradeScalingUp E s =
     (let targetTotal = total_replicas32 (spec_of s) + upgradeExtraNodes (spec_of s)
      in get_or_fail ''checking pods during upgrade scale up'' (AllPodsReady E targetTotal) (\<lambda>ready s.
           if \<not> ready then ends reconcileAfterWaitInterval s
           else do { (password, s) \<leftarrow> getPassword E (spec_of s) s;
                     heal_first E
                       (get_or_fail ''initializing nodes for upgrade'' (initNodesWithCount E (sint targetTotal) password) (\<lambda>nodes.
                         or_fail ''meeting nodes during upgrade scale up'' (meetNodes E nodes)
                           (get_or_retry (checkGossipConvergence E nodes) (\<lambda>converged.
                              if \<not> converged then ends reconcileAfterWaitInterval
                              else or_fail [] (attach_extras E nodes) (scaled_up E))))) s }) s)"


definition destination_ordinal :: "config_spec \<Rightarrow> int \<Rightarrow> int" where
  "destination_ordinal sp part = (if part = primaries sp - 1 then totalNodes sp else part + 1)"

text \<open>Dead members are forgotten through the destination when its pod has an address; errors are logged.\<close>

definition forget_dead :: "env \<Rightarrow> int \<Rightarrow> string \<Rightarrow> st \<Rightarrow> unit op" where
  "forget_dead E ordinal password s =
     do { (r, s) \<leftarrow> getPodAddr E (i32 ordinal) s;
          case r of
            Inl _ \<Rightarrow> Some ((), s)
          | Inr addr \<Rightarrow> do { (e, s) \<leftarrow> forgetFailedNodes E (addr, password) password s; Some ((), s) } }"

definition when_replicated :: "(st \<Rightarrow> err option op) \<Rightarrow> (st \<Rightarrow> outcome op) \<Rightarrow> st \<Rightarrow> outcome op" where
  "when_replicated m k s = (if 0 < replicas_per_primary (spec_of s) then or_retry m k s else k s)"

definition start_recycling :: "env \<Rightarrow> st \<Rightarrow> outcome op" where
  "start_recycling E = andthen (updateSubstatus E UpgradeRollingUpdate) (ends reconcileImmediately)"

text \<open>Moving all slots of the source: repair, reshard, check that none is left, forget its replicas.\<close>

definition move_slots :: "env \<Rightarrow> client \<Rightarrow> string \<Rightarrow> string \<Rightarrow> int \<Rightarrow> int \<Rightarrow> string \<Rightarrow> st \<Rightarrow> outcome op" where
  "move_slots E source sourceID destID sourceSlots part password =
     andthen (ClusterFix E source)
       (get_or_fail (''resharding from partition '' @ Itoa part @ '' to destination'')
         (ClusterReshard E source sourceID destID sourceSlots) (\<lambda>result.
           get_or_fail ''verifying source empty after reshard'' (CountSlotsForNode E source sourceID) (\<lambda>remaining.
             if 0 < remaining then ends reconcileAfterWaitInterval
             else when_replicated (forgetReplicasOfNode E sourceID password) (start_recycling E))))"

definition reshard_partition :: "env \<Rightarrow> int \<Rightarrow> int \<Rightarrow> string \<Rightarrow> st \<Rightarrow> outcome op" where
  "reshard_partition E part destOrdinal password =
     get_or_fail ''getting source pod address'' (getPodAddr E (i32 part)) (\<lambda>sourceAddr.
       get_or_fail ''getting destination pod address'' (getPodAddr E (i32 destOrdinal)) (\<lambda>destAddr.
         get_or_fail (''getting source node ID at partition '' @ Itoa part) (ClusterMyID E (sourceAddr, password)) (\<lambda>sourceID.
           get_or_fail ''getting destination node ID'' (ClusterMyID E (destAddr, password)) (\<lambda>destID.
             get_or_fail ''counting source slots'' (CountSlotsForNode E (sourceAddr, password) sourceID) (\<lambda>sourceSlots.
               if sourceSlots = 0 then start_recycling E
               else move_slots E (sourceAddr, password) sourceID destID sourceSlots part password)))))"

definition handleUpgradeResharding :: "env \<Rightarrow> st \<Rightarrow> outcome op" where
  "handleUpgradeResharding E s =
     (let part = cs_UpgradingPartition (rc_Status (cfg s));
          destOrdinal = destination_ordinal (spec_of s) part
      in do { (password, s) \<leftarrow> getPassword E (spec_of s) s;
              heal_first E
                (andthen (forget_dead E destOrdinal password)
                  (when_replicated (ensurePivotReplica E password)
                    (reshard_partition E part destOrdinal password))) s })"

text \<open>A pod with an outdated template is deleted, once; a persistent one is flushed before.\<close>

definition flush_drained :: "env \<Rightarrow> int \<Rightarrow> (st \<Rightarrow> outcome op) \<Rightarrow> st \<Rightarrow> outcome op" where
  "flush_drained E part k s =
     (if sp_Ephemeral (spec_of s) then k s
      else do { (password, s) \<leftarrow> getPassword E (spec_of s) s;
                get_or_fail ''getting drained primary address for flush'' (getPodAddr E (i32 part)) (\<lambda>drainedAddr.
                  or_retry (flushAndPersistNode E drainedAddr password) k) s })"

definition delete_drained :: "env \<Rightarrow> int \<Rightarrow> st \<Rightarrow> outcome op" where
  "delete_drained E part =
     flush_drained E part
       (or_fail (''deleting pod '' @ pod_name E part) (DeletePod E (pod_name E part)) (ends reconcileAfterWaitInterval))"

definition advance :: "env \<Rightarrow> int \<Rightarrow> st \<Rightarrow> outcome op" where
  "advance E part s =
     (if 0 < part
      then andthen (updateSubstatus E UpgradeResharding) (ends reconcileAfterWaitInterval)
             (set_status (\<lambda>x. x\<lparr>cs_UpgradingPartition := part - 1\<rparr>) s)
      else andthen (updateSubstatus E UpgradeEnding) (ends reconcileAfterWaitInterval) s)"

definition check_and_advance :: "env \<Rightarrow> int \<Rightarrow> client \<Rightarrow> st \<Rightarrow> outcome op" where
  "check_and_advance E part seed =
     get_or_retry (ClusterCheck E seed) (\<lambda>result.
       if CommandCodeOutput result \<noteq> 0 \<or> Errors result \<noteq> [] then ends reconcileAfterWaitInterval
       else advance E part)"

definition rejoin_recycled :: "env \<Rightarrow> int \<Rightarrow> string \<Rightarrow> node \<Rightarrow> st \<Rightarrow> outcome op" where
  "rejoin_recycled E part password recycledNode s =
     get_or_fail ''getting seed pod address'' (getPodAddr E (totalNodes (spec_of s))) (\<lambda>seedAddr.
       or_fail (''meeting recycled node '' @ Itoa part)
         (ClusterMeet E (seedAddr, password) (n_IP recycledNode) DefaultPort)
         (andthen (forgetFailedNodes E (seedAddr, password) password)
           (when_replicated (recycleReplicasForPrimary E part password)
             (when_replicated (ensurePivotReplica E password)
               (check_and_advance E part (seedAddr, password)))))) s"

definition readmit_pod :: "env \<Rightarrow> int \<Rightarrow> st \<Rightarrow> outcome op" where
  "readmit_pod E part =
     get_or_fail (''checking pod '' @ Itoa part @ '' readiness'') (IsPodOrdinalReady E (i32 part)) (\<lambda>ready s.
       if \<not> ready then ends reconcileAfterWaitInterval s
       else do { (password, s) \<leftarrow> getPassword E (spec_of s) s;
                 get_or_fail ''getting recycled pod address'' (getPodAddr E (i32 part)) (\<lambda>addr s.
                   let cc = RuntimeClusterConfig (run s)
                   in do { (r, s) \<leftarrow> NodeInit E (NewNode (pod_name E part) addr password)
                                      (cc_ConnectionMaxRetries cc) (seconds (cc_ConnectionBackOffSeconds cc)) s;
                           if snd r \<noteq> None then ends reconcileAfterWaitInterval s
                           else rejoin_recycled E part password (fst r) s }) s })"

definition handleUpgradeRollingUpdate :: "env \<Rightarrow> st \<Rightarrow> outcome op" where
  "handleUpgradeRollingUpdate E s =
     (let part = cs_UpgradingPartition (rc_Status (cfg s))
      in heal_first E
           (get_or_fail ''getting StatefulSet update revision'' (GetStatefulSetUpdateRevision E) (\<lambda>desiredRevision.
              if desiredRevision = [] then ends reconcileAfterWaitInterval
              else get_or_retry (GetPodControllerRevisionHash E (i32 part)) (\<lambda>actualRevision.
                     if actualRevision \<noteq> desiredRevision then delete_drained E part else readmit_pod E part))) s)"

text \<open>The extra primary, once it is empty, leaves the cluster with its replicas.\<close>

definition release_extra :: "env \<Rightarrow> string \<Rightarrow> string \<Rightarrow> st \<Rightarrow> outcome op" where
  "release_extra E extraID password s =
     or_fail ''forgetting extra node'' (forgetNodeFromAll E extraID password (totalNodes (spec_of s)))
       (when_replicated (forgetExtraReplicas E password)
         (andthen (updateSubstatus E UpgradeScalingDown) (ends reconcileImmediately))) s"

definition return_slots :: "env \<Rightarrow> client \<Rightarrow> string \<Rightarrow> int \<Rightarrow> string \<Rightarrow> st \<Rightarrow> outcome op" where
  "return_slots E extra extraID extraSlots password =
     get_or_fail ''getting pod 0 address'' (getPodAddr E 0) (\<lambda>destAddr.
       get_or_fail ''getting node 0 ID'' (ClusterMyID E (destAddr, password)) (\<lambda>destID.
         andthen (forgetFailedNodes E extra password)
           (andthen (ClusterFix E extra)
             (get_or_fail ''resharding from extra to node 0'' (ClusterReshard E extra extraID destID extraSlots) (\<lambda>result.
               get_or_fail ''verifying extra empty'' (CountSlotsForNode E extra extraID) (\<lambda>remaining.
                 if 0 < remaining then ends reconcileAfterWaitInterval else release_extra E extraID password))))))"

definition handleUpgradeEnding :: "env \<Rightarrow> st \<Rightarrow> outcome op" where
  "handleUpgradeEnding E s =
     (let extraOrdinal = totalNodes (spec_of s)
      in do { (password, s) \<leftarrow> getPassword E (spec_of s) s;
              heal_first E
                (get_or_fail ''getting extra pod address'' (getPodAddr E extraOrdinal) (\<lambda>extraAddr.
                   get_or_fail ''getting extra node ID'' (ClusterMyID E (extraAddr, password)) (\<lambda>extraID.
                     get_or_fail ''counting extra node slots'' (CountSlotsForNode E (extraAddr, password) extraID) (\<lambda>extraSlots.
                       if extraSlots = 0 then release_extra E extraID password
                       else return_slots E (extraAddr, password) extraID extraSlots password)))) s })"

definition final_checks :: "env \<Rightarrow> st \<Rightarrow> outcome op" where
  "final_checks E s =
     do { (password, s) \<leftarrow> getPassword E (spec_of s) s;
          get_or_fail ''getting node 0 for cluster check'' (getPodAddr E 0) (\<lambda>node0Addr.
            get_or_retry (ClusterCheck E (node0Addr, password)) (\<lambda>result.
              if Errors result \<noteq> [] then ends reconcileAfterWaitInterval
              else when_replicated (rebalanceReplicas E password) (finish_upgrade E ''rolling upgrade''))) s }"

definition handleUpgradeScalingDown :: "env \<Rightarrow> st \<Rightarrow> outcome op" where
  "handleUpgradeScalingDown E =
     or_fail ''restoring RollingUpdate strategy'' (SetStatefulSetPartition E 0) (\<lambda>s.
       or_fail ''scaling down after upgrade'' (ScaleStatefulSet E (total_replicas32 (spec_of s))) (\<lambda>s.
         get_or_fail ''checking readiness after upgrade scale down'' (AllPodsReady E (total_replicas32 (spec_of s))) (\<lambda>ready.
           if \<not> ready then ends reconcileAfterWaitInterval else heal_first E (final_checks E)) s) s)"

definition handleRollingUpgrade :: "env \<Rightarrow> st \<Rightarrow> outcome op" where
  "handleRollingUpgrade E s =
     (case substatus_of (cfg s) of
        UpgradeScalingUp \<Rightarrow> handleUpgradeScalingUp E s
      | UpgradeResharding \<Rightarrow> handleUpgradeResharding E s
      | UpgradeRollingUpdate \<Rightarrow> handleUpgradeRollingUpdate E s
      | UpgradeEnding \<Rightarrow> handleUpgradeEnding E s
      | UpgradeScalingDown \<Rightarrow> handleUpgradeScalingDown E s
      | _ \<Rightarrow> handleUpgradeStart E s)"

definition handleUpgrading :: "env \<Rightarrow> st \<Rightarrow> outcome op" where
  "handleUpgrading E s =
     (if fastUpgradeEligible (spec_of s) then handleFastUpgrade E s else handleRollingUpgrade E s)"

end
