(* ===== verification/Reconcile_Loop.thy ===== *)
theory Reconcile_Loop
  imports Standalone Upgrade Config_Plan
begin

text \<open>
  The dispatch on the status (\<open>ReconcileCluster\<close> of \<open>cluster_reconciler.go\<close>), the choice of the configuration
  with its writes (\<open>config_plan.go\<close>) and one cycle of the polling loop (\<open>reconciler.go\<close>). The configurations
  read at the start of a cycle are a list in memory; the pointers of the code are indices into it. The
  intervals the loop waits for are fields of the \<open>Reconciler\<close>, here a record of their own.
\<close>

section \<open>Dispatch\<close>

definition ReconcileCluster :: "env \<Rightarrow> redkey_config option \<Rightarrow> st \<Rightarrow> outcome op" where
  "ReconcileCluster E previousConfig s =
     (if e_is_standalone E (spec_of s) then reconcileStandalone E previousConfig s
      else case status_of (cfg s) of
             StatusEmpty \<Rightarrow> (case previousConfig of None \<Rightarrow> handleNew E s | Some p \<Rightarrow> handleConfigChange E p s)
           | Initializing \<Rightarrow> handleInitializing E s
           | Configuring \<Rightarrow> handleConfiguring E s
           | Ready \<Rightarrow> handleReady E previousConfig s
           | ScalingUp \<Rightarrow> handleScalingUp E s
           | ScalingDown \<Rightarrow> handleScalingDown E s
           | ScalingToZero \<Rightarrow> handleScalingToZero E s
           | Upgrading \<Rightarrow> handleUpgrading E s
           | _ \<Rightarrow> ends reconcileAfterInterval s)"

section \<open>Choosing the configuration\<close>

definition listConfigs :: "env \<Rightarrow> bool \<Rightarrow> st \<Rightarrow> (err + redkey_config list) op" where
  "listConfigs E sorted_list s =
     do { (r, s) \<leftarrow> k8s_get e_list_configs ListConfigs E s;
          case r of
            Inl k \<Rightarrow> Some (Inl (kerr_text k), s)
          | Inr items \<Rightarrow>
              if sorted_list
              then do { (order, s) \<leftarrow> map_order E items s; Some (Inr (sort_key seq_of order), s) }
              else Some (Inr items, s) }"

definition initial_status :: config_state where
  "initial_status = \<lparr>cs_ConfigPhase = Pending, cs_Status = StatusEmpty, cs_Substatus = SubEmpty,
     cs_UpgradingPartition = 0, cs_Nodes = Some Map.empty, cs_Conditions = []\<rparr>"

text \<open>The phase is set in memory whether or not the write succeeds.\<close>

definition initConfigPhase :: "env \<Rightarrow> redkey_config \<Rightarrow> st \<Rightarrow> redkey_config op" where
  "initConfigPhase E c s =
     (let c = c\<lparr>rc_Status := initial_status\<rparr>
      in do { (e, s) \<leftarrow> update_status E c s; Some (c, s) })"

fun init_phases :: "env \<Rightarrow> redkey_config list \<Rightarrow> st \<Rightarrow> redkey_config list op" where
  "init_phases E [] s = Some ([], s)"
| "init_phases E (c # rest) s =
     do { (c, s) \<leftarrow> (if phase_of c = PhaseEmpty then initConfigPhase E c s else Some (c, s));
          (cs, s) \<leftarrow> init_phases E rest s;
          Some (c # cs, s) }"

definition superseded :: "redkey_config \<Rightarrow> redkey_config" where
  "superseded c = c\<lparr>rc_Status := (rc_Status c)\<lparr>cs_ConfigPhase := Superseded\<rparr>\<rparr>"

text \<open>The first configuration that cannot be marked becomes the target; in memory it is marked all the
  same.\<close>

fun supersede_each :: "env \<Rightarrow> redkey_config list \<Rightarrow> nat \<Rightarrow> nat list \<Rightarrow> st \<Rightarrow> (redkey_config list \<times> nat) op" where
  "supersede_each E configs selected [] s = Some ((configs, selected), s)"
| "supersede_each E configs selected (i # rest) s =
     (let configs = configs[i := superseded (configs ! i)]
      in do { (e, s) \<leftarrow> update_status E (configs ! i) s;
              if e \<noteq> None then Some ((configs, i), s) else supersede_each E configs selected rest s })"

definition applySupersedingStatus ::
  "env \<Rightarrow> redkey_config list \<Rightarrow> SupersedingResult \<Rightarrow> st \<Rightarrow> (redkey_config list \<times> nat) op" where
  "applySupersedingStatus E configs sr s = supersede_each E configs (sr_Selected sr) (sr_Superseded sr) s"

definition selectConfig :: "env \<Rightarrow> st \<Rightarrow> (err + redkey_config option \<times> redkey_config option) op" where
  "selectConfig E s =
     do { (r, s) \<leftarrow> listConfigs E True s;
          case r of
            Inl e \<Rightarrow> Some (Inl e, s)
          | Inr listed \<Rightarrow>
              if listed = [] then Some (Inr (None, None), s)
              else do { (configs, s) \<leftarrow> init_phases E listed s;
                        case SelectConfig configs of
                          (_, None) \<Rightarrow> Some (Inr (None, None), s)
                        | (previous, Some selected) \<Rightarrow>
                            let result = ApplySuperseding configs selected
                            in do { (t, s) \<leftarrow> (if sr_Superseded result \<noteq> []
                                               then applySupersedingStatus E configs result s
                                               else Some ((configs, selected), s));
                                    Some (Inr (map_option ((!) (fst t)) previous, Some (fst t ! snd t)), s) } } }"

definition setConfigPhaseInProgress :: "env \<Rightarrow> st \<Rightarrow> err option op" where
  "setConfigPhaseInProgress E = write_status E (\<lambda>x. x\<lparr>cs_ConfigPhase := InProgress\<rparr>)"

section \<open>One cycle\<close>

record intervals =
  iv_interval :: int
  iv_onError :: int
  iv_onWait :: int

definition nextWaitDuration :: "intervals \<Rightarrow> reconcileSchedule \<Rightarrow> bool \<Rightarrow> int" where
  "nextWaitDuration iv schedule onError =
     (if onError then iv_onError iv
      else case schedule of
             reconcileImmediately \<Rightarrow> 0
           | reconcileAfterWaitInterval \<Rightarrow> iv_onWait iv
           | reconcileAfterInterval \<Rightarrow> iv_interval iv)"

definition hasMoreActionableConfigs :: "env \<Rightarrow> redkey_config \<Rightarrow> st \<Rightarrow> bool op" where
  "hasMoreActionableConfigs E applied s =
     do { (r, s) \<leftarrow> listConfigs E False s;
          Some (case r of
                  Inl _ \<Rightarrow> False
                | Inr configs \<Rightarrow> list_ex (\<lambda>c. rc_Name c \<noteq> rc_Name applied \<and> \<not> finished c) configs, s) }"

definition copyPreviousClusterStatus :: "env \<Rightarrow> redkey_config option \<Rightarrow> st \<Rightarrow> err option op" where
  "copyPreviousClusterStatus E previousConfig s =
     (case previousConfig of
        None \<Rightarrow> Some (None, s)
      | Some p \<Rightarrow> write_status E (\<lambda>x. (rc_Status p)\<lparr>cs_ConfigPhase := cs_ConfigPhase x\<rparr>) s)"

definition effective_config :: "redkey_config \<Rightarrow> redkey_config option \<Rightarrow> redkey_config" where
  "effective_config target previous =
     (if phase_of target = Applied then target else case previous of None \<Rightarrow> target | Some p \<Rightarrow> p)"

definition applyRobinConfig ::
  "env \<Rightarrow> redkey_config \<Rightarrow> redkey_config option \<Rightarrow> RuntimeConfig \<Rightarrow> RuntimeConfig \<times> intervals" where
  "applyRobinConfig E target previous rc =
     (let sp = rc_Spec (effective_config target previous);
          rc = SetFromRobinConfig (sp_RobinConfig sp) rc;
          iv = \<lparr>iv_interval = reconcilerInterval rc, iv_onError = reconcilerIntervalOnError rc,
                iv_onWait = reconcilerIntervalOnWait rc\<rparr>
      in (SetAuthSecret (sp_AuthSecretName sp) (SetStandalone (e_is_standalone E sp)
            (SetTopology (sp_Primaries sp) (sp_ReplicasPerPrimary sp) rc)), iv))"

text \<open>A new configuration: marked in progress, given the status of the previous one, and turned into a
  change of status; the change is carried out in the same cycle unless it is complete.\<close>

definition start_config_change :: "env \<Rightarrow> redkey_config option \<Rightarrow> st \<Rightarrow> outcome op" where
  "start_config_change E previousConfig s =
     (case previousConfig of
        None \<Rightarrow> ReconcileCluster E previousConfig s
      | Some p \<Rightarrow>
          if e_is_standalone E (spec_of s) then handleStandaloneConfigChange E p s
          else do { (r, s) \<leftarrow> handleConfigChange E p s;
                    if snd r \<noteq> None \<or> phase_of (cfg s) = Applied then Some (r, s)
                    else ReconcileCluster E previousConfig s })"

definition reconcile_pending :: "env \<Rightarrow> redkey_config option \<Rightarrow> st \<Rightarrow> outcome op" where
  "reconcile_pending E previousConfig =
     or_fail [] (setConfigPhaseInProgress E)
       (or_fail [] (copyPreviousClusterStatus E previousConfig) (start_config_change E previousConfig))"

definition reconcile_phase :: "env \<Rightarrow> redkey_config option \<Rightarrow> st \<Rightarrow> outcome op" where
  "reconcile_phase E previousConfig s =
     (if phase_of (cfg s) = Pending then reconcile_pending E previousConfig s
      else ReconcileCluster E previousConfig s)"

text \<open>Returns the schedule, whether the cycle failed, and the intervals now in force.\<close>

definition finish_cycle :: "env \<Rightarrow> redkey_config option \<Rightarrow> config_phase \<Rightarrow> reconcileSchedule \<Rightarrow> st
   \<Rightarrow> (reconcileSchedule \<times> bool \<times> intervals) op" where
  "finish_cycle E previousConfig initialPhase schedule s =
     (let (rc, iv) = applyRobinConfig E (cfg s) previousConfig (run s);
          s = s\<lparr>run := rc\<rparr>
      in if initialPhase \<noteq> Applied \<and> phase_of (cfg s) = Applied
         then do { (more, s) \<leftarrow> hasMoreActionableConfigs E (cfg s) s;
                   Some ((if more then reconcileImmediately else schedule, False, iv), s) }
         else Some ((schedule, False, iv), s))"

definition reconcile :: "env \<Rightarrow> intervals \<Rightarrow> st \<Rightarrow> (reconcileSchedule \<times> bool \<times> intervals) op" where
  "reconcile E iv s =
     do { (r, s) \<leftarrow> selectConfig E s;
          case r of
            Inl e \<Rightarrow> Some ((reconcileAfterInterval, True, iv), s)
          | Inr (previousConfig, targetConfig) \<Rightarrow>
              (case targetConfig of
                 None \<Rightarrow> Some ((reconcileAfterInterval, False, iv), s)
               | Some target \<Rightarrow>
                   if \<not> validConfigPhase (phase_of target) True then Some ((reconcileAfterInterval, True, iv), s)
                   else do { (out, s) \<leftarrow> reconcile_phase E previousConfig (s\<lparr>cfg := target\<rparr>);
                             if snd out \<noteq> None then Some ((fst out, True, iv), s)
                             else finish_cycle E previousConfig (phase_of target) (fst out) s }) }"

text \<open>The polling loop for at most \<open>n\<close> cycles after the first. It ends early when the context is done,
  and then returns \<open>True\<close>.\<close>

fun poll :: "env \<Rightarrow> nat \<Rightarrow> reconcileSchedule \<times> bool \<times> intervals \<Rightarrow> st \<Rightarrow> bool op" where
  "poll E 0 r s = Some (False, s)"
| "poll E (Suc n) (schedule, onError, iv) s =
     do { (done, s) \<leftarrow> sleep E (nextWaitDuration iv schedule onError) s;
          if done \<noteq> None then Some (True, s)
          else do { (r, s) \<leftarrow> reconcile E iv s; poll E n r s } }"

definition Start :: "env \<Rightarrow> nat \<Rightarrow> st \<Rightarrow> bool op" where
  "Start E n s =
     (let iv = \<lparr>iv_interval = reconcilerInterval (run s), iv_onError = reconcilerIntervalOnError (run s),
                iv_onWait = reconcilerIntervalOnWait (run s)\<rparr>
      in do { (r, s) \<leftarrow> reconcile E iv s; poll E n r s })"

end
