(* ===== verification/Frames.thy ===== *)
theory Frames
  imports Standalone Upgrade
begin

text \<open>
  What the operations leave alone. \<open>stays I m\<close> is the partial form of \<open>keeps\<close>: whenever \<open>m\<close> returns, its
  final state satisfies \<open>I\<close>; it fits the handlers that may panic. The locale \<open>silent\<close> collects the frame
  of every operation that records no status and destroys nothing - no pod, StatefulSet or volume is deleted and no
  server shut down: the configuration it works on is the same afterwards. The locales \<open>deleting\<close>, \<open>removing\<close>, \<open>erasing\<close>
  and \<open>purging\<close> add the operations that do one of these, for the invariants that tolerate it; \<open>silent_deleting\<close> has all.
\<close>

section \<open>Invariants of operations that may panic\<close>

definition stays :: "(st \<Rightarrow> bool) \<Rightarrow> 'r op \<Rightarrow> bool" where
  "stays I m = (\<forall>r s. m = Some (r, s) \<longrightarrow> I s)"

named_theorems stays_intro "rules that push a partial invariant through an operation"

lemma staysD: "stays I m \<Longrightarrow> m = Some (r, s) \<Longrightarrow> I s"
  by (simp add: stays_def)

lemma stays_mono: "stays I m \<Longrightarrow> (\<And>s. I s \<Longrightarrow> J s) \<Longrightarrow> stays J m"
  by (auto simp: stays_def)

lemma stays_Some [stays_intro]: "I s \<Longrightarrow> stays I (Some (r, s))"
  by (simp add: stays_def)

lemma stays_None [stays_intro]: "stays I None"
  by (simp add: stays_def)

lemma stays_seq: "stays I m \<Longrightarrow> (\<And>r s. I s \<Longrightarrow> stays J (f r s)) \<Longrightarrow> stays J (m \<bind> (\<lambda>(r, s). f r s))"
  by (cases m) (auto simp: stays_def)

lemmas stays_bind [stays_intro] = stays_seq [where J = I and I = I for I]

lemma stays_if [stays_intro]:
  "(c \<Longrightarrow> stays I m) \<Longrightarrow> (\<not> c \<Longrightarrow> stays I n) \<Longrightarrow> stays I (if c then m else n)"
  by simp

lemma stays_if_app [stays_intro]:
  "(c \<Longrightarrow> stays I (f s)) \<Longrightarrow> (\<not> c \<Longrightarrow> stays I (g s)) \<Longrightarrow> stays I ((if c then f else g) s)"
  by simp

lemma stays_let [stays_intro]: "(\<And>x. x = e \<Longrightarrow> stays I (f x)) \<Longrightarrow> stays I (let x = e in f x)"
  by simp

lemma stays_case_sum [stays_intro]:
  "(\<And>a. stays I (f a)) \<Longrightarrow> (\<And>b. stays I (g b)) \<Longrightarrow> stays I (case x of Inl a \<Rightarrow> f a | Inr b \<Rightarrow> g b)"
  by (cases x) auto

lemma stays_case_option [stays_intro]:
  "stays I f \<Longrightarrow> (\<And>b. stays I (g b)) \<Longrightarrow> stays I (case x of None \<Rightarrow> f | Some b \<Rightarrow> g b)"
  by (cases x) auto

lemma stays_case_prod [stays_intro]:
  "(\<And>a b. x = (a, b) \<Longrightarrow> stays I (f a b)) \<Longrightarrow> stays I (case x of (a, b) \<Rightarrow> f a b)"
  by (cases x) auto

lemma stays_case_list [stays_intro]:
  "stays I f \<Longrightarrow> (\<And>a b. stays I (g a b)) \<Longrightarrow> stays I (case x of [] \<Rightarrow> f | a # b \<Rightarrow> g a b)"
  by (cases x) auto

text \<open>The steps of a handler; an invariant may give way to another one after the step.\<close>

lemma stays_step:
  "stays I (m1 s) \<Longrightarrow> (\<And>s. I s \<Longrightarrow> J s) \<Longrightarrow> (\<And>s. I s \<Longrightarrow> stays J (k s)) \<Longrightarrow> stays J (or_fail c m1 k s)"
  "stays I (m2 s) \<Longrightarrow> (\<And>s. I s \<Longrightarrow> J s) \<Longrightarrow> (\<And>x s. I s \<Longrightarrow> stays J (k2 x s)) \<Longrightarrow> stays J (get_or_fail c m2 k2 s)"
  "stays I (m1 s) \<Longrightarrow> (\<And>s. I s \<Longrightarrow> J s) \<Longrightarrow> (\<And>s. I s \<Longrightarrow> stays J (k s)) \<Longrightarrow> stays J (or_retry m1 k s)"
  "stays I (m2 s) \<Longrightarrow> (\<And>s. I s \<Longrightarrow> J s) \<Longrightarrow> (\<And>x s. I s \<Longrightarrow> stays J (k2 x s)) \<Longrightarrow> stays J (get_or_retry m2 k2 s)"
  "stays I (m3 s) \<Longrightarrow> (\<And>s. I s \<Longrightarrow> stays J (k s)) \<Longrightarrow> stays J (andthen m3 k s)"
  "stays I (m1 s) \<Longrightarrow> (\<And>s. I s \<Longrightarrow> J' s) \<Longrightarrow> (\<And>s. I s \<Longrightarrow> stays J' (k' s)) \<Longrightarrow> stays J' (or_wrap c m1 k' s)"
  "stays I (m2 s) \<Longrightarrow> (\<And>s. I s \<Longrightarrow> J' s) \<Longrightarrow> (\<And>x s. I s \<Longrightarrow> stays J' (k2' x s)) \<Longrightarrow> stays J' (get_or_err c m2 k2' s)"
  unfolding ends_def or_fail_def get_or_fail_def or_retry_def get_or_retry_def andthen_def or_wrap_def get_or_err_def
  by (auto intro!: stays_Some stays_seq [where I = I] stays_case_sum stays_case_option stays_if simp: ends_def)

lemma stays_ends [stays_intro]: "I s \<Longrightarrow> stays I (ends sch s)"
  by (simp add: ends_def stays_Some)

lemma stays_steps [stays_intro]:
  "stays I (m1 s) \<Longrightarrow> (\<And>s. I s \<Longrightarrow> stays I (k s)) \<Longrightarrow> stays I (or_fail c m1 k s)"
  "stays I (m2 s) \<Longrightarrow> (\<And>x s. I s \<Longrightarrow> stays I (k2 x s)) \<Longrightarrow> stays I (get_or_fail c m2 k2 s)"
  "stays I (m1 s) \<Longrightarrow> (\<And>s. I s \<Longrightarrow> stays I (k s)) \<Longrightarrow> stays I (or_retry m1 k s)"
  "stays I (m2 s) \<Longrightarrow> (\<And>x s. I s \<Longrightarrow> stays I (k2 x s)) \<Longrightarrow> stays I (get_or_retry m2 k2 s)"
  "stays I (m3 s) \<Longrightarrow> (\<And>s. I s \<Longrightarrow> stays I (k s)) \<Longrightarrow> stays I (andthen m3 k s)"
  "stays I (m1 s) \<Longrightarrow> (\<And>s. I s \<Longrightarrow> stays I (k' s)) \<Longrightarrow> stays I (or_wrap c m1 k' s)"
  "stays I (m2 s) \<Longrightarrow> (\<And>x s. I s \<Longrightarrow> stays I (k2' x s)) \<Longrightarrow> stays I (get_or_err c m2 k2' s)"
  by (rule stays_step [where I = I]; assumption)+

section \<open>Operations that record no status\<close>

fun status_write :: "event \<Rightarrow> bool" where
  "status_write (StatusWrite c r) = True"
| "status_write e = False"

fun pod_deletion :: "event \<Rightarrow> bool" where
  "pod_deletion (Write (DeletePodObj n) r) = True"
| "pod_deletion e = False"

fun shut_down :: "event \<Rightarrow> bool" where
  "shut_down (Command a p ShutdownSave r) = True"
| "shut_down e = False"

fun set_deletion :: "event \<Rightarrow> bool" where
  "set_deletion (Write DeleteStatefulSetObj r) = True"
| "set_deletion e = False"

fun volume_deletion :: "event \<Rightarrow> bool" where
  "volume_deletion (Write (DeletePVC n) r) = True"
| "volume_deletion e = False"

definition destructive :: "event \<Rightarrow> bool" where
  "destructive e = (pod_deletion e \<or> shut_down e \<or> set_deletion e \<or> volume_deletion e)"

lemma destructive_cases [simp]:
  "\<not> destructive (Read w)" "\<not> destructive (StatusWrite c k)" "\<not> destructive (Query a p q)" "\<not> destructive (Cli as vs i cr)"
  "\<not> destructive CheckContext" "\<not> destructive (Sleep d)" "\<not> destructive ChooseOrder"
  by (simp_all add: destructive_def)

definition quiet :: "event \<Rightarrow> bool" where
  "quiet e = (\<not> status_write e)"

definition silent_event :: "event \<Rightarrow> bool" where
  "silent_event e = (\<not> status_write e \<and> \<not> destructive e)"

text \<open>The runtime configuration as the handlers leave it: they only note which Secret they read.\<close>

definition settings :: "RuntimeConfig \<Rightarrow> RuntimeConfig" where
  "settings rc = rc\<lparr>authSecret := []\<rparr>"

lemma settings_auth [simp]: "settings (SetAuthSecret x rc) = settings rc"
  by (simp add: settings_def SetAuthSecret_def)

definition still :: "(event \<Rightarrow> bool) \<Rightarrow> st \<Rightarrow> st \<Rightarrow> bool" where
  "still P s0 s = (grows P s0 s \<and> cfg s = cfg s0 \<and> settings (run s) = settings (run s0))"

lemma still_refl [simp, intro]: "still P s s"
  by (simp add: still_def)

lemma still_trans: "still P a b \<Longrightarrow> still P b c \<Longrightarrow> still P a c"
  unfolding still_def using grows_trans by metis

lemma still_log [simp]: "P e \<Longrightarrow> still P s0 s \<Longrightarrow> still P s0 (log e s)"
  by (simp add: still_def)

lemma still_update [simp]:
  "still P s0 (s\<lparr>run := SetAuthSecret x (run s)\<rparr>) = still P s0 s"
  "still P s0 (s\<lparr>hc_clients := m\<rparr>) = still P s0 s" "still P s0 (s\<lparr>hc_clientsPassword := pw\<rparr>) = still P s0 s"
  "still P s0 (s\<lparr>hr_ephemeral := b\<rparr>) = still P s0 s" "still P s0 (s\<lparr>hr_lastReport := l\<rparr>) = still P s0 s"
  by (simp_all add: still_def)

lemma still_mono: "still P a b \<Longrightarrow> (\<And>e. P e \<Longrightarrow> Q e) \<Longrightarrow> still Q a b"
  unfolding still_def using grows_mono by blast

lemma still_of_extends: "extends P s0 s \<Longrightarrow> still P s0 s"
  by (simp add: still_def extends_def)

locale silent =
  fixes J :: "st \<Rightarrow> bool"
  assumes still: "J s \<Longrightarrow> still silent_event s s' \<Longrightarrow> J s'"
begin

lemma of_keeps: "keeps (extends silent_event s) m \<Longrightarrow> J s \<Longrightarrow> stays J m"
  unfolding keeps_def stays_def using still still_of_extends by blast

lemma J_log [simp]: "\<not> status_write e \<Longrightarrow> \<not> destructive e \<Longrightarrow> J s \<Longrightarrow> J (log e s)"
  by (rule still [of s]) (simp_all add: silent_event_def)

lemma J_fields [simp]:
  "J s \<Longrightarrow> J (s\<lparr>run := SetAuthSecret x (run s)\<rparr>)" "J s \<Longrightarrow> J (s\<lparr>hc_clients := m\<rparr>)" "J s \<Longrightarrow> J (s\<lparr>hc_clientsPassword := pw\<rparr>)"
  "J s \<Longrightarrow> J (s\<lparr>hr_ephemeral := b\<rparr>)" "J s \<Longrightarrow> J (s\<lparr>hr_lastReport := l\<rparr>)"
  by (erule still, simp)+

lemmas frame_client [stays_intro] =
  keeps_primitives [rotated -1, OF extends_refl, THEN of_keeps, unfolded silent_event_def destructive_def, simplified]
  keeps_client_commands [rotated -1, OF extends_refl, THEN of_keeps, unfolded silent_event_def destructive_def, simplified]
  keeps_client_queries [rotated -1, OF extends_refl, THEN of_keeps, unfolded silent_event_def destructive_def, simplified]
  keeps_info [rotated -1, OF extends_refl, THEN of_keeps, unfolded silent_event_def destructive_def, simplified]
  keeps_cli [rotated -1, OF extends_refl, THEN of_keeps, unfolded silent_event_def destructive_def, simplified]
  keeps_check_connection [rotated -1, OF extends_refl, THEN of_keeps, unfolded silent_event_def destructive_def, simplified]
  keeps_node [rotated -1, OF extends_refl, THEN of_keeps, unfolded silent_event_def destructive_def, simplified]
  keeps_reads [rotated -1, OF extends_refl, THEN of_keeps, unfolded silent_event_def destructive_def, simplified]

text \<open>Kubernetes\<close>

lemma frame_k8s_writes [stays_intro]:
  assumes s: "J s"
  shows "stays J (DeleteService E s)" "stays J (DeleteConfigMap E s)"
    "stays J (DeletePDB E s)"
    "stays J (UpdateConfigMap E sp pw s)" "stays J (ScaleStatefulSet E n s)"
    "stays J (SetStatefulSetPartition E i s)"
  by (rule of_keeps [OF _ s], intro keeps_intro; simp add: silent_event_def destructive_def)+

lemma frame_ensure [stays_intro]:
  assumes s: "J s"
  shows "stays J (ensureConfigMap E sp pw s)" "stays J (ensureService E sp s)"
    "stays J (ensureStatefulSet E owner sp s)" "stays J (ensurePDB E sp s)"
    "stays J (UpdateStatefulSetTemplate E owner sp checksum s)"
  unfolding ensureConfigMap_def ensureService_def ensureStatefulSet_def ensurePDB_def UpdateStatefulSetTemplate_def
  by (intro stays_intro; simp add: s)+

lemma frame_ReconcilePDB [stays_intro]: "J s \<Longrightarrow> stays J (ReconcilePDB E sp s)"
  unfolding ReconcilePDB_def by (intro stays_intro; assumption)

lemma frame_reconcile_objects [stays_intro]:
  assumes s: "J s"
  shows "stays J (ReconcileService E sp s)" "stays J (EnsureClusterObjects E owner sp pw s)"
  unfolding ReconcileService_def EnsureClusterObjects_def by (intro stays_intro; simp add: s)+

text \<open>Shared operations of the cluster\<close>

lemma frame_owner_password [stays_intro]:
  assumes s: "J s"
  shows "stays J (getOwner E s)" "stays J (getPassword E sp s)"
    "stays J (buildHealthNodes E s)"
  unfolding getOwner_def getPassword_def buildHealthNodes_def by (intro stays_intro; simp add: s)+

lemma frame_init_nodes [stays_intro]: "J s \<Longrightarrow> stays J (init_nodes E addrs pw m b names s)"
  by (induction names arbitrary: s) (auto intro!: stays_intro)

lemma frame_initNodes [stays_intro]:
  assumes s: "J s"
  shows "stays J (initNodesWithCount E n pw s)" "stays J (initNodes E pw s)"
  unfolding initNodes_def initNodesWithCount_def by (intro stays_intro; simp add: s)+

lemma frame_refreshRoles [stays_intro]: "J s \<Longrightarrow> stays J (refreshRoles E ns s)"
  by (induction ns arbitrary: s) (auto intro!: stays_intro)

lemma frame_meet_others [stays_intro]: "J s \<Longrightarrow> stays J (meet_others E n i j ns s)"
  by (induction ns arbitrary: j s) (auto intro!: stays_intro)

lemma frame_meet_from [stays_intro]: "J s \<Longrightarrow> stays J (meet_from E nodes i ns s)"
  by (induction ns arbitrary: i s) (auto intro!: stays_intro)

lemma frame_gossip_loop [stays_intro]: "J s \<Longrightarrow> stays J (gossip_loop E ids ns s)"
  by (induction ns arbitrary: s) (auto intro!: stays_intro)

lemma frame_meetNodes [stays_intro]:
  assumes s: "J s"
  shows "stays J (meetNodes E ns s)" "stays J (checkGossipConvergence E ns s)"
    "stays J (verifyCluster E n s)"
  unfolding meetNodes_def checkGossipConvergence_def verifyCluster_def by (intro stays_intro; simp add: s)+

lemma frame_assign_slots_loop [stays_intro]:
  "J s \<Longrightarrow> stays J (assign_slots_loop E n i st ps s)"
proof (induction ps arbitrary: i st s)
  case (Cons p ps)
  show ?case unfolding assign_slots_loop.simps by (intro stays_intro Cons.IH; simp add: Cons.prems)
qed (simp add: stays_Some)

lemma frame_set_replicas_loop [stays_intro]:
  "J s \<Longrightarrow> stays J (set_replicas_loop E ps k i rs s)"
proof (induction rs arbitrary: i s)
  case (Cons r rs)
  show ?case unfolding set_replicas_loop.simps by (intro stays_intro Cons.IH; simp add: Cons.prems)
qed (simp add: stays_Some)

lemma frame_forming [stays_intro]:
  assumes s: "J s"
  shows "stays J (assignSlots E ps s)" "stays J (setReplicas E ps rs k s)"
    "stays J (clusterAlreadyFormed E ns s)"
  unfolding assignSlots_def setReplicas_def clusterAlreadyFormed_def by (intro stays_intro; simp add: s)+

text \<open>Health\<close>

lemma frame_forget_from_each [stays_intro]: "J s \<Longrightarrow> stays J (forget_from_each E pw i ns s)"
  by (induction ns arbitrary: s) (auto intro!: stays_intro)

lemma frame_meet_from_each [stays_intro]: "J s \<Longrightarrow> stays J (meet_from_each E pw i ns s)"
  by (induction ns arbitrary: s) (auto intro!: stays_intro)

lemma frame_from_all_peers [stays_intro]:
  assumes s: "J s"
  shows "stays J (forgetFromAllPeers E nodes pw i s)"
    "stays J (meetFromAllPeers E nodes ips pw i s)"
    "stays J (hr_clusterFix E c s)"
  unfolding forgetFromAllPeers_def meetFromAllPeers_def hr_clusterFix_def by (intro stays_intro; simp add: s)+

lemma frame_promote [stays_intro]: "J s \<Longrightarrow> stays J (promoteReplicaOfDeadMaster E cns ips pw i s)"
proof (induction cns arbitrary: s)
  case (Cons c cns)
  show ?case unfolding promoteReplicaOfDeadMaster.simps Let_def by (intro stays_intro Cons.IH; simp add: Cons.prems)
qed (simp add: stays_Some)

lemma frame_heal_forget [stays_intro]: "J s \<Longrightarrow> stays J (heal_forget_loop E nodes pw eph view ips cns f g s)"
proof (induction cns arbitrary: f g s)
  case (Cons c cns)
  show ?case unfolding heal_forget_loop.simps Let_def by (intro stays_intro Cons.IH; simp add: Cons.prems)
qed (simp add: stays_Some)

lemma frame_heal_meet [stays_intro]: "J s \<Longrightarrow> stays J (heal_meet_loop E nodes pw ips ns m s)"
proof (induction ns arbitrary: m s)
  case (Cons n ns)
  show ?case unfolding heal_meet_loop.simps Let_def by (intro stays_intro Cons.IH; simp add: Cons.prems)
qed (simp add: stays_Some)

lemma frame_HealMembership [stays_intro]:
  assumes s: "J s"
  shows "stays J (HealMembership E nodes pw mm eph s)"
  unfolding HealMembership_def by (intro stays_intro; simp add: s)+

lemma frame_remediateMembership [stays_intro]:
  assumes s: "J s"
  shows "stays J (remediateMembership E nodes pw s)"
  unfolding remediateMembership_def by (intro stays_intro; simp add: s)+

lemma frame_collect_owners [stays_intro]: "J s \<Longrightarrow> stays J (collect_owners E pw d ns owners s)"
proof (induction ns arbitrary: owners s)
  case (Cons n ns)
  show ?case unfolding collect_owners.simps Let_def by (intro stays_intro Cons.IH; simp add: Cons.prems)
qed (simp add: stays_Some)

lemma frame_set_slot_nodes [stays_intro]: "J s \<Longrightarrow> stays J (set_slot_nodes E c fs s)"
  by (induction fs arbitrary: s) (auto intro!: stays_intro)

lemma frame_force_agreement [stays_intro]: "J s \<Longrightarrow> stays J (force_agreement E pw fixes r ns s)"
proof (induction ns arbitrary: s)
  case (Cons n ns)
  show ?case unfolding force_agreement.simps Let_def by (intro stays_intro Cons.IH; simp add: Cons.prems)
qed (simp add: stays_Some)

lemma frame_resolveSlotDisagreement [stays_intro]:
  assumes s: "J s"
  shows "stays J (resolveSlotDisagreement E nodes pw d s)"
  unfolding resolveSlotDisagreement_def by (intro stays_intro; simp add: s)+

lemma frame_assign_missing_loop [stays_intro]: "J s \<Longrightarrow> stays J (assign_missing_loop E nodes pw m k ps slots s)"
proof (induction ps arbitrary: slots s)
  case (Cons p ps)
  show ?case unfolding assign_missing_loop.simps Let_def by (intro stays_intro Cons.IH; simp add: Cons.prems)
qed (simp add: stays_Some)

lemma frame_remediateSlotCoverage [stays_intro]:
  assumes s: "J s"
  shows "stays J (remediateSlotCoverage E rep nodes pw s)"
  unfolding remediateSlotCoverage_def by (intro stays_intro; simp add: s)+

lemma frame_reassign [stays_intro]: "J s \<Longrightarrow> stays J (reassign E pw plan s)"
  by (induction plan arbitrary: s) (auto intro!: stays_intro)

lemma frame_demote [stays_intro]: "J s \<Longrightarrow> stays J (demote E pw plan s)"
  by (induction plan arbitrary: s) (auto intro!: stays_intro)

lemma frame_drainPrimaries [stays_intro]:
  assumes s: "J s"
  shows "stays J (drainPrimaries E a pw ids s)"
  unfolding drainPrimaries_def by (intro stays_intro; simp add: s)+

lemma frame_remediateExcessPrimaries [stays_intro]:
  assumes s: "J s"
  shows "stays J (remediateExcessPrimaries E nodes ids rs pw dp dr s)"
  unfolding remediateExcessPrimaries_def by (intro stays_intro; simp add: s)+

lemma frame_reset_each [stays_intro]: "J s \<Longrightarrow> stays J (reset_each E pw rs s)"
  by (induction rs arbitrary: s) (auto intro!: stays_intro)

lemma frame_meet_target [stays_intro]: "J s \<Longrightarrow> stays J (meet_target E pw ips i ns s)"
proof (induction ns arbitrary: s)
  case (Cons n ns)
  show ?case unfolding meet_target.simps Let_def by (intro stays_intro Cons.IH; simp add: Cons.prems)
qed (simp add: stays_Some)

lemma frame_meet_each_reset [stays_intro]: "J s \<Longrightarrow> stays J (meet_each_reset E pw ips nodes rs s)"
  by (induction rs arbitrary: s) (auto intro!: stays_intro)

lemma frame_remediatePrimaryDeficit [stays_intro]:
  assumes s: "J s"
  shows "stays J (meetResetReplicas E rs nodes pw s)"
    "stays J (remediatePrimaryDeficit E ids rs nodes pw dp dr s)"
  unfolding meetResetReplicas_def remediatePrimaryDeficit_def by (intro stays_intro; simp add: s)+

lemma frame_remediateReplicaSpread [stays_intro]:
  assumes s: "J s"
  shows "stays J (remediateReplicaSpread E cns nodes pw dp dr s)"
  unfolding remediateReplicaSpread_def by (intro stays_intro; simp add: s)+

lemma frame_first_view [stays_intro]: "J s \<Longrightarrow> stays J (first_view E pw ns s)"
proof (induction ns arbitrary: s)
  case (Cons n ns)
  show ?case unfolding first_view.simps Let_def by (intro stays_intro Cons.IH; simp add: Cons.prems)
qed (simp add: stays_Some)

lemma frame_RemediateReplicaTopology [stays_intro]:
  assumes s: "J s"
  shows "stays J (RemediateReplicaTopology E nodes pw dp dr s)"
  unfolding RemediateReplicaTopology_def by (intro stays_intro; simp add: s)+

lemma frame_disputed_fixes [stays_intro]: "J s \<Longrightarrow> stays J (disputed_fixes E views slots s)"
proof (induction slots arbitrary: s)
  case (Cons x slots)
  show ?case unfolding disputed_fixes.simps Let_def by (intro stays_intro Cons.IH; simp add: Cons.prems)
qed (simp add: stays_Some)

lemma frame_query_views [stays_intro]: "J s \<Longrightarrow> stays J (query_views E pw ns s)"
  by (induction ns arbitrary: s) (auto intro!: stays_intro)

lemma frame_resolveConfigDisagreement [stays_intro]:
  assumes s: "J s"
  shows "stays J (resolveConfigDisagreement E nodes pw s)"
  unfolding resolveConfigDisagreement_def by (intro stays_intro; simp add: s)+

lemma frame_fix_first [stays_intro]: "J s \<Longrightarrow> stays J (fix_first E pw ns le s)"
  by (induction ns arbitrary: le s) (auto intro!: stays_intro)

lemma frame_remediateClusterCheck [stays_intro]:
  assumes s: "J s"
  shows "stays J (remediateClusterCheck E nodes pw s)"
    "stays J (remediateBalance E nodes pw s)"
  unfolding remediateClusterCheck_def remediateBalance_def by (intro stays_intro; simp add: s)+

lemma frame_remediate_rest [stays_intro]:
  assumes s: "J s"
  shows "stays J (remediate_rest E rep nodes pw s)"
  unfolding remediate_rest_def by (intro stays_intro; simp add: s)+

lemmas frame_Check [stays_intro] = keeps_Check [rotated -1, OF extends_refl, THEN of_keeps, unfolded silent_event_def destructive_def, simplified]

lemma frame_hr [stays_intro]:
  assumes s: "J s"
  shows "stays J (hr_Reconcile E nodes pw dp dr s)"
    "stays J (hr_Check E nodes pw dp dr s)"
  unfolding hr_Reconcile_def hr_Check_def by (intro stays_intro; simp add: s)+

text \<open>Topology, forming a cluster, passwords\<close>

lemma frame_topology [stays_intro]:
  assumes s: "J s"
  shows "stays J (healTopology E mm s)"
    "stays J (ensureReplicaTopology E s)"
  unfolding healTopology_def ensureReplicaTopology_def by (intro stays_intro; simp add: s)+

lemma frame_form_phases [stays_intro]:
  assumes s: "J s"
  shows "stays J (form_assign E nodes s)"
    "stays J (form_replicas E nodes s)"
    "stays J (form_verify E nodes s)"
  unfolding form_assign_def form_replicas_def form_verify_def by (intro stays_intro; simp add: s)+

lemma frame_formCluster [stays_intro]:
  assumes s: "J s"
  shows "stays J (formCluster E nodes s)"
  unfolding formCluster_def by (intro stays_intro; simp add: s)+

lemma frame_config_set_each [stays_intro]: "J s \<Longrightarrow> stays J (config_set_each E old new addrs s)"
  by (induction addrs arbitrary: s) (auto intro!: stays_intro)

lemma frame_applyAuthCredentials [stays_intro]:
  assumes s: "J s"
  shows "stays J (applyAuthCredentials E old new s)"
  unfolding applyAuthCredentials_def by (intro stays_intro; simp add: s)+

lemma frame_auth [stays_intro]:
  assumes s: "J s"
  shows "stays J (applyAuthToAllNodes E prev s)"
    "stays J (reconcileAuthRotation E pw s)"
  unfolding applyAuthToAllNodes_def reconcileAuthRotation_def by (intro stays_intro; simp add: s)+

text \<open>Scaling\<close>

lemma frame_initAllNodes [stays_intro]:
  assumes s: "J s"
  shows "stays J (initAllNodes E pw s)"
    "stays J (slotsStable E n s)"
    "stays J (runClusterFix E n pw s)"
    "stays J (runRebalanceOnce E n ws s)"
  unfolding initAllNodes_def slotsStable_def runClusterFix_def runRebalanceOnce_def by (intro stays_intro; simp add: s)+

lemma frame_probe_open [stays_intro]: "J s \<Longrightarrow> stays J (probe_open E pw ns s)"
  by (induction ns arbitrary: s) (auto intro!: stays_intro)

lemma frame_probe_reachable [stays_intro]: "J s \<Longrightarrow> stays J (probe_reachable E pw ns s)"
  by (induction ns arbitrary: s) (auto intro!: stays_intro)

lemma frame_probes [stays_intro]:
  assumes s: "J s"
  shows "stays J (anyMasterHasOpenSlots E cns pw s)"
    "stays J (mastersReachable E n pw s)"
  unfolding anyMasterHasOpenSlots_def mastersReachable_def by (intro stays_intro; simp add: s)+

lemma frame_recoverOpenSlots [stays_intro]:
  assumes s: "J s"
  shows "stays J (recoverOpenSlots E n pw s)"
  unfolding recoverOpenSlots_def by (intro stays_intro; simp add: s)+

lemma frame_rebalance_loop [stays_intro]: "J s \<Longrightarrow> stays J (rebalance_loop E seed ws mm pw b left le s)"
proof (induction left arbitrary: le s)
  case (Suc left)
  show ?case unfolding rebalance_loop.simps Let_def by (intro stays_intro Suc.IH; simp add: Suc.prems)
qed (simp add: stays_Some)

lemma frame_rebalanceWithRetry [stays_intro]:
  assumes s: "J s"
  shows "stays J (rebalanceWithRetry E seed ws mm s)"
  unfolding rebalanceWithRetry_def by (intro stays_intro; simp add: s)+

lemma frame_forget_on [stays_intro]: "J s \<Longrightarrow> stays J (forget_on E i ns s)"
  by (induction ns arbitrary: s) (auto intro!: stays_intro)

lemma frame_classify [stays_intro]: "J s \<Longrightarrow> stays J (classify E ids ns s)"
proof (induction ns arbitrary: s)
  case (Cons n ns)
  show ?case unfolding classify.simps Let_def by (intro stays_intro Cons.IH; simp add: Cons.prems)
qed (simp add: stays_Some)

lemma frame_join_group [stays_intro]:
  assumes s: "J s"
  shows "stays J (join_group E ms gs s)"
  unfolding join_group_def by (intro stays_intro; simp add: s)+

text \<open>Upgrades; a step is silent when its continuation is\<close>

lemma frame_getPodAddr [stays_intro]:
  assumes s: "J s"
  shows "stays J (getPodAddr E i s)"
    "stays J (pause E d s)"
  unfolding getPodAddr_def pause_def by (intro stays_intro; simp add: s)+

lemma frame_forget_from_pods [stays_intro]: "J s \<Longrightarrow> stays J (forget_from_pods E addrs i pw ns s)"
proof (induction ns arbitrary: s)
  case (Cons n ns)
  show ?case unfolding forget_from_pods.simps Let_def by (intro stays_intro Cons.IH; simp add: Cons.prems)
qed (simp add: stays_Some)

lemma frame_forgetNodeFromAll [stays_intro]:
  assumes s: "J s"
  shows "stays J (forgetNodeFromAll E i pw n s)"
  unfolding forgetNodeFromAll_def by (intro stays_intro; simp add: s)+

lemma frame_sync_loop [stays_intro]: "J s \<Longrightarrow> stays J (sync_loop E c left s)"
proof (induction left arbitrary: s)
  case (Suc left)
  show ?case unfolding sync_loop.simps Let_def by (intro stays_intro Suc.IH; simp add: Suc.prems)
qed (simp add: stays_Some)

lemma frame_flush [stays_intro]:
  assumes s: "J s"
  shows "stays J (waitReplicaSynced E a pw s)"
    "stays J (flushAndPersistNode E a pw s)"
  unfolding waitReplicaSynced_def flushAndPersistNode_def by (intro stays_intro; simp add: s)+

lemma frame_forget_replicas [stays_intro]: "J s \<Longrightarrow> stays J (forget_replicas E i pw n cns s)"
proof (induction cns arbitrary: s)
  case (Cons c cns)
  show ?case unfolding forget_replicas.simps Let_def by (intro stays_intro Cons.IH; simp add: Cons.prems)
qed (simp add: stays_Some)

lemma frame_forget_extras [stays_intro]: "J s \<Longrightarrow> stays J (forget_extras E i pw n cns s)"
proof (induction cns arbitrary: s)
  case (Cons c cns)
  show ?case unfolding forget_extras.simps Let_def by (intro stays_intro Cons.IH; simp add: Cons.prems)
qed (simp add: stays_Some)

lemma frame_forget_failed [stays_intro]: "J s \<Longrightarrow> stays J (forget_failed E pw n cns s)"
proof (induction cns arbitrary: s)
  case (Cons c cns)
  show ?case unfolding forget_failed.simps Let_def by (intro stays_intro Cons.IH; simp add: Cons.prems)
qed (simp add: stays_Some)

lemma frame_forgetting [stays_intro]:
  assumes s: "J s"
  shows "stays J (forgetReplicasOfNode E i pw s)"
    "stays J (forgetExtraReplicas E pw s)"
    "stays J (forgetFailedNodes E c pw s)"
  unfolding forgetReplicasOfNode_def forgetExtraReplicas_def forgetFailedNodes_def by (intro stays_intro; simp add: s)+

lemma frame_attach_replica [stays_intro]:
  assumes "\<And>s. J s \<Longrightarrow> stays J (k s)" and s: "J s"
  shows "stays J (attach_replica E c i a pw m r k s)"
  unfolding attach_replica_def by (intro stays_intro assms(1); simp add: s)

lemma frame_each_ordinal [stays_intro]:
  assumes "\<And>i s. J s \<Longrightarrow> stays J (f i s)"
  shows "J s \<Longrightarrow> stays J (each_ordinal f is s)"
proof (induction "is" arbitrary: s)
  case (Cons i "is")
  show ?case unfolding each_ordinal.simps by (intro stays_intro Cons.IH assms; simp add: Cons.prems)
qed (simp add: stays_Some)

lemma frame_reattach [stays_intro]:
  assumes s: "J s"
  shows "stays J (reattach_pivot_replica E c i pw n s)"
    "stays J (rebalance_replica E p c i pw n s)"
    "stays J (delete_outdated E n pw s)"
  unfolding reattach_pivot_replica_def rebalance_replica_def delete_outdated_def by (intro stays_intro; simp add: s)+

lemma frame_rebalance_primary [stays_intro]:
  assumes s: "J s"
  shows "stays J (rebalance_primary E pw p s)"
  unfolding rebalance_primary_def by (intro stays_intro; simp add: s)+

lemma frame_upgrade_replicas [stays_intro]:
  assumes s: "J s"
  shows "stays J (ensurePivotReplica E pw s)"
    "stays J (rebalanceReplicas E pw s)"
    "stays J (replicate_extra E ns p r s)"
  unfolding ensurePivotReplica_def rebalanceReplicas_def replicate_extra_def by (intro stays_intro; simp add: s)+

lemma frame_attach_extras [stays_intro]:
  assumes s: "J s"
  shows "stays J (attach_extras E ns s)"
    "stays J (forget_dead E n pw s)"
  unfolding attach_extras_def forget_dead_def by (intro stays_intro; simp add: s)+

lemma frame_needs_reset [stays_intro]: "J s \<Longrightarrow> stays J (needs_reset E ns s)"
proof (induction ns arbitrary: s)
  case (Cons n ns)
  show ?case unfolding needs_reset.simps Let_def by (intro stays_intro Cons.IH; simp add: Cons.prems)
qed (simp add: stays_Some)

lemma frame_hard_reset_each [stays_intro]: "J s \<Longrightarrow> stays J (hard_reset_each E ns s)"
  by (induction ns arbitrary: s) (auto intro!: stays_intro)

lemma frame_fast_attach [stays_intro]:
  assumes s: "J s"
  shows "stays J (fast_attach E ns ps s)"
  unfolding fast_attach_def by (intro stays_intro; simp add: s)+

lemma frame_standaloneNodeReachable [stays_intro]:
  "J s \<Longrightarrow> stays J (standaloneNodeReachable E pw s)"
  unfolding standaloneNodeReachable_def by (intro stays_intro; simp)

end

section \<open>Operations that destroy something\<close>

locale deleting = silent +
  assumes J_delete: "J s \<Longrightarrow> J (log (Write (DeletePodObj n) r) s)"
begin

lemma frame_delete_pods: "J s \<Longrightarrow> stays J (delete_each E DeletePodObj c ns s)"
  by (induction ns arbitrary: s) (auto simp: k8s_write_def Let_def J_delete intro!: stays_intro)

lemma frame_deletions [stays_intro]:
  assumes s: "J s"
  shows "stays J (DeletePod E n s)" "stays J (DeleteAllPods E s)"
proof -
  show "stays J (DeletePod E n s)" by (simp add: DeletePod_def k8s_write_def Let_def J_delete s stays_Some)
  show "stays J (DeleteAllPods E s)" unfolding DeleteAllPods_def by (intro stays_intro frame_delete_pods; simp add: s)
qed

lemma frame_recycle_replica [stays_intro]:
  assumes s: "J s"
  shows "stays J (recycle_replica E p c i desired pw n s)"
    "stays J (recycleStandalonePod E s)"
  unfolding recycle_replica_def recycleStandalonePod_def by (intro stays_intro; simp add: s)+

lemma frame_recycleReplicas [stays_intro]:
  assumes s: "J s"
  shows "stays J (recycleReplicasForPrimary E p pw s)"
  unfolding recycleReplicasForPrimary_def by (intro stays_intro; simp add: s)+

end

locale removing = silent +
  assumes J_shutdown: "J s \<Longrightarrow> J (log (Command a pw ShutdownSave r) s)"
begin

lemma frame_shutdown [stays_intro]: "J s \<Longrightarrow> stays J (ClientShutdownSave E c s)"
  by (simp add: ClientShutdownSave_def redis_do_def Let_def stays_Some J_shutdown)

lemma frame_remove_each [stays_intro]: "J s \<Longrightarrow> stays J (remove_each E keep ns s)"
  by (induction ns arbitrary: s) (auto intro!: stays_intro)

lemma frame_removeNodes [stays_intro]:
  assumes s: "J s"
  shows "stays J (removeNodes E keep remove s)"
  unfolding removeNodes_def by (intro stays_intro; simp add: s)+

end

locale erasing = silent +
  assumes J_erase: "J s \<Longrightarrow> J (log (Write DeleteStatefulSetObj r) s)"
begin

lemma frame_DeleteStatefulSet [stays_intro]: "J s \<Longrightarrow> stays J (DeleteStatefulSet E s)"
  by (simp add: DeleteStatefulSet_def k8s_write_def Let_def stays_Some J_erase)

end

locale purging = silent +
  assumes J_purge: "J s \<Longrightarrow> J (log (Write (DeletePVC n) r) s)"
begin

lemma frame_delete_volumes: "J s \<Longrightarrow> stays J (delete_each E DeletePVC c ns s)"
  by (induction ns arbitrary: s) (auto simp: k8s_write_def Let_def J_purge intro!: stays_intro)

lemma frame_DeletePVCs [stays_intro]: "J s \<Longrightarrow> stays J (DeletePVCs E s)"
  unfolding DeletePVCs_def by (intro stays_intro frame_delete_volumes; simp)

end

text \<open>Invariants that tolerate all of it.\<close>

locale silent_deleting =
  fixes J :: "st \<Rightarrow> bool"
  assumes still_quiet: "J s \<Longrightarrow> still quiet s s' \<Longrightarrow> J s'"
begin

lemma J_quiet: "J s \<Longrightarrow> \<not> status_write e \<Longrightarrow> J (log e s)"
  by (rule still_quiet [of s]) (simp_all add: quiet_def)

end

sublocale silent_deleting \<subseteq> silent
  using still_quiet still_mono by unfold_locales (metis quiet_def silent_event_def)

sublocale silent_deleting \<subseteq> deleting
  by unfold_locales (simp add: J_quiet)

sublocale silent_deleting \<subseteq> removing
  by unfold_locales (simp add: J_quiet)

sublocale silent_deleting \<subseteq> erasing
  by unfold_locales (simp add: J_quiet)

sublocale silent_deleting \<subseteq> purging
  by unfold_locales (simp add: J_quiet)

end
