(* ===== verification/Pass_Frames.thy ===== *)
theory Pass_Frames
  imports Frames
begin

text \<open>
  Frames of the operations that record something short of a change of status - a substatus, the phase, the
  conditions - for the invariants that tolerate it: the locale \<open>observing\<close>. \<open>recording\<close> tolerates any write of the
  status, and so frames the endings of a scaling or an upgrade as well.
\<close>

section \<open>Steps whose result matters\<close>

lemma stays_get_result:
  "stays I (m s) \<Longrightarrow> (\<And>x s1. m s = Some (Inr x, s1) \<Longrightarrow> stays I (k x s1)) \<Longrightarrow> stays I (get_or_fail c m k s)"
  "stays I (m s) \<Longrightarrow> (\<And>x s1. m s = Some (Inr x, s1) \<Longrightarrow> stays I (k x s1)) \<Longrightarrow> stays I (get_or_retry m k s)"
  "stays I (m s) \<Longrightarrow> (\<And>x s1. m s = Some (Inr x, s1) \<Longrightarrow> stays I (k' x s1)) \<Longrightarrow> stays I (get_or_err c m k' s)"
  unfolding get_or_fail_def get_or_retry_def get_or_err_def ends_def
  by (cases "m s"; auto simp: stays_def split: sum.splits)+

lemma stays_or_result:
  "stays I (m s) \<Longrightarrow> (\<And>s1. m s = Some (None, s1) \<Longrightarrow> stays I (k s1)) \<Longrightarrow> stays I (or_fail c m k s)"
  "stays I (m s) \<Longrightarrow> (\<And>s1. m s = Some (None, s1) \<Longrightarrow> stays I (k s1)) \<Longrightarrow> stays I (or_retry m k s)"
  "stays I (m s) \<Longrightarrow> (\<And>s1. m s = Some (None, s1) \<Longrightarrow> stays I (k' s1)) \<Longrightarrow> stays I (or_wrap c m k' s)"
  unfolding or_fail_def or_retry_def or_wrap_def ends_def
  by (cases "m s"; clarsimp simp: stays_def; case_tac "fst (the (m s))"; simp)+

section \<open>Passes that leave the status\<close>

locale observing = silent +
  assumes J_observe: "J s \<Longrightarrow> rc_Spec c = spec_of s \<Longrightarrow> status_of c = status_of (cfg s) \<Longrightarrow> J (s\<lparr>cfg := c\<rparr>)"
    and J_write: "J s \<Longrightarrow> J (log (StatusWrite (cfg s) w) s)"
begin

lemma J_set: "J s \<Longrightarrow> cs_Status (f (rc_Status (cfg s))) = status_of (cfg s) \<Longrightarrow> J (set_status f s)"
  unfolding set_status_def by (rule J_observe) simp_all

lemma frame_status_update [stays_intro]: "J s \<Longrightarrow> stays J (status_update E s)"
  by (simp add: status_update_def update_status_def Let_def stays_Some J_write)

lemma frame_observations [stays_intro]:
  assumes s: "J s"
  shows "stays J (updateSubstatus E x s)" "stays J (setConfigPhaseApplied E s)" "stays J (updateNodeStatus E nodes s)"
  unfolding updateSubstatus_def setConfigPhaseApplied_def updateNodeStatus_def
  by (intro stays_intro J_set s; simp)+

lemma frame_applyHealthStatus [stays_intro]:
  assumes s: "J s"
  shows "stays J (applyHealthStatus E rep s)"
proof -
  have h: "J (s\<lparr>cfg := health_conditions E rep (cfg s)\<rparr>)"
    by (rule J_observe [OF s]) (simp_all add: health_conditions_def setHealthCondition_def)
  show ?thesis unfolding applyHealthStatus_def by (intro stays_intro J_set h; simp)
qed

lemma frame_refreshHealthConditions [stays_intro]:
  assumes s: "J s"
  shows "stays J (refreshHealthConditions E pw s)"
  unfolding refreshHealthConditions_def SetEphemeral_def by (intro stays_intro J_fields; simp add: s)

text \<open>Rolling upgrade\<close>

lemma frame_when_replicated:
  assumes "J s" and "\<And>s. J s \<Longrightarrow> stays J (m s)" and "\<And>s. J s \<Longrightarrow> stays J (k s)"
  shows "stays J (when_replicated m k s)"
  unfolding when_replicated_def by (intro stays_intro assms; assumption)

lemma frame_heal_first:
  assumes "J s" and "\<And>s. J s \<Longrightarrow> stays J (k s)"
  shows "stays J (heal_first E k s)"
  unfolding heal_first_def by (intro stays_intro assms; assumption)

lemma frame_update_objects:
  assumes "J s" and "\<And>s. J s \<Longrightarrow> stays J (k s)"
  shows "stays J (update_objects E kind k owner s)"
  unfolding update_objects_def by (intro stays_intro assms; assumption)

lemma frame_small_steps [stays_intro]:
  assumes s: "J s"
  shows "stays J (scaled_up E s)" "stays J (start_recycling E s)" "stays J (advance E p s)"
    "stays J (release_extra E i pw s)"
  unfolding scaled_up_def start_recycling_def advance_def release_extra_def
  by (intro stays_intro J_set frame_when_replicated s; (assumption | simp))+

lemma frame_passes [stays_intro]:
  assumes s: "J s"
  shows "stays J (handleUpgradeStart E s)" "stays J (handleUpgradeScalingUp E s)"
    "stays J (check_and_advance E p c s)" "stays J (move_slots E c i d n p pw s)" "stays J (return_slots E c i n pw s)"
  unfolding handleUpgradeStart_def handleUpgradeScalingUp_def check_and_advance_def move_slots_def return_slots_def Let_def
  by (intro stays_intro frame_when_replicated frame_heal_first frame_update_objects s; assumption)+

lemma frame_reshard_partition [stays_intro]:
  assumes s: "J s"
  shows "stays J (reshard_partition E p d pw s)"
  unfolding reshard_partition_def by (intro stays_intro s; assumption)

lemma frame_later_passes [stays_intro]:
  assumes s: "J s"
  shows "stays J (handleUpgradeResharding E s)" "stays J (handleUpgradeEnding E s)"
  unfolding handleUpgradeResharding_def handleUpgradeEnding_def Let_def
  by (intro stays_intro frame_when_replicated frame_heal_first s; assumption)+

text \<open>Fast upgrade, short of its end\<close>

lemma frame_fast_upgrade [stays_intro]:
  assumes s: "J s"
  shows "stays J (handleFastUpgradeWaitReady E s)" "stays J (fast_join E nodes s)"
  unfolding handleFastUpgradeWaitReady_def fast_join_def by (intro stays_intro s; assumption)+

text \<open>Scaling, short of its end\<close>

lemma frame_recreate [stays_intro]:
  assumes s: "J s"
  shows "stays J (recreate_objects E s)"
  unfolding recreate_objects_def by (intro stays_intro s; assumption)

lemma frame_drain_phase [stays_intro]:
  assumes s: "J s"
  shows "stays J (drain_phase E keepP drainP s)"
  unfolding drain_phase_def by (intro stays_intro s; assumption)

end

text \<open>The passes that delete pods or shut servers down\<close>

locale observing_deleting = deleting + observing
begin

lemma frame_delete_drained [stays_intro]:
  assumes s: "J s"
  shows "stays J (delete_drained E p s)" "stays J (handleFastUpgradeStart E s)"
  unfolding delete_drained_def flush_drained_def handleFastUpgradeStart_def
  by (intro stays_intro frame_update_objects s; assumption)+

lemma frame_rejoin_recycled [stays_intro]:
  assumes s: "J s"
  shows "stays J (rejoin_recycled E p pw n s)"
  unfolding rejoin_recycled_def by (intro stays_intro frame_when_replicated s; assumption)

lemma frame_readmit_pod [stays_intro]:
  assumes s: "J s"
  shows "stays J (readmit_pod E p s)"
  unfolding readmit_pod_def Let_def by (intro stays_intro s; assumption)

lemma frame_handleUpgradeRollingUpdate [stays_intro]:
  assumes s: "J s"
  shows "stays J (handleUpgradeRollingUpdate E s)"
  unfolding handleUpgradeRollingUpdate_def Let_def by (intro stays_intro frame_heal_first s; assumption)

end

locale observing_all = silent_deleting + observing

sublocale observing_all \<subseteq> observing_deleting ..

section \<open>Invariants of a whole pass\<close>

definition harmless :: "event \<Rightarrow> bool" where
  "harmless e = (\<not> destructive e)"

definition passes :: "st \<Rightarrow> st \<Rightarrow> bool" where
  "passes s0 s = (grows harmless s0 s \<and> spec_of s = spec_of s0)"

lemma passes_of_still: "still silent_event s s' \<Longrightarrow> passes s s'"
  unfolding passes_def still_def using grows_mono [of silent_event s s' harmless]
  by (auto simp: silent_event_def harmless_def)

locale recording =
  fixes J :: "st \<Rightarrow> bool"
  assumes passes: "J s \<Longrightarrow> passes s s' \<Longrightarrow> J s'"

sublocale recording \<subseteq> observing
proof
  show "J s'" if "J s" "still silent_event s s'" for s s' using that passes passes_of_still by blast
  show "J (s\<lparr>cfg := c\<rparr>)" if "J s" "rc_Spec c = spec_of s" for s c
    by (rule passes [OF that(1)]) (simp add: passes_def that)
  show "J (log (StatusWrite (cfg s) w) s)" if "J s" for s w
    by (rule passes [OF that]) (simp add: passes_def harmless_def)
qed

context recording begin

lemma J_status: "J s \<Longrightarrow> J (log (StatusWrite c w) s)" "J s \<Longrightarrow> J (set_status f s)"
  by (rule passes [of s]; simp add: passes_def harmless_def set_status_def)+

lemma frame_updateClusterStatus [stays_intro]:
  assumes s: "J s"
  shows "stays J (updateClusterStatus E st s)"
  unfolding updateClusterStatus_def by (intro stays_intro J_status s; assumption)

lemma frame_finish_upgrade [stays_intro]:
  assumes s: "J s"
  shows "stays J (finish_upgrade E kind s)"
  unfolding finish_upgrade_def by (intro stays_intro J_status s; assumption)

lemma frame_final_passes [stays_intro]:
  assumes s: "J s"
  shows "stays J (final_checks E s)"
  unfolding final_checks_def by (intro stays_intro frame_when_replicated s; assumption)

lemma frame_handleUpgradeScalingDown [stays_intro]:
  assumes s: "J s"
  shows "stays J (handleUpgradeScalingDown E s)"
  unfolding handleUpgradeScalingDown_def by (intro stays_intro frame_heal_first s; assumption)

lemma frame_finishScaling [stays_intro]:
  assumes s: "J s"
  shows "stays J (finishScaling E nodes s)"
  unfolding finishScaling_def by (intro stays_intro J_status s; assumption)

lemma frame_scale_down [stays_intro]:
  assumes s: "J s"
  shows "stays J (fast_form E s)" "stays J (scale_down_verify E nodes s)" "stays J (scale_down_finish E nodes s)"
  unfolding fast_form_def scale_down_verify_def scale_down_finish_def by (intro stays_intro s; assumption)+

lemma frame_scale_down_end [stays_intro]:
  assumes s: "J s"
  shows "stays J (scale_down_reattach E keepP keepR s)"
  unfolding scale_down_reattach_def by (intro stays_intro s; assumption)+

end

locale recording_erasing = recording + erasing
begin

lemma frame_handleFastScaling [stays_intro]:
  assumes s: "J s"
  shows "stays J (handleFastScaling E s)"
  unfolding handleFastScaling_def by (intro stays_intro s; assumption)

end

end
