(* ===== verification/Lifecycle_Machine.thy ===== *)
theory Lifecycle_Machine
  imports Frames Reconcile_Loop
begin

text \<open>
  The lifecycle of a configuration as a state machine on the pair of its status and its phase, and the
  proof that one cycle of the loop moves along it: in memory, and in everything it writes to the API
  server, so that the recorded state is on the machine's path whichever writes fail and wherever the
  process dies.
\<close>

section \<open>Stages of a pass\<close>

text \<open>\<open>stage f V s0 v s\<close>: since \<open>s0\<close> only statuses whose view \<open>f\<close> lies in \<open>V\<close> were written, the
  specification and the settings are as they were, and the view of the configuration in memory is \<open>v\<close>.\<close>

definition recorded :: "(redkey_config \<Rightarrow> 'v) \<Rightarrow> 'v set \<Rightarrow> config_spec \<Rightarrow> event \<Rightarrow> bool" where
  "recorded f V sp e = (\<forall>c r. e = StatusWrite c r \<longrightarrow> f c \<in> V \<and> rc_Spec c = sp)"

definition stage :: "(redkey_config \<Rightarrow> 'v) \<Rightarrow> 'v set \<Rightarrow> st \<Rightarrow> 'v \<Rightarrow> st \<Rightarrow> bool" where
  "stage f V s0 v s =
     (grows (recorded f V (spec_of s0)) s0 s \<and> f (cfg s) = v \<and> v \<in> V \<and> spec_of s = spec_of s0
       \<and> settings (run s) = settings (run s0))"

definition reached :: "(redkey_config \<Rightarrow> 'v) \<Rightarrow> 'v set \<Rightarrow> st \<Rightarrow> st \<Rightarrow> bool" where
  "reached f V s0 s = (\<exists>v. stage f V s0 v s)"

lemma reachedI: "stage f V s0 v s \<Longrightarrow> reached f V s0 s"
  by (auto simp: reached_def)

lemma stage_start: "f (cfg s) \<in> V \<Longrightarrow> stage f V s (f (cfg s)) s"
  by (simp add: stage_def)

lemma recorded_quiet: "quiet e \<Longrightarrow> recorded f V sp e"
  by (auto simp: recorded_def quiet_def)

interpretation stage: silent_deleting "stage f V s0 v" for f V s0 v
proof unfold_locales
  fix s s' assume "stage f V s0 v s" and "still quiet s s'"
  then show "stage f V s0 v s'"
    unfolding stage_def still_def using grows_trans grows_mono recorded_quiet by metis
qed

interpretation reached: silent_deleting "reached f V s0" for f V s0
  by unfold_locales (metis reached_def stage.still_quiet)

text \<open>Every status update writes the view in memory.\<close>

lemma stage_status_update [stays_intro]:
  "stage f V s0 v s \<Longrightarrow> stays (stage f V s0 v) (status_update E s)"
  by (simp add: stage_def recorded_def status_update_def update_status_def Let_def stays_def)

section \<open>Status and phase\<close>

definition coarse :: "redkey_config \<Rightarrow> cluster_status \<times> config_phase" where
  "coarse c = (status_of c, phase_of c)"

lemma coarse_health [simp]: "coarse (health_conditions E rep c) = coarse c" "rc_Spec (health_conditions E rep c) = rc_Spec c"
  by (simp_all add: coarse_def health_conditions_def setHealthCondition_def)

lemma stage_set_status:
  "stage coarse V s0 (a, ph) s \<Longrightarrow> (cs_Status (f (rc_Status (cfg s))), cs_ConfigPhase (f (rc_Status (cfg s)))) = v \<Longrightarrow> v \<in> V
   \<Longrightarrow> stage coarse V s0 v (set_status f s)"
  by (simp add: stage_def coarse_def set_status_def)

lemma stage_same_status:
  "stage coarse V s0 v s \<Longrightarrow> cs_Status (f (rc_Status (cfg s))) = status_of (cfg s)
   \<Longrightarrow> cs_ConfigPhase (f (rc_Status (cfg s))) = phase_of (cfg s) \<Longrightarrow> stage coarse V s0 v (set_status f s)"
  by (simp add: stage_def coarse_def set_status_def)

lemma stage_observations [stays_intro]:
  assumes s: "stage coarse V s0 v s"
  shows "stays (stage coarse V s0 v) (updateSubstatus E sub s)" "stays (stage coarse V s0 v) (updateNodeStatus E ns s)"
    "stays (stage coarse V s0 v) (applyHealthStatus E rep s)" "stays (stage coarse V s0 v) (updateStandaloneNodeStatus E a s)"
  unfolding updateSubstatus_def updateNodeStatus_def applyHealthStatus_def updateStandaloneNodeStatus_def write_status_def
  using s by (auto intro!: stays_intro stage_same_status simp: stage_def)

lemma stage_refreshHealthConditions [stays_intro]:
  assumes s: "stage coarse V s0 v s"
  shows "stays (stage coarse V s0 v) (refreshHealthConditions E pw s)"
  unfolding refreshHealthConditions_def SetEphemeral_def by (intro stays_intro; simp add: s)

lemma stage_updateClusterStatus:
  "stage coarse V s0 (a, ph) s \<Longrightarrow> (st, ph) \<in> V \<Longrightarrow> stays (stage coarse V s0 (st, ph)) (updateClusterStatus E st s)"
  unfolding updateClusterStatus_def
  by (intro stays_intro stage_set_status) (auto simp: stage_def coarse_def)

lemma stage_setConfigPhaseApplied:
  "stage coarse V s0 (a, ph) s \<Longrightarrow> (a, Applied) \<in> V \<Longrightarrow> stays (stage coarse V s0 (a, Applied)) (setConfigPhaseApplied E s)"
  unfolding setConfigPhaseApplied_def
  by (intro stays_intro stage_set_status) (auto simp: stage_def coarse_def)

lemma stage_write_status:
  "stage coarse V s0 (a, ph) s
   \<Longrightarrow> (\<And>x. cs_Status x = a \<Longrightarrow> cs_ConfigPhase x = ph \<Longrightarrow> (cs_Status (f x), cs_ConfigPhase (f x)) = v)
   \<Longrightarrow> v \<in> V \<Longrightarrow> stays (stage coarse V s0 v) (write_status E f s)"
  unfolding write_status_def
  by (intro stays_intro stage_set_status) (auto simp: stage_def coarse_def)

section \<open>Handlers\<close>

text \<open>A step that records nothing new is followed by the rest at the same stage (\<open>stage_then\<close>); a step that
  changes status or phase moves to another stage (\<open>stage_moves\<close>).\<close>

lemma stage_step:
  "stays (stage f V s0 v) (m s) \<Longrightarrow> (\<And>s. stage f V s0 v s \<Longrightarrow> stays (reached f V s0) (k s))
   \<Longrightarrow> stays (reached f V s0) (or_fail c m k s)"
  "stays (stage f V s0 v) (m' s) \<Longrightarrow> (\<And>x s. stage f V s0 v s \<Longrightarrow> stays (reached f V s0) (k' x s))
   \<Longrightarrow> stays (reached f V s0) (get_or_fail c m' k' s)"
  "stays (stage f V s0 v) (m s) \<Longrightarrow> (\<And>s. stage f V s0 v s \<Longrightarrow> stays (reached f V s0) (k s))
   \<Longrightarrow> stays (reached f V s0) (or_retry m k s)"
  "stays (stage f V s0 v) (m' s) \<Longrightarrow> (\<And>x s. stage f V s0 v s \<Longrightarrow> stays (reached f V s0) (k' x s))
   \<Longrightarrow> stays (reached f V s0) (get_or_retry m' k' s)"
  "stays (stage f V s0 v) (m'' s) \<Longrightarrow> (\<And>s. stage f V s0 v s \<Longrightarrow> stays (reached f V s0) (k s))
   \<Longrightarrow> stays (reached f V s0) (andthen m'' k s)"
  by (rule stays_step [where I = "stage f V s0 v"]; (assumption | erule reachedI | blast))+

lemma stage_then:
  "stage f V s0 v s \<Longrightarrow> stays (reached f V s0) (ends sch s)"
  "stage f V s0 v s \<Longrightarrow> stays (reached f V s0) (Some (r, s))"
  "stage f V s0 v s \<Longrightarrow> stays (reached f V s0) None"
  "stage f V s0 v s \<Longrightarrow> (stage f V s0 v s \<Longrightarrow> stays (stage f V s0 v) (m s))
   \<Longrightarrow> (\<And>s. stage f V s0 v s \<Longrightarrow> stays (reached f V s0) (k s)) \<Longrightarrow> stays (reached f V s0) (or_fail c m k s)"
  "stage f V s0 v s \<Longrightarrow> (stage f V s0 v s \<Longrightarrow> stays (stage f V s0 v) (m' s))
   \<Longrightarrow> (\<And>x s. stage f V s0 v s \<Longrightarrow> stays (reached f V s0) (k' x s)) \<Longrightarrow> stays (reached f V s0) (get_or_fail c m' k' s)"
  "stage f V s0 v s \<Longrightarrow> (stage f V s0 v s \<Longrightarrow> stays (stage f V s0 v) (m s))
   \<Longrightarrow> (\<And>s. stage f V s0 v s \<Longrightarrow> stays (reached f V s0) (k s)) \<Longrightarrow> stays (reached f V s0) (or_retry m k s)"
  "stage f V s0 v s \<Longrightarrow> (stage f V s0 v s \<Longrightarrow> stays (stage f V s0 v) (m' s))
   \<Longrightarrow> (\<And>x s. stage f V s0 v s \<Longrightarrow> stays (reached f V s0) (k' x s)) \<Longrightarrow> stays (reached f V s0) (get_or_retry m' k' s)"
  "stage f V s0 v s \<Longrightarrow> (stage f V s0 v s \<Longrightarrow> stays (stage f V s0 v) (m'' s))
   \<Longrightarrow> (\<And>s. stage f V s0 v s \<Longrightarrow> stays (reached f V s0) (k s)) \<Longrightarrow> stays (reached f V s0) (andthen m'' k s)"
  "stage f V s0 v s \<Longrightarrow> (stage f V s0 v s \<Longrightarrow> stays (stage f V s0 v) (m3 s))
   \<Longrightarrow> (\<And>x s. stage f V s0 v s \<Longrightarrow> stays (reached f V s0) (k3 x s)) \<Longrightarrow> stays (reached f V s0) (m3 s \<bind> (\<lambda>(x, s). k3 x s))"
  "stage f V s0 v s \<Longrightarrow> (b \<Longrightarrow> stage f V s0 v s \<Longrightarrow> stays (reached f V s0) (n1 s))
   \<Longrightarrow> (\<not> b \<Longrightarrow> stage f V s0 v s \<Longrightarrow> stays (reached f V s0) (n2 s))
   \<Longrightarrow> stays (reached f V s0) (if b then n1 s else n2 s)"
  "stage f V s0 v s \<Longrightarrow> (b \<Longrightarrow> stage f V s0 v s \<Longrightarrow> stays (reached f V s0) (n1 s))
   \<Longrightarrow> (\<not> b \<Longrightarrow> stage f V s0 v s \<Longrightarrow> stays (reached f V s0) (n2 s))
   \<Longrightarrow> stays (reached f V s0) ((if b then n1 else n2) s)"
  by (auto simp: stays_None intro!: stays_ends stays_Some reachedI intro: stage_step stays_seq [where I = "stage f V s0 v"])

lemma stage_moves:
  "stage coarse V s0 (a, ph) s \<Longrightarrow> (st, ph) \<in> V
   \<Longrightarrow> (\<And>s. stage coarse V s0 (st, ph) s \<Longrightarrow> stays (reached coarse V s0) (k s))
   \<Longrightarrow> stays (reached coarse V s0) (or_fail c (updateClusterStatus E st) k s)"
  "stage coarse V s0 (a, ph) s \<Longrightarrow> (a, Applied) \<in> V
   \<Longrightarrow> (\<And>s. stage coarse V s0 (a, Applied) s \<Longrightarrow> stays (reached coarse V s0) (k s))
   \<Longrightarrow> stays (reached coarse V s0) (or_fail c (setConfigPhaseApplied E) k s)"
  by (rule stage_step(1), erule (1) stage_updateClusterStatus stage_setConfigPhaseApplied, assumption)+

lemma stage_moves_set:
  "stage coarse V s0 (a, ph) s \<Longrightarrow> (st, ph) \<in> V
   \<Longrightarrow> (\<And>x. cs_Status (f x) = cs_Status x \<and> cs_ConfigPhase (f x) = cs_ConfigPhase x)
   \<Longrightarrow> (\<And>s. stage coarse V s0 (st, ph) s \<Longrightarrow> stays (reached coarse V s0) (k s))
   \<Longrightarrow> stays (reached coarse V s0) (or_fail c (updateClusterStatus E st) k (set_status f s))"
  "stage coarse V s0 (a, ph) s \<Longrightarrow> (Ready, ph) \<in> V
   \<Longrightarrow> (\<And>x. cs_Status (f x) = Ready \<and> cs_ConfigPhase (f x) = cs_ConfigPhase x)
   \<Longrightarrow> (\<And>s. stage coarse V s0 (Ready, ph) s \<Longrightarrow> stays (reached coarse V s0) (k s))
   \<Longrightarrow> stays (reached coarse V s0)
        (or_fail c (\<lambda>s. do { (e, s) \<leftarrow> status_update E s; Some (map_option kerr_text e, s) }) k (set_status f s))"
  "stage coarse V s0 (a, ph) s \<Longrightarrow> (Ready, ph) \<in> V
   \<Longrightarrow> (\<And>x. cs_Status (f x) = Ready \<and> cs_ConfigPhase (f x) = cs_ConfigPhase x)
   \<Longrightarrow> (\<And>s. stage coarse V s0 (Ready, ph) s \<Longrightarrow> stays (reached coarse V s0) (k s))
   \<Longrightarrow> stays (reached coarse V s0) (or_fail c (write_status E f) k s)"
proof -
  assume s: "stage coarse V s0 (a, ph) s" and k: "\<And>s. stage coarse V s0 (st, ph) s \<Longrightarrow> stays (reached coarse V s0) (k s)"
    and V: "(st, ph) \<in> V" and f: "\<And>x. cs_Status (f x) = cs_Status x \<and> cs_ConfigPhase (f x) = cs_ConfigPhase x"
  show "stays (reached coarse V s0) (or_fail c (updateClusterStatus E st) k (set_status f s))"
    by (rule stage_moves(1) [OF stage_same_status [OF s] V k]) (simp_all add: f)
next
  assume s: "stage coarse V s0 (a, ph) s" and k: "\<And>s. stage coarse V s0 (Ready, ph) s \<Longrightarrow> stays (reached coarse V s0) (k s)"
    and V: "(Ready, ph) \<in> V" and f: "\<And>x. cs_Status (f x) = Ready \<and> cs_ConfigPhase (f x) = cs_ConfigPhase x"
  have "phase_of (cfg s) = ph" using s by (simp add: stage_def coarse_def)
  then have t: "stage coarse V s0 (Ready, ph) (set_status f s)"
    by (intro stage_set_status [OF s _ V]) (simp add: f)
  show "stays (reached coarse V s0)
      (or_fail c (\<lambda>s. do { (e, s) \<leftarrow> status_update E s; Some (map_option kerr_text e, s) }) k (set_status f s))"
    by (rule stage_step(1) [where v = "(Ready, ph)"]) (intro stays_intro t k; assumption)+
  show "stays (reached coarse V s0) (or_fail c (write_status E f) k s)"
    by (rule stage_step(1) [where v = "(Ready, ph)"], rule stage_write_status [OF s _ V]) (simp_all add: f k)
qed

text \<open>The endings of the pipelines: the cluster is reported ready, then the configuration applied.\<close>

definition ready_from :: "(cluster_status \<times> config_phase) set \<Rightarrow> config_phase \<Rightarrow> bool" where
  "ready_from V ph = ((Ready, ph) \<in> V \<and> (Ready, Applied) \<in> V)"

lemma reached_endings:
  assumes "ready_from V ph" and "stage coarse V s0 (a, ph) s"
  shows "stays (reached coarse V s0) (formed E pw nodes s)" "stays (reached coarse V s0) (standalone_finish E pw s)"
    "stays (reached coarse V s0) (finishScaling E nodes s)" "stays (reached coarse V s0) (finish_upgrade E kind s)"
    "stays (reached coarse V s0) (scale_zero_finish E s)"
  unfolding formed_def standalone_finish_def finishScaling_def finish_upgrade_def scale_zero_finish_def
  by (insert assms(2))
    (erule stage_moves_set | erule stage_moves | erule stage_then | (intro stays_intro; assumption)
      | rule stays_case_option | simp add: assms(1) [unfolded ready_from_def])+

text \<open>Scaling. Every step before the ending is silent or observes a substatus.\<close>

lemmas stage_cases = stays_case_option stays_case_sum stays_case_list stays_case_prod stays_let

lemma reached_fast_scaling:
  assumes "ready_from V ph" and "stage coarse V s0 (a, ph) s"
  shows "stays (reached coarse V s0) (fast_form E s)" "stays (reached coarse V s0) (recreate_objects E s)"
  unfolding fast_form_def recreate_objects_def
  by (insert assms(2))
    (erule stage_then | (intro stays_intro; assumption) | erule reached_endings [OF assms(1)] | rule stage_cases)+

lemma reached_handleFastScaling:
  assumes "ready_from V ph" and "stage coarse V s0 (a, ph) s"
  shows "stays (reached coarse V s0) (handleFastScaling E s)"
  unfolding handleFastScaling_def
  by (insert assms(2))
    (erule stage_then | (intro stays_intro; assumption) | erule reached_fast_scaling [OF assms(1)] | rule stage_cases)+

lemma reached_scale_up_verify:
  assumes "ready_from V ph" and "stage coarse V s0 (a, ph) s"
  shows "stays (reached coarse V s0) (scale_up_verify E nodes s)" "stays (reached coarse V s0) (scale_down_verify E nodes s)"
    "stays (reached coarse V s0) (scale_down_finish E nodes s)"
  unfolding scale_up_verify_def scale_down_verify_def scale_down_finish_def
  by (insert assms(2))
    (erule stage_then | (intro stays_intro; assumption) | erule reached_endings [OF assms(1)] | rule stage_cases)+

lemma reached_attach:
  assumes "ready_from V ph" and "stage coarse V s0 (a, ph) s"
  shows "stays (reached coarse V s0) (scale_up_attach E ids nodes ps rs fs s)"
    "stays (reached coarse V s0) (scale_down_reattach E ps rs s)"
  unfolding scale_up_attach_def scale_down_reattach_def Let_def
  by (insert assms(2))
    (erule stage_then | (intro stays_intro; assumption) | erule reached_scale_up_verify [OF assms(1)] | rule stage_cases)+

lemma reached_scale_up_slots:
  assumes k: "\<And>s. stage coarse V s0 v s \<Longrightarrow> stays (reached coarse V s0) (k s)" and "stage coarse V s0 v s"
  shows "stays (reached coarse V s0) (scale_up_slots E pw n b k s)"
  unfolding scale_up_slots_def
  by (insert assms(2)) (erule stage_then | (intro stays_intro; assumption) | erule k | rule stage_cases)+

lemma reached_scale_up_members:
  assumes "ready_from V ph" and "stage coarse V s0 (a, ph) s"
  shows "stays (reached coarse V s0) (scale_up_members E pw ids cs s)"
  unfolding scale_up_members_def Let_def
  by (insert assms(2))
    (erule stage_then | (intro stays_intro; assumption) | erule reached_scale_up_slots [rotated] | erule reached_attach [OF assms(1)] | rule stage_cases)+

lemma reached_handleScalingUp:
  assumes "ready_from V ph" and "stage coarse V s0 (a, ph) s"
  shows "stays (reached coarse V s0) (handleScalingUp E s)"
  unfolding handleScalingUp_def Let_def
  by (insert assms(2))
    (erule stage_then | (intro stays_intro; assumption) | erule reached_handleFastScaling [OF assms(1)] reached_scale_up_members [OF assms(1)] | rule stage_cases)+

lemma reached_scale_down_remove:
  assumes "ready_from V ph" and "stage coarse V s0 (a, ph) s"
  shows "stays (reached coarse V s0) (scale_down_remove E parts s)"
  unfolding scale_down_remove_def drain_phase_def Let_def
  by (insert assms(2))
    (erule stage_then | (intro stays_intro; assumption) | erule reached_attach [OF assms(1)] | rule stage_cases)+

lemma reached_handleScalingDown:
  assumes "ready_from V ph" and "stage coarse V s0 (a, ph) s"
  shows "stays (reached coarse V s0) (handleScalingDown E s)"
  unfolding handleScalingDown_def Let_def
  by (insert assms(2))
    (erule stage_then | (intro stays_intro; assumption) | erule reached_handleFastScaling [OF assms(1)] reached_scale_up_verify [OF assms(1)] reached_scale_down_remove [OF assms(1)] | rule stage_cases)+

lemma reached_handleScalingToZero:
  assumes "ready_from V ph" and "stage coarse V s0 (a, ph) s"
  shows "stays (reached coarse V s0) (handleScalingToZero E s)"
  unfolding handleScalingToZero_def Let_def
  by (insert assms(2))
    (erule stage_then | (intro stays_intro; assumption) | erule reached_endings [OF assms(1)] | rule stage_cases)+

text \<open>Upgrades.\<close>

lemma reached_update_objects:
  assumes k: "\<And>s. stage f V s0 v s \<Longrightarrow> stays (reached f V s0) (k s)" and "stage f V s0 v s"
  shows "stays (reached f V s0) (update_objects E kind k owner s)"
  unfolding update_objects_def
  by (insert assms(2)) (erule stage_then | (intro stays_intro; assumption) | erule k | rule stage_cases)+

lemma reached_when_replicated:
  assumes "stage f V s0 v s" and "stage f V s0 v s \<Longrightarrow> stays (stage f V s0 v) (m s)"
    and "\<And>s. stage f V s0 v s \<Longrightarrow> stays (reached f V s0) (k s)"
  shows "stays (reached f V s0) (when_replicated m k s)"
  unfolding when_replicated_def
  by (insert assms(1)) (erule stage_then | erule assms(2) | erule assms(3))+

lemma reached_heal_first:
  assumes "stage f V s0 v s" and "\<And>s. stage f V s0 v s \<Longrightarrow> stays (reached f V s0) (k s)"
  shows "stays (reached f V s0) (heal_first E k s)"
  unfolding heal_first_def
  by (insert assms(1)) (erule stage_then | (intro stays_intro; assumption) | erule assms(2))+

lemma reached_fast_join:
  assumes "ready_from V ph" and "stage coarse V s0 (a, ph) s"
  shows "stays (reached coarse V s0) (fast_join E nodes s)"
    "stays (reached coarse V s0) (fast_assign E nodes ps s)"
  unfolding fast_join_def fast_assign_def Let_def
  by (insert assms(2))
    (erule stage_then | (intro stays_intro; assumption) | erule reached_endings [OF assms(1)] | rule stage_cases)+

lemma reached_fast_handlers:
  assumes "ready_from V ph" and "stage coarse V s0 (a, ph) s"
  shows "stays (reached coarse V s0) (handleFastUpgradeStart E s)"
    "stays (reached coarse V s0) (handleFastUpgradeWaitReady E s)"
    "stays (reached coarse V s0) (handleFastUpgradeFormCluster E s)"
  unfolding handleFastUpgradeStart_def handleFastUpgradeWaitReady_def handleFastUpgradeFormCluster_def Let_def
  by (insert assms(2))
    (erule stage_then | (intro stays_intro; assumption) | erule reached_update_objects [rotated] | erule reached_fast_join [OF assms(1)] | rule stage_cases)+

lemma reached_handleFastUpgrade:
  assumes "ready_from V ph" and "stage coarse V s0 (a, ph) s"
  shows "stays (reached coarse V s0) (handleFastUpgrade E s)"
  unfolding handleFastUpgrade_def Let_def
  by (insert assms(2))
    (erule stage_then | (intro stays_intro; assumption) | erule reached_fast_handlers [OF assms(1)] | rule stage_cases)+

lemma stage_substatus_with:
  assumes "stage coarse V s0 v s"
    and "\<And>x. cs_Status (f x) = cs_Status x \<and> cs_ConfigPhase (f x) = cs_ConfigPhase x"
  shows "stays (reached coarse V s0) (andthen (updateSubstatus E sub) (ends sch) (set_status f s))"
  using stage_same_status [OF assms(1), of f] assms(2)
  by (intro stage_step(5) [where v = v] stays_intro reachedI) auto

lemma reached_rolling_steps:
  assumes "ready_from V ph" and "stage coarse V s0 (a, ph) s"
  shows "stays (reached coarse V s0) (handleUpgradeStart E s)"
    "stays (reached coarse V s0) (handleUpgradeScalingUp E s)"
    "stays (reached coarse V s0) (start_recycling E s)"
    "stays (reached coarse V s0) (delete_drained E p s)"
    "stays (reached coarse V s0) (advance E p s)"
    "stays (reached coarse V s0) (release_extra E i pw s)"
  unfolding handleUpgradeStart_def handleUpgradeScalingUp_def scaled_up_def start_recycling_def delete_drained_def flush_drained_def
    advance_def release_extra_def Let_def
  by (insert assms(2))
    (erule stage_then | (intro stays_intro; assumption) | erule reached_update_objects [rotated] | erule reached_when_replicated | erule reached_heal_first | erule stage_substatus_with, simp | rule stage_cases)+

lemma reached_check_and_advance:
  assumes "ready_from V ph" and "stage coarse V s0 (a, ph) s"
  shows "stays (reached coarse V s0) (check_and_advance E p c s)"
    "stays (reached coarse V s0) (move_slots E c i d n p pw s)"
    "stays (reached coarse V s0) (return_slots E c i n pw s)"
  unfolding check_and_advance_def move_slots_def return_slots_def Let_def
  by (insert assms(2))
    (erule stage_then | (intro stays_intro; assumption) | erule reached_when_replicated | erule reached_rolling_steps [OF assms(1)] | rule stage_cases)+

lemma reached_reshard_partition:
  assumes "ready_from V ph" and "stage coarse V s0 (a, ph) s"
  shows "stays (reached coarse V s0) (reshard_partition E p d pw s)"
    "stays (reached coarse V s0) (rejoin_recycled E p pw n s)"
  unfolding reshard_partition_def rejoin_recycled_def Let_def
  by (insert assms(2))
    (erule stage_then | (intro stays_intro; assumption) | erule reached_when_replicated | erule reached_check_and_advance [OF assms(1)] reached_rolling_steps [OF assms(1)] | rule stage_cases)+

lemma reached_readmit_pod:
  assumes "ready_from V ph" and "stage coarse V s0 (a, ph) s"
  shows "stays (reached coarse V s0) (readmit_pod E p s)"
  unfolding readmit_pod_def Let_def
  by (insert assms(2))
    (erule stage_then | (intro stays_intro; assumption) | erule reached_reshard_partition [OF assms(1)] | rule stage_cases)+

lemma reached_rolling_handlers:
  assumes "ready_from V ph" and "stage coarse V s0 (a, ph) s"
  shows "stays (reached coarse V s0) (handleUpgradeResharding E s)"
    "stays (reached coarse V s0) (handleUpgradeRollingUpdate E s)"
    "stays (reached coarse V s0) (handleUpgradeEnding E s)"
  unfolding handleUpgradeResharding_def handleUpgradeRollingUpdate_def handleUpgradeEnding_def Let_def
  by (insert assms(2))
    (erule stage_then | (intro stays_intro; assumption) | erule reached_when_replicated | erule reached_heal_first | erule reached_rolling_steps [OF assms(1)] reached_check_and_advance [OF assms(1)] reached_reshard_partition [OF assms(1)] reached_readmit_pod [OF assms(1)] | rule stage_cases)+

lemma reached_final_checks:
  assumes "ready_from V ph" and "stage coarse V s0 (a, ph) s"
  shows "stays (reached coarse V s0) (final_checks E s)"
  unfolding final_checks_def Let_def
  by (insert assms(2))
    (erule stage_then | (intro stays_intro; assumption) | erule reached_when_replicated | erule reached_endings [OF assms(1)] | rule stage_cases)+

lemma reached_handleUpgradeScalingDown:
  assumes "ready_from V ph" and "stage coarse V s0 (a, ph) s"
  shows "stays (reached coarse V s0) (handleUpgradeScalingDown E s)"
  unfolding handleUpgradeScalingDown_def Let_def
  by (insert assms(2))
    (erule stage_then | (intro stays_intro; assumption) | erule reached_heal_first | erule reached_final_checks [OF assms(1)] | rule stage_cases)+

lemma reached_handleUpgrading:
  assumes "ready_from V ph" and s: "stage coarse V s0 (a, ph) s"
  shows "stays (reached coarse V s0) (handleUpgrading E s)"
  unfolding handleUpgrading_def handleRollingUpgrade_def
  using reached_handleFastUpgrade [OF assms] reached_rolling_steps [OF assms] reached_rolling_handlers [OF assms]
    reached_handleUpgradeScalingDown [OF assms]
  by (simp split: substatus_name.splits)

section \<open>The machine\<close>

text \<open>The operation a configuration with specification \<open>sp\<close> asks for after its predecessor \<open>p\<close>; the empty
  status when nothing has to be done.\<close>

definition next_status :: "bool \<Rightarrow> config_spec \<Rightarrow> redkey_config \<Rightarrow> cluster_status" where
  "next_status sa sp p =
     (let r = DetectChanges (rc_Spec p) sp
      in if \<not> sa then DetermineStatusTransition r
         else if HasTopologyChanges r then (if primaries sp = 0 then ScalingToZero else Initializing)
         else if HasKubernetesChanges r \<or> HasRedisConfigChanges r then Upgrading
         else StatusEmpty)"

definition operations :: "cluster_status set" where
  "operations = {ScalingUp, ScalingDown, ScalingToZero, Upgrading}"

text \<open>The steps of a configuration with specification \<open>sp\<close> of a standalone node (\<open>sa\<close>) or of a cluster, where
  \<open>prev\<close> is the configuration before it, if there is one.\<close>

inductive lifecycle ::
  "bool \<Rightarrow> config_spec \<Rightarrow> redkey_config option \<Rightarrow> cluster_status \<times> config_phase \<Rightarrow> cluster_status \<times> config_phase \<Rightarrow> bool"
  for sa sp prev where
  begun: "lifecycle sa sp prev (StatusEmpty, Pending) (StatusEmpty, InProgress)"
| inherited: "prev = Some p \<Longrightarrow> lifecycle sa sp prev (StatusEmpty, ph) (status_of p, ph)"
| created: "prev = None \<Longrightarrow> lifecycle sa sp prev (StatusEmpty, ph) (Initializing, ph)"
| no_primaries: "prev = None \<Longrightarrow> primaries sp = 0 \<Longrightarrow> lifecycle sa sp prev (StatusEmpty, ph) (Ready, ph)"
| pods_ready: "\<not> sa \<Longrightarrow> lifecycle sa sp prev (Initializing, ph) (Configuring, ph)"
| answering: "sa \<Longrightarrow> lifecycle sa sp prev (Initializing, ph) (Ready, ph)"
| serving: "lifecycle sa sp prev (Configuring, ph) (Ready, ph)"
| changed: "prev = Some p \<Longrightarrow> x = StatusEmpty \<or> x = status_of p \<and> ph = InProgress \<Longrightarrow> next_status sa sp p \<noteq> StatusEmpty
    \<Longrightarrow> lifecycle sa sp prev (x, ph) (next_status sa sp p, ph)"
| unchanged: "prev = Some p \<Longrightarrow> x = StatusEmpty \<or> x = status_of p \<and> ph = InProgress \<Longrightarrow> next_status sa sp p = StatusEmpty
    \<Longrightarrow> lifecycle sa sp prev (x, ph) (x, Applied)"
| operated: "x \<in> operations \<Longrightarrow> lifecycle sa sp prev (x, ph) (Ready, ph)"
| leftover: "lifecycle sa sp prev (Ready, InProgress) (Upgrading, InProgress)"
| applied: "lifecycle sa sp prev (Ready, ph) (Ready, Applied)"

inductive_simps lifecycle_from_applied: "lifecycle sa sp prev (Ready, Applied) v"

definition closed :: "bool \<Rightarrow> config_spec \<Rightarrow> redkey_config option \<Rightarrow> (cluster_status \<times> config_phase) set \<Rightarrow> bool" where
  "closed sa sp prev V = (\<forall>v w. v \<in> V \<longrightarrow> lifecycle sa sp prev v w \<longrightarrow> w \<in> V)"

lemma closedD: "closed sa sp prev V \<Longrightarrow> v \<in> V \<Longrightarrow> lifecycle sa sp prev v w \<Longrightarrow> w \<in> V"
  unfolding closed_def by blast

lemma closed_reachable: "closed sa sp prev {v. (lifecycle sa sp prev)\<^sup>*\<^sup>* v0 v}"
  by (auto simp: closed_def intro: rtranclp.rtrancl_into_rtrancl)

lemma stage_mem: "stage f V s0 v s \<Longrightarrow> v \<in> V"
  by (simp add: stage_def)

lemma ready_from_closed:
  "closed sa sp prev V \<Longrightarrow> (a, ph) \<in> V \<Longrightarrow> lifecycle sa sp prev (a, ph) (Ready, ph) \<Longrightarrow> ready_from V ph"
  unfolding ready_from_def using closedD lifecycle.applied by metis

lemma remaining_status_cases: "remaining_status p sp \<noteq> StatusEmpty \<Longrightarrow> remaining_status p sp = Upgrading"
  by (auto simp: remaining_status_def DetermineStatusTransition_def Let_def split: if_splits)

section \<open>The lifecycle handlers\<close>

lemma reached_provision:
  assumes "(Initializing, ph) \<in> V" and "stage coarse V s0 (a, ph) s"
  shows "stays (reached coarse V s0) (provision E what s)"
  unfolding provision_def
  by (insert assms(2)) (erule stage_moves | erule stage_then | (drule stage.J_fields(1), erule stage_then)
      | (intro stays_intro; assumption) | simp add: assms(1))+

lemma reached_handleNew:
  assumes "primaries (spec_of s0) = 0 \<Longrightarrow> ready_from V ph" and "(Initializing, ph) \<in> V" and s: "stage coarse V s0 (a, ph) s"
  shows "stays (reached coarse V s0) (handleNew E s)"
proof (cases "primaries (spec_of s0) = 0")
  case True
  have "stays (reached coarse V s0) (or_fail c (write_status E (\<lambda>x. x\<lparr>cs_Status := Ready, cs_Nodes := Some Map.empty\<rparr>))
      (or_fail [] (setConfigPhaseApplied E) (ends reconcileAfterInterval)) s)" for c
    using assms(1) [OF True] s
    by (intro stage_moves_set(3) stage_moves(2) [OF _ _ stage_then(1)]) (auto simp: ready_from_def)
  then show ?thesis using True s by (simp add: handleNew_def stage_def)
qed (use reached_provision [OF assms(2) s] s in \<open>simp add: handleNew_def stage_def\<close>)

lemma reached_handleInitializing:
  assumes "(Configuring, ph) \<in> V" and "stage coarse V s0 (a, ph) s"
  shows "stays (reached coarse V s0) (handleInitializing E s)"
  unfolding handleInitializing_def
  by (insert assms(2)) (erule stage_moves | erule stage_then | (intro stays_intro; assumption) | simp add: assms(1))+

lemma reached_handleConfiguring:
  assumes "ready_from V ph" and "stage coarse V s0 (a, ph) s"
  shows "stays (reached coarse V s0) (handleConfiguring E s)" "stays (reached coarse V s0) (handleStandaloneInitializing E s)"
    "stays (reached coarse V s0) (handleStandaloneUpgrading E s)"
  unfolding handleConfiguring_def handleStandaloneInitializing_def handleStandaloneUpgrading_def
  by (insert assms(2))
    (erule stage_then | (intro stays_intro; assumption) | erule reached_endings [OF assms(1)] | rule stage_cases)+

lemma reached_handleStandaloneReady:
  assumes "stage coarse V s0 v s" shows "stays (reached coarse V s0) (handleStandaloneReady E s)"
  unfolding handleStandaloneReady_def
  by (insert assms) (erule stage_then | (intro stays_intro; assumption))+

lemma reached_handleReady:
  assumes V: "ph = InProgress \<Longrightarrow> (Upgrading, InProgress) \<in> V" "(Ready, Applied) \<in> V" and s: "stage coarse V s0 (Ready, ph) s"
  shows "stays (reached coarse V s0) (handleReady E prev s)"
proof -
  have ready_again: "stays (reached coarse V s0) (ready_again E prev sch s)" if s: "stage coarse V s0 (Ready, ph) s" for sch s
  proof (cases "phase_of (cfg s) = InProgress \<and> sch = reconcileAfterInterval")
    case True
    then have ph: "ph = InProgress" using s by (simp add: stage_def coarse_def)
    define status where "status = (case prev of None \<Rightarrow> StatusEmpty | Some p \<Rightarrow> remaining_status p (spec_of s))"
    have "status \<noteq> StatusEmpty \<Longrightarrow> status = Upgrading"
      by (auto simp: status_def remaining_status_cases split: option.splits)
    then show ?thesis
      using stage_moves [OF s [unfolded ph] _ stage_then(1)] V(1) [OF ph] V(2) True
      by (auto simp: ready_again_def Let_def status_def [symmetric])
  qed (use s in \<open>auto simp: ready_again_def intro: stage_then(1)\<close>)
  have check: "stays (reached coarse V s0) (check_ready E prev ns pw s)" if "stage coarse V s0 (Ready, ph) s" for ns pw s
    unfolding check_ready_def SetEphemeral_def
    by (insert that) (erule stage_then | (intro stays_intro stage.J_fields; assumption) | erule ready_again)+
  show ?thesis
    unfolding handleReady_def Let_def
    by (insert s) (erule stage_then | (intro stays_intro; assumption) | erule check | rule stage_cases)+
qed

lemma stage_moves_to:
  assumes "stage coarse V s0 (a, ph) s" and "(t, ph) \<in> V"
    and "\<And>s. stage coarse V s0 (t, ph) s \<Longrightarrow> stays (reached coarse V s0) (k s)"
    and "\<And>x. cs_ConfigPhase x = ph \<Longrightarrow> cs_Status (f x) = t \<and> cs_ConfigPhase (f x) = ph"
  shows "stays (reached coarse V s0) (or_fail c (write_status E f) k s)"
  by (rule stage_step(1) [where v = "(t, ph)"], rule stage_write_status [OF assms(1) _ assms(2)])
    (simp_all add: assms(3, 4))

lemma reached_adopt_status:
  assumes "stage coarse V s0 (a, ph) s" and "(status_of p, ph) \<in> V"
    and k: "\<And>s. stage coarse V s0 (status_of p, ph) s \<Longrightarrow> stays (reached coarse V s0) (k s)"
  shows "stays (reached coarse V s0) (adopt_status E c p k s)"
proof (cases "status_of (cfg s) = status_of p")
  case True
  then show ?thesis using assms by (simp add: adopt_status_def stage_def coarse_def)
qed (use stage_moves_to [OF assms] in \<open>simp add: adopt_status_def\<close>)

lemma reached_apply_auth_change:
  assumes "stage f V s0 v s" and "\<And>s. stage f V s0 v s \<Longrightarrow> stays (reached f V s0) (k s)"
  shows "stays (reached f V s0) (apply_auth_change E c r p k s)"
  unfolding apply_auth_change_def
  by (insert assms(1)) (erule stage_then | (intro stays_intro; assumption) | erule assms(2))+

text \<open>A change is considered at status \<open>x\<close>: the empty one or the one of the previous configuration.\<close>

lemma reached_handleConfigChange:
  assumes V: "next_status False (spec_of s0) p \<noteq> StatusEmpty \<Longrightarrow> (next_status False (spec_of s0) p, ph) \<in> V"
      "next_status False (spec_of s0) p = StatusEmpty \<Longrightarrow> (x, Applied) \<in> V \<and> (status_of p, Applied) \<in> V"
    and s: "stage coarse V s0 (x, ph) s"
  shows "stays (reached coarse V s0) (handleConfigChange E p s)"
proof -
  let ?new = "next_status False (spec_of s0) p"
  have new: "stage coarse V s0 (x, ph) s \<Longrightarrow> ?new \<noteq> StatusEmpty
      \<Longrightarrow> stays (reached coarse V s0) (or_fail [] (updateClusterStatus E ?new) (ends reconcileImmediately) s)" for s
    by (rule stage_moves(1) [OF _ V(1) stage_then(1)])
  have same: "stage coarse V s0 (x, ph) s \<Longrightarrow> ?new = StatusEmpty \<Longrightarrow> stays (reached coarse V s0)
      (or_fail [] (setConfigPhaseApplied E) (adopt_status E c p (ends reconcileAfterInterval)) s)" for s c
    by (rule stage_moves(2) [OF _ _ reached_adopt_status [OF _ _ stage_then(1)]]) (use V(2) in auto)
  have "spec_of s = spec_of s0" using s by (simp add: stage_def)
  then show ?thesis
    unfolding handleConfigChange_def Let_def
    by (intro reached_apply_auth_change [OF s]) (use new same in \<open>simp add: next_status_def Let_def\<close>)
qed

lemma reached_handleStandaloneConfigChange:
  assumes V: "next_status True (spec_of s0) p \<noteq> StatusEmpty \<Longrightarrow> (next_status True (spec_of s0) p, ph) \<in> V"
      "next_status True (spec_of s0) p = StatusEmpty \<Longrightarrow> (status_of p, ph) \<in> V \<and> (status_of p, Applied) \<in> V"
    and s: "stage coarse V s0 (x, ph) s"
  shows "stays (reached coarse V s0) (handleStandaloneConfigChange E p s)"
proof -
  let ?r = "DetectChanges (rc_Spec p) (spec_of s0)"
  let ?k = "\<lambda>s. if HasTopologyChanges ?r then
        if primaries (spec_of s) = 0 then or_fail [] (updateClusterStatus E ScalingToZero) (ends reconcileImmediately) s
        else ensureStandaloneObjects E s
      else if HasKubernetesChanges ?r \<or> HasRedisConfigChanges ?r
        then or_fail [] (updateClusterStatus E Upgrading) (ends reconcileImmediately) s
      else adopt_status E ''updating standalone status from previous'' p
             (or_fail [] (setConfigPhaseApplied E) (ends reconcileAfterInterval)) s"
  have k: "stays (reached coarse V s0) (?k s)" if s: "stage coarse V s0 (x, ph) s" for s
  proof -
    have m: "(t, ph) \<in> V \<Longrightarrow> stays (reached coarse V s0) (or_fail [] (updateClusterStatus E t) (ends reconcileImmediately) s)" for t
      by (rule stage_moves(1) [OF s _ stage_then(1)])
    have i: "(Initializing, ph) \<in> V \<Longrightarrow> stays (reached coarse V s0) (provision E c s)" for c
      by (rule reached_provision [OF _ s])
    have u: "(status_of p, ph) \<in> V \<Longrightarrow> (status_of p, Applied) \<in> V \<Longrightarrow> stays (reached coarse V s0)
        (adopt_status E c p (or_fail [] (setConfigPhaseApplied E) (ends reconcileAfterInterval)) s)" for c
      by (rule reached_adopt_status [OF s _ stage_moves(2) [OF _ _ stage_then(1)]])
    have sp: "spec_of s = spec_of s0" using s by (simp add: stage_def)
    show ?thesis
      using V m i u
      by (cases "HasTopologyChanges ?r"; cases "primaries (spec_of s0) = 0";
          cases "HasKubernetesChanges ?r \<or> HasRedisConfigChanges ?r")
        (simp_all add: next_status_def Let_def ensureStandaloneObjects_def sp)
  qed
  have sp: "spec_of s = spec_of s0" using s by (simp add: stage_def)
  show ?thesis
    unfolding handleStandaloneConfigChange_def Let_def sp by (rule reached_apply_auth_change [OF s k])
qed

section \<open>A cycle moves along the machine\<close>

lemma lifecycle_ready:
  "closed sa sp prev V \<Longrightarrow> (a, ph) \<in> V \<Longrightarrow> a \<in> operations \<or> a = Configuring \<or> sa \<and> a = Initializing \<Longrightarrow> ready_from V ph"
  by (auto intro: ready_from_closed lifecycle.operated lifecycle.serving lifecycle.answering)

lemma reached_changes:
  assumes c: "closed sa (spec_of s0) (Some p) V" and s: "stage coarse V s0 (x, ph) s"
    and x: "x = StatusEmpty \<or> x = status_of p \<and> ph = InProgress"
  shows "\<not> sa \<Longrightarrow> stays (reached coarse V s0) (handleConfigChange E p s)"
    and "sa \<Longrightarrow> stays (reached coarse V s0) (handleStandaloneConfigChange E p s)"
proof -
  let ?new = "next_status sa (spec_of s0) p"
  have v: "(x, ph) \<in> V" by (rule stage_mem [OF s])
  have new: "?new \<noteq> StatusEmpty \<Longrightarrow> (?new, ph) \<in> V"
    by (rule closedD [OF c v lifecycle.changed [OF refl x]])
  have a: "?new = StatusEmpty \<Longrightarrow> (x, Applied) \<in> V" by (rule closedD [OF c v lifecycle.unchanged [OF refl x]])
  have adopted: "(x, ph') \<in> V \<Longrightarrow> (status_of p, ph') \<in> V" for ph'
    using x closedD [OF c] lifecycle.inherited [OF refl] by metis
  show "\<not> sa \<Longrightarrow> stays (reached coarse V s0) (handleConfigChange E p s)"
    using new a adopted by (intro reached_handleConfigChange [OF _ _ s]) auto
  show "sa \<Longrightarrow> stays (reached coarse V s0) (handleStandaloneConfigChange E p s)"
    using new a adopted v by (intro reached_handleStandaloneConfigChange [OF _ _ s]) auto
qed

lemma reached_ReconcileCluster:
  assumes c: "closed (e_is_standalone E (spec_of s0)) (spec_of s0) prev V" and s: "stage coarse V s0 v s"
  shows "stays (reached coarse V s0) (ReconcileCluster E prev s)"
proof -
  let ?sa = "e_is_standalone E (spec_of s0)"
  obtain a ph where v: "v = (a, ph)" by fastforce
  have sp: "spec_of s = spec_of s0" and a: "status_of (cfg s) = a" and mem: "(a, ph) \<in> V"
    using s by (simp_all add: stage_def coarse_def v)
  note s = s [unfolded v]
  have step: "lifecycle ?sa (spec_of s0) prev (a, ph) w \<Longrightarrow> w \<in> V" for w by (rule closedD [OF c mem])
  have ready: "a \<in> operations \<or> a = Configuring \<or> ?sa \<and> a = Initializing \<Longrightarrow> ready_from V ph"
    by (rule lifecycle_ready [OF c mem])
  have stop: "stays (reached coarse V s0) (ends sch s)" for sch by (rule stage_then(1) [OF s])
  show ?thesis
  proof (cases a)
    case StatusEmpty
    show ?thesis
    proof (cases prev)
      case None
      have "primaries (spec_of s0) = 0 \<Longrightarrow> ready_from V ph" and "(Initializing, ph) \<in> V"
        using ready_from_closed [OF c mem] step None by (auto simp: StatusEmpty intro: lifecycle.intros)
      then show ?thesis using reached_handleNew [OF _ _ s] None a
        by (simp add: ReconcileCluster_def reconcileStandalone_def StatusEmpty)
    next
      case (Some p)
      then have "\<not> ?sa \<Longrightarrow> stays (reached coarse V s0) (handleConfigChange E p s)"
        "?sa \<Longrightarrow> stays (reached coarse V s0) (handleStandaloneConfigChange E p s)"
        using reached_changes [of ?sa s0 p V a ph s E] c s by (simp_all add: StatusEmpty)
      then show ?thesis using Some a
        by (simp add: ReconcileCluster_def reconcileStandalone_def StatusEmpty sp)
    qed
  next
    case Initializing
    show ?thesis
    proof (cases ?sa)
      case True
      then show ?thesis using reached_handleConfiguring [OF ready s] a
        by (simp add: ReconcileCluster_def reconcileStandalone_def Initializing sp)
    next
      case False
      then have "(Configuring, ph) \<in> V" using step by (simp add: Initializing lifecycle.pods_ready)
      then show ?thesis using reached_handleInitializing [OF _ s] a False
        by (simp add: ReconcileCluster_def Initializing sp)
    qed
  next
    case Ready
    have "(Ready, Applied) \<in> V" using step by (simp add: Ready lifecycle.applied)
    moreover have "ph = InProgress \<Longrightarrow> (Upgrading, InProgress) \<in> V" using step by (simp add: Ready lifecycle.leftover)
    ultimately have "stays (reached coarse V s0) (handleReady E prev s)"
      using reached_handleReady [of ph V s0 s E prev] s by (simp add: Ready)
    then show ?thesis using reached_handleStandaloneReady [OF s] a
      by (simp add: ReconcileCluster_def reconcileStandalone_def Ready)
  qed (use a ready reached_handleConfiguring [OF _ s] reached_handleScalingUp [OF _ s] reached_handleScalingDown [OF _ s]
        reached_handleScalingToZero [OF _ s] reached_handleUpgrading [OF _ s] stop
      in \<open>simp_all add: ReconcileCluster_def reconcileStandalone_def operations_def\<close>)
qed

lemma reached_then_ReconcileCluster:
  "closed (e_is_standalone E (spec_of s0)) (spec_of s0) prev V \<Longrightarrow> reached coarse V s0 s
   \<Longrightarrow> stays (reached coarse V s0) (ReconcileCluster E prev s)"
  unfolding reached_def [of coarse V s0 s] using reached_ReconcileCluster by blast

lemma reached_reconcile_phase:
  assumes c: "closed (e_is_standalone E (spec_of s0)) (spec_of s0) prev V" and s: "stage coarse V s0 v s"
    and pending: "phase_of (cfg s) = Pending \<Longrightarrow> status_of (cfg s) = StatusEmpty \<or> V = UNIV"
  shows "stays (reached coarse V s0) (reconcile_phase E prev s)"
proof (cases "phase_of (cfg s) = Pending")
  case False
  then show ?thesis using reached_ReconcileCluster [OF c s] by (simp add: reconcile_phase_def)
next
  case True
  let ?sa = "e_is_standalone E (spec_of s0)"
  obtain a where v: "v = (a, Pending)" and a: "a = StatusEmpty \<or> V = UNIV"
    using s True pending by (auto simp: stage_def coarse_def)
  note s = s [unfolded v]
  have begun: "(a, InProgress) \<in> V"
    using a closedD [OF c stage_mem [OF s]] lifecycle.begun by blast
  have change: "stays (reached coarse V s0) (start_config_change E prev s)"
    if s: "stage coarse V s0 (case prev of None \<Rightarrow> a | Some p \<Rightarrow> status_of p, InProgress) s" for s
  proof (cases prev)
    case None
    then show ?thesis using reached_ReconcileCluster [OF c s] by (simp add: start_config_change_def)
  next
    case (Some p)
    have sp: "spec_of s = spec_of s0" using s by (simp add: stage_def)
    note changes = reached_changes [OF c [unfolded Some] s [unfolded Some option.case]]
    have "\<not> ?sa \<Longrightarrow> stays (reached coarse V s0) (do { (r, s) \<leftarrow> handleConfigChange E p s;
        if snd r \<noteq> None \<or> phase_of (cfg s) = Applied then Some (r, s) else ReconcileCluster E (Some p) s })"
      by (rule stays_seq [OF changes(1)])
        (use c Some in \<open>simp_all add: stays_Some reached_then_ReconcileCluster\<close>)
    then show ?thesis using changes(2) by (simp add: start_config_change_def sp Some)
  qed
  have copy: "stays (reached coarse V s0) (or_fail [] (copyPreviousClusterStatus E prev) (start_config_change E prev) s)"
    if s: "stage coarse V s0 (a, InProgress) s" for s
  proof (cases prev)
    case None
    then show ?thesis using change s by (simp add: or_fail_def copyPreviousClusterStatus_def)
  next
    case (Some p)
    have "(status_of p, InProgress) \<in> V"
      using a closedD [OF c begun] lifecycle.inherited [of prev p] Some by blast
    then have "stays (reached coarse V s0) (or_fail [] (write_status E (\<lambda>x. (rc_Status p)\<lparr>cs_ConfigPhase := cs_ConfigPhase x\<rparr>))
        (start_config_change E prev) s)"
      by (rule stage_moves_to [OF s]) (use change Some in simp_all)
    then show ?thesis by (simp add: or_fail_def copyPreviousClusterStatus_def Some)
  qed
  have "stays (stage coarse V s0 (a, InProgress)) (setConfigPhaseInProgress E s)"
    unfolding setConfigPhaseInProgress_def by (rule stage_write_status [OF s _ begun]) simp
  then have "stays (reached coarse V s0) (reconcile_pending E prev s)"
    unfolding reconcile_pending_def by (rule stage_step(1)) (rule copy)
  then show ?thesis using True by (simp add: reconcile_phase_def)
qed

text \<open>Whatever the state it starts from, a cycle leaves the settings alone until the handler has returned.\<close>

lemma reconcile_phase_settings:
  "stays (\<lambda>s'. settings (run s') = settings (run s)) (reconcile_phase E prev s)"
proof -
  have "closed (e_is_standalone E (spec_of s)) (spec_of s) prev UNIV" by (simp add: closed_def)
  from reached_reconcile_phase [OF this stage_start] show ?thesis
    by (rule stays_mono) (auto simp: reached_def stage_def)
qed

text \<open>The machine that a cycle with configuration \<open>cfg s\<close> and the previous one \<open>prev\<close> has to follow.\<close>

abbreviation lifecycle_of ::
  "env \<Rightarrow> redkey_config option \<Rightarrow> st \<Rightarrow> cluster_status \<times> config_phase \<Rightarrow> cluster_status \<times> config_phase \<Rightarrow> bool" where
  "lifecycle_of E prev s \<equiv> lifecycle (e_is_standalone E (spec_of s)) (spec_of s) prev"

lemma reconcile_phase_reached:
  assumes "phase_of (cfg s) = Pending \<Longrightarrow> status_of (cfg s) = StatusEmpty"
  shows "stays (reached coarse {v. (lifecycle_of E prev s)\<^sup>*\<^sup>* (coarse (cfg s)) v} s) (reconcile_phase E prev s)"
  by (rule reached_reconcile_phase [OF closed_reachable stage_start]) (simp_all add: assms)

lemma reached_writes:
  "reached f V s s' \<Longrightarrow> f (cfg s') \<in> V \<and> rc_Spec (cfg s') = rc_Spec (cfg s)
    \<and> (\<forall>c w. StatusWrite c w \<in> set (new_events s s') \<longrightarrow> f c \<in> V \<and> rc_Spec c = rc_Spec (cfg s))"
  unfolding reached_def stage_def using grows_new_events [of "recorded f V (spec_of s)" s s']
  by (auto simp: recorded_def list_all_iff)


definition empty_cluster :: redkey_config where
  "empty_cluster = start_config\<lparr>rc_Spec := base_spec\<lparr>sp_Primaries := 0\<rparr>, rc_Status := initial_status\<rparr>"

lemma empty_cluster_fields:
  "coarse empty_cluster = (StatusEmpty, Pending)" "primaries (rc_Spec empty_cluster) = 0"
  "\<not> e_is_standalone calm_env (rc_Spec empty_cluster)"
  by (simp_all add: empty_cluster_def coarse_def initial_status_def base_spec_def calm_env_def primaries_def)

lemma calm_status: "status_update calm_env s = Some (None, log (StatusWrite (cfg s) None) s)"
  by (simp add: status_update_def update_status_def calm_env_def)

lemma empty_cluster_cycle:
  "\<exists>s'. reconcile_phase calm_env None (start_st\<lparr>cfg := empty_cluster\<rparr>) = Some ((reconcileAfterInterval, None), s')
    \<and> coarse (cfg s') = (Ready, Applied)"
  using empty_cluster_fields
  by (simp add: reconcile_phase_def reconcile_pending_def or_fail_def setConfigPhaseInProgress_def write_status_def
      calm_status set_status_def copyPreviousClusterStatus_def start_config_change_def
      ReconcileCluster_def handleNew_def setConfigPhaseApplied_def ends_def coarse_def failed_def)


text \<open>What the machine guarantees of every reachable state.\<close>

definition lifecycle_inv :: "bool \<Rightarrow> config_spec \<Rightarrow> redkey_config option \<Rightarrow> cluster_status \<times> config_phase \<Rightarrow> bool" where
  "lifecycle_inv sa sp prev v = (snd v = Applied \<longrightarrow>
     fst v = Ready \<or> fst v = StatusEmpty \<and> (\<exists>p. prev = Some p \<and> next_status sa sp p = StatusEmpty))"

lemma lifecycle_inv_step:
  "lifecycle sa sp prev v w \<Longrightarrow> (\<And>p. prev = Some p \<Longrightarrow> status_of p = Ready) \<Longrightarrow>
   lifecycle_inv sa sp prev v \<Longrightarrow> lifecycle_inv sa sp prev w"
  by (induction rule: lifecycle.induct) (auto simp: lifecycle_inv_def operations_def)

lemma lifecycle_inv_reachable:
  "(lifecycle sa sp prev)\<^sup>*\<^sup>* v w \<Longrightarrow> (\<And>p. prev = Some p \<Longrightarrow> status_of p = Ready) \<Longrightarrow>
   lifecycle_inv sa sp prev v \<Longrightarrow> lifecycle_inv sa sp prev w"
  by (induction rule: rtranclp_induct) (auto intro: lifecycle_inv_step)

text \<open>A configuration applied on a ready cluster is at rest.\<close>

lemma applied_at_rest: "(lifecycle sa sp prev)\<^sup>*\<^sup>* (Ready, Applied) w \<Longrightarrow> w = (Ready, Applied)"
  by (induction rule: rtranclp_induct) (auto simp: lifecycle_from_applied operations_def)

text \<open>C6: Applied means done: provided the previous configuration, if any, left the cluster Ready, no cycle
  marks a configuration Applied - in memory or at the API server - while its cluster is being created,
  scaled or upgraded: an Applied configuration has status Ready, or (between two writes) no status yet
  when it asks for nothing new. And a configuration that is Applied on a Ready cluster stays so in every
  later cycle, whatever the health checks and remediations meet.\<close>

theorem applied_means_ready:
  assumes "reconcile_phase E prev s = Some (r, s')"
    and "phase_of (cfg s) = Pending \<Longrightarrow> status_of (cfg s) = StatusEmpty"
    and "\<And>p. prev = Some p \<Longrightarrow> status_of p = Ready"
    and "phase_of (cfg s) = Applied \<Longrightarrow> status_of (cfg s) = Ready"
    and "c = cfg s' \<or> StatusWrite c w \<in> set (new_events s s')"
  shows "(phase_of c = Applied \<longrightarrow> status_of c = Ready \<or> status_of c = StatusEmpty
      \<and> (\<exists>p. prev = Some p \<and> next_status (e_is_standalone E (spec_of s)) (spec_of s) p = StatusEmpty))
    \<and> (phase_of (cfg s) = Applied \<longrightarrow> phase_of c = Applied \<and> status_of c = Ready)"
proof -
  have steps: "(lifecycle_of E prev s)\<^sup>*\<^sup>* (coarse (cfg s)) (coarse c)"
    using reached_writes [OF staysD [OF reconcile_phase_reached [OF assms(2)] assms(1)]] assms(5) by auto
  have "lifecycle_inv (e_is_standalone E (spec_of s)) (spec_of s) prev (coarse (cfg s))"
    using assms(4) by (auto simp: lifecycle_inv_def coarse_def)
  from lifecycle_inv_reachable [OF steps assms(3) this]
  have "phase_of c = Applied \<longrightarrow> status_of c = Ready \<or> status_of c = StatusEmpty
      \<and> (\<exists>p. prev = Some p \<and> next_status (e_is_standalone E (spec_of s)) (spec_of s) p = StatusEmpty)"
    by (simp add: lifecycle_inv_def coarse_def)
  moreover have "phase_of (cfg s) = Applied \<longrightarrow> phase_of c = Applied \<and> status_of c = Ready"
    using applied_at_rest [of "e_is_standalone E (spec_of s)" "spec_of s" prev "coarse c"] steps assms(4)
    by (auto simp: coarse_def)
  ultimately show ?thesis ..
qed

lemma applied_means_ready_witness:
  "\<exists>s' :: st. phase_of (cfg s') = Applied \<and> (status_of (cfg s') = Ready \<or> status_of (cfg s') = StatusEmpty)
    \<and> (phase_of empty_cluster = Applied \<longrightarrow> status_of (cfg s') = Ready)"
proof -
  let ?s = "start_st\<lparr>cfg := empty_cluster\<rparr>"
  obtain s' where c: "reconcile_phase calm_env None ?s = Some ((reconcileAfterInterval, None), s')"
    and r: "coarse (cfg s') = (Ready, Applied)" using empty_cluster_cycle by blast
  have p: "status_of (cfg ?s) = StatusEmpty" "phase_of (cfg ?s) = Pending" using empty_cluster_fields by (simp_all add: coarse_def)
  have "phase_of (cfg s') = Applied" using r by (simp add: coarse_def)
  then show ?thesis using applied_means_ready [OF c, of "cfg s'"] p by (intro exI [of _ s']) simp
qed

end
