(* ===== verification/Upgrade_Machine.thy ===== *)
theory Upgrade_Machine
  imports Lifecycle_Machine
begin

text \<open>
  The rolling upgrade as a state machine on the status, the substatus and the partition of the
  configuration: one pass of \<open>handleRollingUpgrade\<close> takes at most one step of it, and the steps count
  down, so an upgrade of \<open>n\<close> primaries is over after a fixed number of passes that make progress.
\<close>

section \<open>The machine\<close>

definition fine :: "redkey_config \<Rightarrow> cluster_status \<times> substatus_name \<times> int" where
  "fine c = (status_of c, substatus_of c, cs_UpgradingPartition (rc_Status c))"

definition rolling_substatus :: "substatus_name set" where
  "rolling_substatus = {UpgradeScalingUp, UpgradeResharding, UpgradeRollingUpdate, UpgradeEnding, UpgradeScalingDown}"

text \<open>\<open>n\<close> is the number of primaries. Between draining and recycling, the partition names the primary whose
  turn it is: from the last one down to 0.\<close>

inductive upgrade_step ::
  "int \<Rightarrow> cluster_status \<times> substatus_name \<times> int \<Rightarrow> cluster_status \<times> substatus_name \<times> int \<Rightarrow> bool" for n where
  started: "sub \<notin> rolling_substatus \<Longrightarrow> upgrade_step n (Upgrading, sub, k) (Upgrading, UpgradeScalingUp, k)"
| extended: "upgrade_step n (Upgrading, UpgradeScalingUp, k) (Upgrading, UpgradeResharding, n - 1)"
| drained: "upgrade_step n (Upgrading, UpgradeResharding, k) (Upgrading, UpgradeRollingUpdate, k)"
| recycled: "0 < k \<Longrightarrow> upgrade_step n (Upgrading, UpgradeRollingUpdate, k) (Upgrading, UpgradeResharding, k - 1)"
| all_recycled: "k \<le> 0 \<Longrightarrow> upgrade_step n (Upgrading, UpgradeRollingUpdate, k) (Upgrading, UpgradeEnding, k)"
| released: "upgrade_step n (Upgrading, UpgradeEnding, k) (Upgrading, UpgradeScalingDown, k)"
| finished: "sub = SubEmpty \<or> sub = Remediating \<Longrightarrow>
    upgrade_step n (Upgrading, UpgradeScalingDown, k) (Ready, sub, 0)"

fun rank :: "int \<Rightarrow> cluster_status \<times> substatus_name \<times> int \<Rightarrow> nat" where
  "rank n (st, sub, k) =
     (if st \<noteq> Upgrading then 0
      else case sub of
             UpgradeScalingUp \<Rightarrow> 2 * nat (n - 1) + 5
           | UpgradeResharding \<Rightarrow> 2 * nat k + 4
           | UpgradeRollingUpdate \<Rightarrow> 2 * nat k + 3
           | UpgradeEnding \<Rightarrow> 2
           | UpgradeScalingDown \<Rightarrow> 1
           | _ \<Rightarrow> 2 * nat (n - 1) + 6)"

lemma upgrade_step_rank: "upgrade_step n v w \<Longrightarrow> rank n w < rank n v"
  by (induction rule: upgrade_step.induct)
    (auto simp: rolling_substatus_def nat_diff_distrib split: substatus_name.splits)

definition valid_partition :: "int \<Rightarrow> cluster_status \<times> substatus_name \<times> int \<Rightarrow> bool" where
  "valid_partition n v = (case v of (st, sub, k) \<Rightarrow>
     st = Upgrading \<and> sub \<in> {UpgradeResharding, UpgradeRollingUpdate} \<longrightarrow> 0 \<le> k \<and> k < n)"

lemma upgrade_step_valid: "upgrade_step n v w \<Longrightarrow> 0 < n \<Longrightarrow> valid_partition n v \<Longrightarrow> valid_partition n w"
  by (induction rule: upgrade_step.induct) (auto simp: valid_partition_def)

section \<open>One pass, at most one step\<close>

lemma stage_updateSubstatus_fine:
  assumes "stage fine V s0 (a, sub, k) s" and "(a, new, k) \<in> V"
  shows "stays (stage fine V s0 (a, new, k)) (updateSubstatus E new s)"
  unfolding updateSubstatus_def
  using assms by (auto intro!: stays_intro simp: stage_def fine_def set_status_def)

lemma fine_moves:
  assumes "stage fine V s0 (a, sub, k) s" and "(a, new, k') \<in> V"
    and "\<And>x. cs_Status (f x) = cs_Status x \<and> cs_Substatus (f x) = cs_Substatus x"
    and "cs_UpgradingPartition (f (rc_Status (cfg s))) = k'"
  shows "stays (reached fine V s0) (andthen (updateSubstatus E new) (ends sch) (set_status f s))"
proof -
  have "stays (stage fine V s0 (a, new, k')) (updateSubstatus E new (set_status f s))" if "sub \<noteq> new"
    unfolding updateSubstatus_def
    using assms that by (auto intro!: stays_intro simp: stage_def fine_def set_status_def)
  moreover have "stays (stage fine V s0 (a, new, k')) (updateSubstatus E new (set_status f s))" if "sub = new"
    unfolding updateSubstatus_def
    using assms that by (auto intro!: stays_intro simp: stage_def fine_def set_status_def)
  ultimately show ?thesis
    by (intro stage_step(5) [where v = "(a, new, k')"] stage_then(1)) blast+
qed

lemma fine_moves_plain:
  assumes "stage fine V s0 (a, sub, k) s" and "(a, new, k) \<in> V"
  shows "stays (reached fine V s0) (andthen (updateSubstatus E new) (ends sch) s)"
  by (rule stage_step(5), rule stage_updateSubstatus_fine [OF assms], rule stage_then(1))

lemma fine_applyHealthStatus:
  assumes "stage fine V s0 (a, sub, k) s" and "(a, SubEmpty, k) \<in> V" and "(a, Remediating, k) \<in> V"
  shows "stays (reached fine V s0) (applyHealthStatus E rep s)"
proof -
  let ?sub = "if rp_Healthy rep then SubEmpty else Remediating"
  have h: "fine (health_conditions E rep c) = fine c" for c
    by (simp add: fine_def health_conditions_def setHealthCondition_def)
  have t: "stage fine V s0 (a, ?sub, k)
      (set_status (\<lambda>t. t\<lparr>cs_Substatus := ?sub\<rparr>) (s\<lparr>cfg := health_conditions E rep (cfg s)\<rparr>))"
    using assms h [of "cfg s"] by (auto simp: stage_def fine_def set_status_def)
  have "stays (stage fine V s0 (a, ?sub, k)) (applyHealthStatus E rep s)"
    unfolding applyHealthStatus_def by (intro stays_intro t; assumption)
  then show ?thesis by (rule stays_mono) (rule reachedI)
qed

lemma fine_refreshHealthConditions:
  assumes "stage fine V s0 (a, sub, k) s" and "(a, SubEmpty, k) \<in> V" and "(a, Remediating, k) \<in> V"
  shows "stays (reached fine V s0) (refreshHealthConditions E pw s)"
  unfolding refreshHealthConditions_def SetEphemeral_def
  by (insert assms(1)) (erule stage_then | (intro stays_intro stage.J_fields; assumption)
      | erule fine_applyHealthStatus [OF _ assms(2,3)] | rule stage_cases)+

lemma fine_finish_upgrade:
  assumes s: "stage fine V s0 (a, sub, k) s" and V: "(Ready, SubEmpty, 0) \<in> V" "(Ready, Remediating, 0) \<in> V"
  shows "stays (reached fine V s0) (finish_upgrade E kind s)"
proof -
  have set: "stage fine V s0 (Ready, SubEmpty, 0)
      (set_status (\<lambda>x. x\<lparr>cs_Substatus := SubEmpty, cs_UpgradingPartition := 0, cs_Status := Ready\<rparr>) s)"
    if "stage fine V s0 (a, sub, k) s" for s
    using that V by (auto simp: stage_def fine_def set_status_def)
  have written: "stays (reached fine V s0) (or_fail c
      (\<lambda>s. do { (e, s) \<leftarrow> status_update E s; Some (map_option kerr_text e, s) }) K
      (set_status (\<lambda>x. x\<lparr>cs_Substatus := SubEmpty, cs_UpgradingPartition := 0, cs_Status := Ready\<rparr>) s))"
    if "stage fine V s0 (a, sub, k) s" and "\<And>s. stage fine V s0 (Ready, SubEmpty, 0) s \<Longrightarrow> stays (reached fine V s0) (K s)"
    for c K s
    by (rule stage_step(1) [where v = "(Ready, SubEmpty, 0)"]) (intro stays_intro set that; assumption)+
  have applied: "stays (stage fine V s0 (Ready, SubEmpty, 0)) (setConfigPhaseApplied E s)"
    if "stage fine V s0 (Ready, SubEmpty, 0) s" for s
    unfolding setConfigPhaseApplied_def
    using that by (auto intro!: stays_intro simp: stage_def fine_def set_status_def)
  have health: "stays (reached fine V s0) (do { (u, s) \<leftarrow> refreshHealthConditions E pw s; ends sch s })"
    if "stage fine V s0 (Ready, SubEmpty, 0) s" for pw sch s
    by (rule stays_seq, rule fine_refreshHealthConditions [OF that V], rule stays_ends)
  show ?thesis
    unfolding finish_upgrade_def
    by (insert s) (erule written | erule health | erule stage_then | (intro stays_intro; assumption) | erule applied)+
qed

text \<open>The pass of each substatus, with the one state it may move to in \<open>V\<close>.\<close>

lemma fine_handleUpgradeStart:
  assumes V: "(a, UpgradeScalingUp, k) \<in> V" and "stage fine V s0 (a, sub, k) s"
  shows "stays (reached fine V s0) (handleUpgradeStart E s)"
  unfolding handleUpgradeStart_def Let_def
  by (insert assms(2))
    ((erule fine_moves_plain, rule V) | erule stage_then | (intro stays_intro; assumption)
      | erule reached_when_replicated | erule reached_heal_first | erule reached_update_objects [rotated] | rule stage_cases)+

lemma fine_scaled_up:
  assumes "(a, UpgradeResharding, primaries (spec_of s0) - 1) \<in> V" and "stage fine V s0 (a, sub, k) s"
  shows "stays (reached fine V s0) (scaled_up E s)"
  unfolding scaled_up_def
  by (rule fine_moves [OF assms(2, 1)]) (use assms(2) in \<open>simp_all add: stage_def\<close>)

lemma fine_handleUpgradeScalingUp:
  assumes V: "(a, UpgradeResharding, primaries (spec_of s0) - 1) \<in> V" and "stage fine V s0 (a, sub, k) s"
  shows "stays (reached fine V s0) (handleUpgradeScalingUp E s)"
  unfolding handleUpgradeScalingUp_def Let_def
  by (insert assms(2))
    ((erule fine_moves_plain, rule V) | erule stage_then | (intro stays_intro; assumption)
      | erule reached_when_replicated | erule reached_heal_first | erule fine_scaled_up [OF V] | rule stage_cases)+

lemma fine_start_recycling:
  assumes V: "(a, UpgradeRollingUpdate, k) \<in> V" and "stage fine V s0 (a, sub, k) s"
  shows "stays (reached fine V s0) (start_recycling E s)"
  unfolding start_recycling_def Let_def
  by (insert assms(2))
    ((erule fine_moves_plain, rule V) | erule stage_then | (intro stays_intro; assumption)
      | erule reached_when_replicated | erule reached_heal_first | rule stage_cases)+

lemma fine_move_slots:
  assumes V: "(a, UpgradeRollingUpdate, k) \<in> V" and "stage fine V s0 (a, sub, k) s"
  shows "stays (reached fine V s0) (move_slots E c i d n p pw s)"
  unfolding move_slots_def Let_def
  by (insert assms(2))
    ((erule fine_moves_plain, rule V) | erule stage_then | (intro stays_intro; assumption)
      | erule reached_when_replicated | erule reached_heal_first | erule fine_start_recycling [OF V] | rule stage_cases)+

lemma fine_reshard_partition:
  assumes V: "(a, UpgradeRollingUpdate, k) \<in> V" and "stage fine V s0 (a, sub, k) s"
  shows "stays (reached fine V s0) (reshard_partition E p d pw s)"
  unfolding reshard_partition_def Let_def
  by (insert assms(2))
    ((erule fine_moves_plain, rule V) | erule stage_then | (intro stays_intro; assumption)
      | erule reached_when_replicated | erule reached_heal_first | erule fine_start_recycling [OF V] fine_move_slots [OF V] | rule stage_cases)+

lemma fine_handleUpgradeResharding:
  assumes V: "(a, UpgradeRollingUpdate, k) \<in> V" and "stage fine V s0 (a, sub, k) s"
  shows "stays (reached fine V s0) (handleUpgradeResharding E s)"
  unfolding handleUpgradeResharding_def Let_def
  by (insert assms(2))
    ((erule fine_moves_plain, rule V) | erule stage_then | (intro stays_intro; assumption)
      | erule reached_when_replicated | erule reached_heal_first | erule fine_reshard_partition [OF V] | rule stage_cases)+

lemma fine_advance:
  assumes V: "0 < p \<longrightarrow> (a, UpgradeResharding, p - 1) \<in> V" "p \<le> 0 \<longrightarrow> (a, UpgradeEnding, k) \<in> V"
    and s: "stage fine V s0 (a, sub, k) s"
  shows "stays (reached fine V s0) (advance E p s)"
proof (cases "0 < p")
  case True
  show ?thesis using fine_moves [OF s mp [OF V(1) True], of "\<lambda>x. x\<lparr>cs_UpgradingPartition := p - 1\<rparr>"] True
    by (simp add: advance_def)
qed (use fine_moves_plain [OF s mp [OF V(2)]] in \<open>simp add: advance_def\<close>)

lemma fine_check_and_advance:
  assumes V: "0 < p \<longrightarrow> (a, UpgradeResharding, p - 1) \<in> V" "p \<le> 0 \<longrightarrow> (a, UpgradeEnding, k) \<in> V" and "stage fine V s0 (a, sub, k) s"
  shows "stays (reached fine V s0) (check_and_advance E p c s)"
  unfolding check_and_advance_def Let_def
  by (insert assms(3))
    (erule stage_then | (intro stays_intro; assumption)
      | erule reached_when_replicated | erule reached_heal_first | erule fine_advance [OF V] | rule stage_cases)+

lemma fine_rejoin_recycled:
  assumes V: "0 < p \<longrightarrow> (a, UpgradeResharding, p - 1) \<in> V" "p \<le> 0 \<longrightarrow> (a, UpgradeEnding, k) \<in> V" and "stage fine V s0 (a, sub, k) s"
  shows "stays (reached fine V s0) (rejoin_recycled E p pw n s)"
  unfolding rejoin_recycled_def Let_def
  by (insert assms(3))
    (erule stage_then | (intro stays_intro; assumption)
      | erule reached_when_replicated | erule reached_heal_first | erule fine_check_and_advance [OF V] | rule stage_cases)+

lemma fine_readmit_pod:
  assumes V: "0 < p \<longrightarrow> (a, UpgradeResharding, p - 1) \<in> V" "p \<le> 0 \<longrightarrow> (a, UpgradeEnding, k) \<in> V" and "stage fine V s0 (a, sub, k) s"
  shows "stays (reached fine V s0) (readmit_pod E p s)"
    "stays (reached fine V s0) (delete_drained E p s)"
  unfolding readmit_pod_def delete_drained_def flush_drained_def Let_def
  by (insert assms(3))
    (erule stage_then | (intro stays_intro; assumption)
      | erule reached_when_replicated | erule reached_heal_first | erule fine_rejoin_recycled [OF V] | rule stage_cases)+

lemma fine_handleUpgradeRollingUpdate:
  assumes V: "0 < k \<longrightarrow> (a, UpgradeResharding, k - 1) \<in> V" "k \<le> 0 \<longrightarrow> (a, UpgradeEnding, k) \<in> V"
    and s: "stage fine V s0 (a, sub, k) s"
  shows "stays (reached fine V s0) (handleUpgradeRollingUpdate E s)"
proof -
  have part: "cs_UpgradingPartition (rc_Status (cfg s)) = k" using s by (simp add: stage_def fine_def)
  show ?thesis
    unfolding handleUpgradeRollingUpdate_def Let_def part
    by (insert s) (erule reached_heal_first | erule stage_then | (intro stays_intro; assumption) | erule fine_readmit_pod [OF V])+
qed

lemma fine_release_extra:
  assumes V: "(a, UpgradeScalingDown, k) \<in> V" and "stage fine V s0 (a, sub, k) s"
  shows "stays (reached fine V s0) (release_extra E i pw s)"
  unfolding release_extra_def Let_def
  by (insert assms(2))
    ((erule fine_moves_plain, rule V) | erule stage_then | (intro stays_intro; assumption)
      | erule reached_when_replicated | erule reached_heal_first | rule stage_cases)+

lemma fine_return_slots:
  assumes V: "(a, UpgradeScalingDown, k) \<in> V" and "stage fine V s0 (a, sub, k) s"
  shows "stays (reached fine V s0) (return_slots E c i n pw s)"
  unfolding return_slots_def Let_def
  by (insert assms(2))
    ((erule fine_moves_plain, rule V) | erule stage_then | (intro stays_intro; assumption)
      | erule reached_when_replicated | erule reached_heal_first | erule fine_release_extra [OF V] | rule stage_cases)+

lemma fine_handleUpgradeEnding:
  assumes V: "(a, UpgradeScalingDown, k) \<in> V" and "stage fine V s0 (a, sub, k) s"
  shows "stays (reached fine V s0) (handleUpgradeEnding E s)"
  unfolding handleUpgradeEnding_def Let_def
  by (insert assms(2))
    ((erule fine_moves_plain, rule V) | erule stage_then | (intro stays_intro; assumption)
      | erule reached_when_replicated | erule reached_heal_first | erule fine_release_extra [OF V] fine_return_slots [OF V] | rule stage_cases)+

lemma fine_final_checks:
  assumes V: "(Ready, SubEmpty, 0) \<in> V" "(Ready, Remediating, 0) \<in> V" and "stage fine V s0 (a, sub, k) s"
  shows "stays (reached fine V s0) (final_checks E s)"
  unfolding final_checks_def Let_def
  by (insert assms(3))
    (erule stage_then | (intro stays_intro; assumption)
      | erule reached_when_replicated | erule reached_heal_first | erule fine_finish_upgrade [OF _ V] | rule stage_cases)+

lemma fine_handleUpgradeScalingDown:
  assumes V: "(Ready, SubEmpty, 0) \<in> V" "(Ready, Remediating, 0) \<in> V" and "stage fine V s0 (a, sub, k) s"
  shows "stays (reached fine V s0) (handleUpgradeScalingDown E s)"
  unfolding handleUpgradeScalingDown_def Let_def
  by (insert assms(3))
    (erule stage_then | (intro stays_intro; assumption)
      | erule reached_when_replicated | erule reached_heal_first | erule fine_final_checks [OF V] | rule stage_cases)+

definition next_views :: "int \<Rightarrow> cluster_status \<times> substatus_name \<times> int \<Rightarrow> (cluster_status \<times> substatus_name \<times> int) set" where
  "next_views n v = {w. w = v \<or> upgrade_step n v w}"

lemma fine_handleRollingUpgrade:
  assumes "status_of (cfg s) = Upgrading"
  shows "stays (reached fine (next_views (primaries (spec_of s)) (fine (cfg s))) s) (handleRollingUpgrade E s)"
proof -
  let ?n = "primaries (spec_of s)" and ?sub = "substatus_of (cfg s)" and ?k = "cs_UpgradingPartition (rc_Status (cfg s))"
  let ?V = "next_views ?n (Upgrading, ?sub, ?k)"
  have v: "fine (cfg s) = (Upgrading, ?sub, ?k)" using assms by (simp add: fine_def)
  have s: "stage fine ?V s (Upgrading, ?sub, ?k) s" by (simp add: stage_def v next_views_def)
  have V: "upgrade_step ?n (Upgrading, ?sub, ?k) w \<Longrightarrow> w \<in> ?V" for w by (simp add: next_views_def)
  have start: "stays (reached fine ?V s) (handleUpgradeStart E s)" if "?sub \<notin> rolling_substatus"
    by (rule fine_handleUpgradeStart [OF _ s]) (rule V, rule upgrade_step.started [OF that])
  have up: "stays (reached fine ?V s) (handleUpgradeScalingUp E s)" if "?sub = UpgradeScalingUp"
    by (rule fine_handleUpgradeScalingUp [OF _ s]) (rule V, simp add: that upgrade_step.extended)
  have drain: "stays (reached fine ?V s) (handleUpgradeResharding E s)" if "?sub = UpgradeResharding"
    by (rule fine_handleUpgradeResharding [OF _ s]) (rule V, simp add: that upgrade_step.drained)
  have recycle: "stays (reached fine ?V s) (handleUpgradeRollingUpdate E s)" if "?sub = UpgradeRollingUpdate"
    by (rule fine_handleUpgradeRollingUpdate [OF _ _ s])
      (auto simp: next_views_def that upgrade_step.recycled upgrade_step.all_recycled)
  have ending: "stays (reached fine ?V s) (handleUpgradeEnding E s)" if "?sub = UpgradeEnding"
    by (rule fine_handleUpgradeEnding [OF _ s]) (rule V, simp add: that upgrade_step.released)
  have down: "stays (reached fine ?V s) (handleUpgradeScalingDown E s)" if "?sub = UpgradeScalingDown"
    by (rule fine_handleUpgradeScalingDown [OF _ _ s]) (rule V, simp add: that upgrade_step.finished)+
  show ?thesis
    unfolding v using start up drain recycle ending down
    by (cases ?sub) (simp_all add: handleRollingUpgrade_def rolling_substatus_def)
qed

lemma rolling_upgrade_step:
  assumes "handleRollingUpgrade E s = Some (r, s')" and "status_of (cfg s) = Upgrading"
  shows "fine (cfg s') = fine (cfg s) \<or> upgrade_step (primaries (spec_of s)) (fine (cfg s)) (fine (cfg s'))"
  using reached_writes [OF staysD [OF fine_handleRollingUpgrade [OF assms(2)] assms(1)]]
  by (simp add: next_views_def)

text \<open>C2: a rolling upgrade refines the machine: whatever the servers and the API answer, one pass leaves
  status, substatus and partition as they were or takes exactly one step of the machine, and every
  status it writes on the way records the one or the other - so an interrupted upgrade resumes where it
  was, and the order of scaling up, draining, recycling, returning the slots and scaling down is never
  left.\<close>

theorem rolling_upgrade_refines_machine:
  assumes "handleRollingUpgrade E s = Some (r, s')" and "status_of (cfg s) = Upgrading"
  shows "(fine (cfg s') = fine (cfg s) \<or> upgrade_step (primaries (spec_of s)) (fine (cfg s)) (fine (cfg s')))
    \<and> (\<forall>c w. StatusWrite c w \<in> set (new_events s s') \<longrightarrow>
        fine c = fine (cfg s) \<or> upgrade_step (primaries (spec_of s)) (fine (cfg s)) (fine c))"
  using reached_writes [OF staysD [OF fine_handleRollingUpgrade [OF assms(2)] assms(1)]]
  by (simp add: next_views_def)

text \<open>In the environment where every request succeeds, the first pass of an upgrade gets through to the
  scaling up.\<close>

definition upgrading_st :: st where
  "upgrading_st = start_st\<lparr>cfg := start_config\<lparr>rc_Status := initial_status\<lparr>cs_Status := Upgrading\<rparr>\<rparr>\<rparr>"

definition succeeds :: "(st \<Rightarrow> err option op) \<Rightarrow> bool" where
  "succeeds m = (\<forall>s. \<exists>s'. m s = Some (None, s') \<and> cfg s' = cfg s)"

lemma calm_answers:
  "e_get_sts calm_env h = Inr empty_sts" "e_write calm_env h w = None" "e_get_owner calm_env h = Inr []"
  "e_get_cm calm_env h = Inr \<lparr>cm_Labels = None, cm_Annotations = None, cm_Data = None\<rparr>"
  "e_get_svc calm_env h = Inr empty_svc" "e_owner_ref calm_env h = None" "e_status calm_env h c = None"
  by (simp_all add: calm_env_def)

lemma calm_succeeds:
  "succeeds (UpdateConfigMap calm_env sp pw)" "succeeds (ReconcileService calm_env base_spec)"
  "succeeds (ReconcilePDB calm_env base_spec)" "succeeds (ScaleStatefulSet calm_env n)"
  "succeeds (UpdateStatefulSetTemplate calm_env [] base_spec chk)"
proof -
  obtain base where base: "desired_statefulset calm_env [] base_spec = Some (Inr base)"
    by (simp add: desired_statefulset_def buildStatefulSet_def base_spec_def applyStatefulSetOverride_def Let_def)
  obtain svc where svc: "desired_service calm_env base_spec = Inr svc"
    by (simp add: desired_service_def base_spec_def applyServiceOverride_def)
  show "succeeds (UpdateConfigMap calm_env sp pw)"
    by (simp add: succeeds_def UpdateConfigMap_def k8s_get_def k8s_write_def calm_answers Let_def failed_def)
  show "succeeds (ReconcileService calm_env base_spec)"
    by (simp add: succeeds_def ReconcileService_def ensureService_def svc k8s_get_def k8s_write_def calm_answers Let_def)
  show "succeeds (ReconcilePDB calm_env base_spec)"
    by (simp add: succeeds_def ReconcilePDB_def DeletePDB_def or_wrap_def k8s_write_def calm_answers base_spec_def
        delete_failed_def Let_def)
  show "succeeds (ScaleStatefulSet calm_env n)"
    by (simp add: succeeds_def ScaleStatefulSet_def k8s_get_def k8s_write_def calm_answers failed_def Let_def)
  show "succeeds (UpdateStatefulSetTemplate calm_env [] base_spec chk)"
    by (simp add: succeeds_def UpdateStatefulSetTemplate_def base k8s_get_def k8s_write_def calm_answers Let_def failed_def)
qed

lemma or_fail_succeeds:
  "succeeds m \<Longrightarrow> (\<And>s. cfg s = c \<Longrightarrow> \<exists>r s'. k s = Some (r, s') \<and> Q s') \<Longrightarrow> cfg s = c
   \<Longrightarrow> \<exists>r s'. or_fail ctx m k s = Some (r, s') \<and> Q s'"
  unfolding succeeds_def or_fail_def by (metis (no_types, lifting) bind.bind_lunit option.case(1) prod.case)

lemma first_pass:
  "\<exists>r s'. handleRollingUpgrade calm_env upgrading_st = Some (r, s') \<and> fine (cfg s') = (Upgrading, UpgradeScalingUp, 0)"
proof -
  let ?c = "cfg upgrading_st"
  have sp: "rc_Spec ?c = base_spec" by (simp add: upgrading_st_def start_config_def)
  have sub: "substatus_of ?c = SubEmpty" by (simp add: upgrading_st_def initial_status_def)
  have pw: "getPassword calm_env base_spec s = Some ([], s)" for s
    by (simp add: getPassword_def GetRedisPassword_def base_spec_def)
  have owner: "getOwner calm_env s = Some (Inr [], log (Read GetOwner) s)" for s
    by (simp add: getOwner_def k8s_get_def calm_answers)
  have last: "\<exists>r s'. andthen (updateSubstatus calm_env UpgradeScalingUp) (ends reconcileAfterWaitInterval) s = Some (r, s')
      \<and> fine (cfg s') = (Upgrading, UpgradeScalingUp, 0)" if "cfg s = ?c" for s
    by (simp add: andthen_def updateSubstatus_def that sub calm_status ends_def set_status_def fine_def)
      (simp add: upgrading_st_def initial_status_def)
  let ?k = "\<lambda>s. or_fail ''scaling up for rolling upgrade''
      (ScaleStatefulSet calm_env (total_replicas32 (spec_of s) + upgradeExtraNodes (spec_of s)))
      (andthen (updateSubstatus calm_env UpgradeScalingUp) (ends reconcileAfterWaitInterval)) s"
  have scale: "\<exists>r s'. ?k s = Some (r, s') \<and> fine (cfg s') = (Upgrading, UpgradeScalingUp, 0)" if "cfg s = ?c" for s
    by (rule or_fail_succeeds [where c = ?c, OF calm_succeeds(4) last that])
  have objects: "\<exists>r s'. update_objects calm_env kind ?k [] s = Some (r, s') \<and> fine (cfg s') = (Upgrading, UpgradeScalingUp, 0)"
    if "cfg s = ?c" for s kind
    unfolding update_objects_def
    by (intro or_fail_succeeds [where c = ?c] scale that; simp add: that sp calm_succeeds)
  have "\<exists>r s'. handleUpgradeStart calm_env upgrading_st = Some (r, s') \<and> fine (cfg s') = (Upgrading, UpgradeScalingUp, 0)"
    unfolding handleUpgradeStart_def sp pw Option.bind.simps prod.case
    by (rule or_fail_succeeds [OF calm_succeeds(1) _ refl]) (simp add: get_or_fail_def owner objects del: split_paired_Ex)
  then show ?thesis by (simp add: handleRollingUpgrade_def sub)
qed

lemma rolling_upgrade_refines_machine_witness:
  "\<exists>s' :: st. fine (cfg s') \<noteq> (Upgrading, SubEmpty, 0) \<and> upgrade_step 3 (Upgrading, SubEmpty, 0) (fine (cfg s'))"
proof -
  obtain r s' where p: "handleRollingUpgrade calm_env upgrading_st = Some (r, s')"
    and f: "fine (cfg s') = (Upgrading, UpgradeScalingUp, 0)" using first_pass by blast
  have u: "status_of (cfg upgrading_st) = Upgrading" and v: "fine (cfg upgrading_st) = (Upgrading, SubEmpty, 0)"
    and n: "primaries (spec_of upgrading_st) = 3"
    by (simp_all add: upgrading_st_def initial_status_def fine_def start_config_def base_spec_def primaries_def)
  from conjunct1 [OF rolling_upgrade_refines_machine [OF p u]] f show ?thesis
    unfolding v n by (intro exI [of _ s']) simp
qed

section \<open>An upgrade takes boundedly many steps\<close>

text \<open>A run of an upgrade: the states in which consecutive cycles find the configuration. While its status
  is Upgrading, each cycle is a pass of the handler, in an environment of its own, and the next cycle
  finds either what the pass left in memory or, when its writes failed, what was there before.\<close>

definition upgrade_run :: "int \<Rightarrow> (nat \<Rightarrow> st) \<Rightarrow> bool" where
  "upgrade_run n S = (\<forall>i. primaries (spec_of (S i)) = n \<and>
     (fine (cfg (S (Suc i))) = fine (cfg (S i)) \<or> status_of (cfg (S i)) = Upgrading \<and>
       (\<exists>E r s'. handleRollingUpgrade E (S i) = Some (r, s') \<and> fine (cfg (S (Suc i))) = fine (cfg s'))))"

lemma upgrade_run_step:
  "upgrade_run n S \<Longrightarrow> fine (cfg (S (Suc i))) = fine (cfg (S i)) \<or> upgrade_step n (fine (cfg (S i))) (fine (cfg (S (Suc i))))"
  unfolding upgrade_run_def using rolling_upgrade_step by metis

text \<open>C9: a rolling upgrade cannot go round in circles: however the environment behaves, at most
  \<open>2 * (n - 1) + 6\<close> cycles of the upgrade of \<open>n\<close> primaries change the recorded progress (one each to start,
  to extend the cluster, to return the slots, to scale down and to finish, and two for each primary),
  and the partition always names one of the primaries.\<close>

theorem rolling_upgrade_bounded:
  assumes "upgrade_run n S" and "0 < n" and "valid_partition n (fine (cfg (S 0)))"
  shows "length (filter (\<lambda>i. fine (cfg (S (Suc i))) \<noteq> fine (cfg (S i))) [0..<m]) \<le> 2 * nat (n - 1) + 6
    \<and> valid_partition n (fine (cfg (S m)))"
proof -
  have "length (filter (\<lambda>i. fine (cfg (S (Suc i))) \<noteq> fine (cfg (S i))) [0..<m]) + rank n (fine (cfg (S m)))
      \<le> rank n (fine (cfg (S 0))) \<and> valid_partition n (fine (cfg (S m)))"
  proof (induction m)
    case (Suc m)
    show ?case
    proof (cases "fine (cfg (S (Suc m))) = fine (cfg (S m))")
      case False
      then have step: "upgrade_step n (fine (cfg (S m))) (fine (cfg (S (Suc m))))"
        using upgrade_run_step [OF assms(1), of m] by simp
      show ?thesis using Suc False upgrade_step_rank [OF step] upgrade_step_valid [OF step assms(2)] by simp
    qed (use Suc in simp)
  qed (simp add: assms(3))
  moreover have "rank n (fine (cfg (S 0))) \<le> 2 * nat (n - 1) + 6"
    using assms(3) by (auto simp: fine_def valid_partition_def split: substatus_name.splits)
  ultimately show ?thesis by linarith
qed

text \<open>The run of one pass, after which nothing happens.\<close>

definition one_step_run :: "nat \<Rightarrow> st" where
  "one_step_run i = (if i = 0 then upgrading_st else snd (the (handleRollingUpgrade calm_env upgrading_st)))"

lemma one_step_run: "upgrade_run 3 one_step_run"
proof -
  obtain r s' where p: "handleRollingUpgrade calm_env upgrading_st = Some (r, s')"
    and f: "fine (cfg s') = (Upgrading, UpgradeScalingUp, 0)" using first_pass by blast
  have u: "status_of (cfg upgrading_st) = Upgrading" and n: "primaries (spec_of upgrading_st) = 3"
    by (simp_all add: upgrading_st_def initial_status_def start_config_def base_spec_def primaries_def)
  have "spec_of s' = spec_of upgrading_st"
    using reached_writes [OF staysD [OF fine_handleRollingUpgrade [OF u] p]] by simp
  then have n': "primaries (spec_of s') = 3" using n by simp
  have zero: "one_step_run 0 = upgrading_st" and later: "one_step_run (Suc i) = s'" for i
    by (simp_all add: one_step_run_def p)
  have "\<exists>E r s'. handleRollingUpgrade E upgrading_st = Some (r, s') \<and> fine (cfg (one_step_run (Suc 0))) = fine (cfg s')"
    unfolding later using p by blast
  then show ?thesis unfolding upgrade_run_def
    by (intro allI, rename_tac i, case_tac i) (simp_all add: zero later n n' u)
qed

lemma rolling_upgrade_bounded_witness:
  "length (filter (\<lambda>i. fine (cfg (one_step_run (Suc i))) \<noteq> fine (cfg (one_step_run i))) [0..<7]) \<le> 10
    \<and> valid_partition 3 (fine (cfg (one_step_run 7)))"
proof -
  have "valid_partition 3 (fine (cfg (one_step_run 0)))"
    by (simp add: one_step_run_def upgrading_st_def initial_status_def fine_def valid_partition_def)
  from rolling_upgrade_bounded [OF one_step_run _ this, of 7] show ?thesis by simp
qed

end
