(* ===== verification/Upgrade_Deletions.thy ===== *)
theory Upgrade_Deletions
  imports Upgrade_Machine Pass_Frames
begin

text \<open>
  Which pods a rolling upgrade deletes, and what it did to them before. Deleting a pod of a Redis cluster
  loses its memory, so a pass may delete only pods that run an outdated template, one at a time, and a
  persistent one only after its dataset was emptied, its cluster state reset and the result saved. The
  invariant \<open>one_deletion\<close> holds in every state of a pass; it is built from \<open>calm\<close>, the states before the
  deletion, by the frames of the locale \<open>recording\<close>.
\<close>

definition undeleting :: "event \<Rightarrow> bool" where
  "undeleting e = (\<not> pod_deletion e)"

text \<open>No pod was deleted since \<open>s0\<close>, and the specification is still the one of \<open>s0\<close>.\<close>

definition calm :: "st \<Rightarrow> st \<Rightarrow> bool" where
  "calm s0 s = (grows undeleting s0 s \<and> spec_of s = spec_of s0)"

lemma calm_refl [simp, intro]: "calm s s"
  by (simp add: calm_def)

lemma calm_trans: "calm a b \<Longrightarrow> calm b c \<Longrightarrow> calm a c"
  unfolding calm_def using grows_trans by metis

lemma calm_of_passes: "passes s s' \<Longrightarrow> calm s s'"
  unfolding calm_def passes_def using grows_mono [of harmless s s' undeleting]
  by (auto simp: harmless_def destructive_def undeleting_def)

section \<open>The one deletion\<close>

text \<open>A pod whose template was seen to be outdated during the pass: its revision hash, as some read told, is
  not the update revision some read of the StatefulSet told. The environment's answers are given by the
  history at the time of the request.\<close>

definition pod_hash :: "pod \<Rightarrow> string" where
  "pod_hash p = (case entries (po_PodLabels p) PodTemplateHashLabel of None \<Rightarrow> [] | Some h \<Rightarrow> h)"

definition seen :: "st \<Rightarrow> st \<Rightarrow> history \<Rightarrow> bool" where
  "seen s0 s h = (suffix (hist s0) h \<and> suffix h (hist s))"

definition update_revision :: "env \<Rightarrow> st \<Rightarrow> st \<Rightarrow> string \<Rightarrow> bool" where
  "update_revision E s0 s rev' = (\<exists>h sts. seen s0 s h \<and> e_get_sts E h = Inr sts \<and> ss_UpdateRevision sts = rev')"

definition outdated :: "env \<Rightarrow> st \<Rightarrow> string \<Rightarrow> st \<Rightarrow> bool" where
  "outdated E s0 n s = (\<exists>rev' h p. update_revision E s0 s rev' \<and> seen s0 s h \<and> e_get_pod E h n = Inr p \<and> pod_hash p \<noteq> rev')"

text \<open>The last two events, both acknowledged: the reset of the node and the save of what is left of it,
  at the address the API gave for the pod.\<close>

definition saved :: "env \<Rightarrow> st \<Rightarrow> string \<Rightarrow> st \<Rightarrow> bool" where
  "saved E s0 n s = (\<exists>addr pw es h pods. hist s = Command addr pw Save None # Command addr pw (Reset True) None # es
     \<and> suffix (hist s0) es \<and> seen s0 s h \<and> e_list_pods E h = Inr pods \<and> map_of (pod_addresses pods []) n = Some addr)"

definition deletable :: "env \<Rightarrow> st \<Rightarrow> string \<Rightarrow> st \<Rightarrow> bool" where
  "deletable E s0 n s = (outdated E s0 n s \<and> (sp_Ephemeral (spec_of s0) \<or> saved E s0 n s))"

definition one_deletion :: "env \<Rightarrow> string set \<Rightarrow> st \<Rightarrow> st \<Rightarrow> bool" where
  "one_deletion E N s0 s = (calm s0 s \<or>
     (\<exists>t n w. calm s0 t \<and> n \<in> N \<and> deletable E s0 n t \<and> calm (log (Write (DeletePodObj n) w) t) s))"

interpretation calm: recording "calm s0" for s0
  by unfold_locales (rule calm_trans [OF _ calm_of_passes])

lemma one_deletion_trans: "one_deletion E N s0 s \<Longrightarrow> calm s s' \<Longrightarrow> one_deletion E N s0 s'"
  unfolding one_deletion_def using calm_trans by blast

interpretation one_deletion: recording "one_deletion E N s0" for E N s0
  by unfold_locales (rule one_deletion_trans [OF _ calm_of_passes])

lemma calm_suffix: "calm a b \<Longrightarrow> suffix (hist a) (hist b)"
  by (auto simp: calm_def grows_def suffix_def)

lemma seen_later: "seen s0 s h \<Longrightarrow> calm s s' \<Longrightarrow> seen s0 s' h"
  using calm_suffix unfolding seen_def by (metis suffix_order.trans)

text \<open>The state before a deletion, with what was learnt so far.\<close>

definition knowing :: "(st \<Rightarrow> bool) \<Rightarrow> st \<Rightarrow> st \<Rightarrow> bool" where
  "knowing K s0 s = (calm s0 s \<and> (\<exists>t. calm s0 t \<and> K t \<and> calm t s))"

interpretation knowing: recording "knowing K s0" for K s0
  by unfold_locales (auto simp: knowing_def dest: calm_of_passes intro: calm_trans)

lemma outdated_later: "knowing (outdated E s0 n) s0 s \<Longrightarrow> outdated E s0 n s"
  unfolding knowing_def outdated_def update_revision_def using seen_later by blast

lemma one_of_calm: "calm s0 s \<Longrightarrow> one_deletion E N s0 s"
  by (simp add: one_deletion_def)

lemma one_of_stays: "stays (calm s0) m \<Longrightarrow> stays (one_deletion E N s0) m"
  by (erule stays_mono) (rule one_of_calm)

lemma flush_saves:
  assumes "flushAndPersistNode E addr pw s = Some (None, s')"
  shows "\<exists>es. hist s' = Command addr pw Save None # Command addr pw (Reset True) None # es \<and> suffix (hist s) es"
proof -
  have "grows (\<lambda>e. True) s s1" if "ClientIsReplica E (addr, pw) s = Some (r, s1)" for r s1
    using that by (auto simp: ClientIsReplica_def info_test_def info_section_def redis_query_def split: sum.splits bind_splits)
  then have q: "suffix (hist s) (hist s1)" if "ClientIsReplica E (addr, pw) s = Some (r, s1)" for r s1
    using that by (fastforce simp: grows_def suffix_def)
  show ?thesis
    using assms q
    by (fastforce simp: flushAndPersistNode_def get_or_err_def or_wrap_def ClientFlushAll_def ClusterReset_def ClientSave_def
        command_def wrapped_def redis_do_def Let_def suffix_def log_def split: sum.splits bind_splits option.splits if_splits)
qed

lemma delete_step:
  assumes "calm s0 s" and "n \<in> N" and "deletable E s0 n s"
  shows "stays (one_deletion E N s0) (DeletePod E n s)"
  using assms
  by (auto simp: DeletePod_def k8s_write_def Let_def stays_def one_deletion_def)

lemma delete_now:
  "calm s0 s \<Longrightarrow> n \<in> N \<Longrightarrow> deletable E s0 n s \<Longrightarrow> stays (one_deletion E N s0) (or_fail c (DeletePod E n) (ends sch) s)"
  by (rule stays_or_result(1), erule delete_step, assumption+)
    (rule stays_ends, rule staysD [OF delete_step], assumption+)

lemma getPodAddr_seen:
  assumes "getPodAddr E i s = Some (Inr addr, s1)"
  shows "\<exists>pods. e_list_pods E (hist s) = Inr pods \<and> map_of (pod_addresses pods []) (pod_name E i) = Some addr
    \<and> s1 = log (Read ListPods) s"
  using assms by (auto simp: getPodAddr_def GetPodAddresses_def k8s_get_def split: sum.splits option.splits bind_splits)

lemma flush_calm: "calm s0 s \<Longrightarrow> stays (calm s0) (flushAndPersistNode E a pw s)"
  by (rule calm.frame_flush)

lemma calm_log: "calm s0 s \<Longrightarrow> undeleting e \<Longrightarrow> calm s0 (log e s)"
  by (simp add: calm_def)

lemma flushed_saved:
  assumes s: "calm s0 s" and a: "getPodAddr E i s = Some (Inr addr, s1)" and f: "flushAndPersistNode E addr pw s1 = Some (None, s2)"
  shows "saved E s0 (pod_name E i) s2"
proof -
  obtain pods where pods: "e_list_pods E (hist s) = Inr pods" "map_of (pod_addresses pods []) (pod_name E i) = Some addr"
    and s1: "s1 = log (Read ListPods) s" using getPodAddr_seen [OF a] by blast
  obtain es where es: "hist s2 = Command addr pw Save None # Command addr pw (Reset True) None # es" "suffix (hist s1) es"
    using flush_saves [OF f] by blast
  have "suffix (hist s0) (hist s)" using calm_suffix [OF s] .
  moreover have "suffix (hist s) es" using es(2) s1 by (simp add: suffix_ConsD)
  ultimately have "suffix (hist s0) es" "seen s0 s2 (hist s)"
    unfolding seen_def es(1) using suffix_order.trans by (blast intro: suffix_ConsI)+
  then show ?thesis unfolding saved_def using es(1) pods by blast
qed

lemma knowing_calm: "knowing K s0 s \<Longrightarrow> calm s0 s"
  by (simp add: knowing_def)

lemma delete_drained_once:
  assumes k: "knowing (outdated E s0 (pod_name E part)) s0 s" and N: "pod_name E part \<in> N" and part: "i32 part = part"
  shows "stays (one_deletion E N s0) (delete_drained E part s)"
proof (cases "sp_Ephemeral (spec_of s)")
  case True
  then have "deletable E s0 (pod_name E part) s"
    using outdated_later [OF k] knowing_calm [OF k] by (simp add: deletable_def calm_def)
  then show ?thesis using True delete_now [OF knowing_calm [OF k] N]
    by (simp add: delete_drained_def flush_drained_def)
next
  case False
  have after: "stays (one_deletion E N s0)
      (or_fail c (DeletePod E (pod_name E part)) (ends sch) s3)"
    if k1: "knowing (outdated E s0 (pod_name E part)) s0 s1" and a: "getPodAddr E part s1 = Some (Inr addr, s2)"
      and f: "flushAndPersistNode E addr pw s2 = Some (None, s3)" for s1 s2 s3 addr pw c sch
  proof -
    have k2: "knowing (outdated E s0 (pod_name E part)) s0 s2" using staysD [OF knowing.frame_getPodAddr(1) [OF k1] a] .
    have k3: "knowing (outdated E s0 (pod_name E part)) s0 s3" using staysD [OF knowing.frame_flush(2) [OF k2] f] .
    show ?thesis
      using delete_now [OF knowing_calm [OF k3] N] outdated_later [OF k3] flushed_saved [OF knowing_calm [OF k1] a f]
      by (simp add: deletable_def)
  qed
  show ?thesis
    unfolding delete_drained_def flush_drained_def part if_not_P [OF False]
  proof (rule stays_seq [where I = "knowing (outdated E s0 (pod_name E part)) s0"], rule knowing.frame_owner_password(2) [OF k])
    fix pw s1
    assume k1: "knowing (outdated E s0 (pod_name E part)) s0 s1"
    show "stays (one_deletion E N s0) (get_or_fail ''getting drained primary address for flush'' (getPodAddr E part)
        (\<lambda>drainedAddr. or_retry (flushAndPersistNode E drainedAddr pw)
          (or_fail (''deleting pod '' @ pod_name E part) (DeletePod E (pod_name E part)) (ends reconcileAfterWaitInterval))) s1)"
    proof (rule stays_get_result(1))
      show "stays (one_deletion E N s0) (getPodAddr E part s1)"
        by (rule one_of_stays [OF calm.frame_getPodAddr(1) [OF knowing_calm [OF k1]]])
      fix addr s2
      assume a: "getPodAddr E part s1 = Some (Inr addr, s2)"
      have "calm s0 s2" using staysD [OF calm.frame_getPodAddr(1) [OF knowing_calm [OF k1]] a] .
      then show "stays (one_deletion E N s0) (or_retry (flushAndPersistNode E addr pw)
          (or_fail (''deleting pod '' @ pod_name E part) (DeletePod E (pod_name E part)) (ends reconcileAfterWaitInterval)) s2)"
        by (intro stays_or_result(2) one_of_stays [OF flush_calm] after [OF k1 a])
    qed
  qed
qed

section \<open>The replicas of the recycled primary\<close>

lemma revision_read:
  assumes "GetPodControllerRevisionHash E i s = Some (Inr h, s1)"
  shows "\<exists>p. e_get_pod E (hist s) (pod_name E i) = Inr p \<and> pod_hash p = h \<and> s1 = log (Read (GetPod (pod_name E i))) s"
  using assms
  by (auto simp: GetPodControllerRevisionHash_def get_pod_def k8s_get_def pod_hash_def split: sum.splits)

lemma target_read:
  assumes "GetStatefulSetUpdateRevision E s = Some (Inr rev', s1)" and "calm s0 s"
  shows "knowing (\<lambda>t. update_revision E s0 t rev') s0 s1"
proof -
  have s1: "s1 = log (Read GetStatefulSet) s" and e: "\<exists>sts. e_get_sts E (hist s) = Inr sts \<and> ss_UpdateRevision sts = rev'"
    using assms(1) by (auto simp: GetStatefulSetUpdateRevision_def k8s_get_def split: sum.splits)
  have c: "calm s0 s1" unfolding s1 by (rule calm_log [OF assms(2)]) (simp add: undeleting_def)
  moreover have "seen s0 s1 (hist s)" using calm_suffix [OF assms(2)] by (simp add: seen_def s1 suffix_ConsI)
  ultimately show ?thesis unfolding knowing_def update_revision_def using e by blast
qed

lemma outdated_read:
  assumes "knowing (\<lambda>t. update_revision E s0 t rev') s0 s" and "GetPodControllerRevisionHash E i s = Some (Inr h, s1)"
    and "h \<noteq> rev'"
  shows "knowing (outdated E s0 (pod_name E i)) s0 s1"
proof -
  obtain p where p: "e_get_pod E (hist s) (pod_name E i) = Inr p" "pod_hash p = h" and s1: "s1 = log (Read (GetPod (pod_name E i))) s"
    using revision_read [OF assms(2)] by blast
  have c: "calm s0 s" using knowing_calm [OF assms(1)] .
  then have c1: "calm s0 s1" unfolding s1 by (rule calm_log) (simp add: undeleting_def)
  obtain t h' sts where t: "calm s0 t" "calm t s" "seen s0 t h'" "e_get_sts E h' = Inr sts" "ss_UpdateRevision sts = rev'"
    using assms(1) by (auto simp: knowing_def update_revision_def)
  have "calm t s1" unfolding s1 by (rule calm_log [OF t(2)]) (simp add: undeleting_def)
  then have "update_revision E s0 s1 rev'" using seen_later [OF t(3)] t(4,5) unfolding update_revision_def by blast
  moreover have "seen s0 s1 (hist s)" using calm_suffix [OF c] by (simp add: seen_def s1 suffix_ConsI)
  ultimately have "outdated E s0 (pod_name E i) s1" using p assms(3) unfolding outdated_def by blast
  then show ?thesis using c1 by (auto simp: knowing_def)
qed

text \<open>The outcome of a step that ends with an error once it deleted a pod.\<close>

definition stops :: "env \<Rightarrow> string set \<Rightarrow> st \<Rightarrow> (st \<Rightarrow> bool) \<Rightarrow> err option op \<Rightarrow> bool" where
  "stops E N s0 J m = post m (\<lambda>r s. one_deletion E N s0 s \<and> (r = None \<longrightarrow> J s))"

lemma stops_stays: "stays J m \<Longrightarrow> (\<And>s. J s \<Longrightarrow> calm s0 s) \<Longrightarrow> stops E N s0 J m"
  by (auto simp: stops_def post_def stays_def one_of_calm)

lemma stops_fails: "stays (one_deletion E N s0) m \<Longrightarrow> (\<And>s. m \<noteq> Some (None, s)) \<Longrightarrow> stops E N s0 J m"
  by (auto simp: stops_def post_def stays_def)

lemma stops_get:
  "stays (calm s0) (m s) \<Longrightarrow> (\<And>x s1. m s = Some (Inr x, s1) \<Longrightarrow> stops E N s0 J (k x s1)) \<Longrightarrow> stops E N s0 J (get_or_err c m k s)"
  unfolding get_or_err_def
  by (cases "m s") (auto simp: stops_def post_def stays_def one_of_calm split: sum.splits)

lemma delete_outdated_stops:
  assumes k: "knowing (outdated E s0 (pod_name E i)) s0 s" and N: "pod_name E i \<in> N"
  shows "stays (one_deletion E N s0) (do { (e, s) \<leftarrow> delete_outdated E i pw s;
     if e \<noteq> None then Some (e, s)
     else or_wrap c (DeletePod E (pod_name E i)) (\<lambda>s. Some (Some msg, s)) s })"
proof -
  have d0: "deletable E s0 (pod_name E i) s1 \<and> calm s0 s1" if "delete_outdated E i pw s = Some (None, s1)" for s1
  proof (cases "sp_Ephemeral (spec_of s)")
    case True
    then have "s1 = s" using that by (simp add: delete_outdated_def)
    then show ?thesis using True outdated_later [OF k] knowing_calm [OF k] by (simp add: deletable_def calm_def)
  next
    case False
    from that obtain addr s2 where a: "getPodAddr E i s = Some (Inr addr, s2)"
      and f: "flushAndPersistNode E addr pw s2 = Some (None, s1)"
      by (auto simp: delete_outdated_def False get_or_err_def or_wrap_def split: bind_splits sum.splits option.splits)
    have k1: "knowing (outdated E s0 (pod_name E i)) s0 s1" using staysD [OF knowing.frame_reattach(3) [OF k] that] .
    show ?thesis using flushed_saved [OF knowing_calm [OF k] a f] outdated_later [OF k1] knowing_calm [OF k1]
      by (simp add: deletable_def)
  qed
  have "stays (one_deletion E N s0) (or_wrap c (DeletePod E (pod_name E i)) (\<lambda>s. Some (Some msg, s)) s1)"
    if "delete_outdated E i pw s = Some (None, s1)" for s1
  proof -
    have d: "stays (one_deletion E N s0) (DeletePod E (pod_name E i) s1)"
      by (rule delete_step [OF _ N]) (simp_all add: d0 [OF that])
    show ?thesis by (rule stays_or_result(3), rule d, rule stays_Some, rule staysD [OF d])
  qed
  moreover have "stays (one_deletion E N s0) (delete_outdated E i pw s)"
    by (rule one_of_stays [OF calm.frame_reattach(3) [OF knowing_calm [OF k]]])
  ultimately show ?thesis by (cases "delete_outdated E i pw s") (auto simp: stays_def split: if_splits)
qed

lemma recycle_replica_stops:
  assumes k: "knowing (\<lambda>t. update_revision E s0 t rev') s0 s" and N: "pod_name E i \<in> N"
  shows "stops E N s0 (knowing (\<lambda>t. update_revision E s0 t rev') s0) (recycle_replica E p c pid rev' pw i s)"
  unfolding recycle_replica_def
proof (rule stops_get)
  show "stays (calm s0) (GetPodControllerRevisionHash E i s)" using knowing_calm [OF k] by (intro stays_intro)
  fix h s1
  assume h: "GetPodControllerRevisionHash E i s = Some (Inr h, s1)"
  obtain q where "s1 = log (Read (GetPod (pod_name E i))) s" using revision_read [OF h] by blast
  then have k1: "knowing (\<lambda>t. update_revision E s0 t rev') s0 s1" using k by (simp add: knowing.J_log)
  show "stops E N s0 (knowing (\<lambda>t. update_revision E s0 t rev') s0)
     ((if h \<noteq> rev'
       then \<lambda>s. do { (e, s) \<leftarrow> delete_outdated E i pw s;
                     if e \<noteq> None then Some (e, s)
                     else or_wrap (''deleting replica pod '' @ Itoa i) (DeletePod E (pod_name E i))
                       (\<lambda>s. Some (Some (''replica pod '' @ Itoa i @ '' deleted, waiting for recreation with new template''), s)) s }
       else get_or_err (''checking replica pod '' @ Itoa i @ '' readiness'') (IsPodOrdinalReady E i) (\<lambda>ready.
              if \<not> ready then (\<lambda>s. Some (Some (''replica pod '' @ Itoa i @ '' not ready yet''), s))
              else get_or_err (''getting replica '' @ Itoa i @ '' address'') (getPodAddr E i) (\<lambda>replicaAddr.
                     attach_replica E c pid replicaAddr pw (''meeting replica '' @ Itoa i)
                       (''replicating '' @ Itoa i @ '' to primary '' @ Itoa p)
                       (or_wrap (''waiting for replica '' @ Itoa i @ '' to sync with primary '' @ Itoa p)
                          (waitReplicaSynced E replicaAddr pw) (\<lambda>s. Some (None, s)))))) s1)"
  proof (cases "h = rev'")
    case True
    have "stays (knowing (\<lambda>t. update_revision E s0 t rev') s0) (get_or_err (''checking replica pod '' @ Itoa i @ '' readiness'') (IsPodOrdinalReady E i) (\<lambda>ready.
              if \<not> ready then (\<lambda>s. Some (Some (''replica pod '' @ Itoa i @ '' not ready yet''), s))
              else get_or_err (''getting replica '' @ Itoa i @ '' address'') (getPodAddr E i) (\<lambda>replicaAddr.
                     attach_replica E c pid replicaAddr pw (''meeting replica '' @ Itoa i)
                       (''replicating '' @ Itoa i @ '' to primary '' @ Itoa p)
                       (or_wrap (''waiting for replica '' @ Itoa i @ '' to sync with primary '' @ Itoa p)
                          (waitReplicaSynced E replicaAddr pw) (\<lambda>s. Some (None, s))))) s1)"
      by (intro stays_intro k1; assumption)
    then show ?thesis using True by (simp add: stops_stays knowing_calm)
  next
    case False
    note o1 = outdated_read [OF k h False]
    show ?thesis
      using stops_fails [OF delete_outdated_stops [OF o1 N]] False
      by (simp add: or_wrap_def split: bind_splits option.splits)
  qed
qed

lemma each_ordinal_stops:
  assumes "\<And>i s. i \<in> set ids \<Longrightarrow> J s \<Longrightarrow> stops E N s0 J (f i s)" and "J s" and "\<And>s. J s \<Longrightarrow> calm s0 s"
  shows "stops E N s0 J (each_ordinal f ids s)"
  using assms
proof (induction ids arbitrary: s)
  case (Cons i ids)
  have f: "stops E N s0 J (f i s)" using Cons.prems(1,2) by simp
  have "stops E N s0 J (each_ordinal f ids s1)" if "J s1" for s1
    using Cons.IH [OF _ that Cons.prems(3)] Cons.prems(1) by simp
  then show ?case using f
    by (cases "f i s") (auto simp: stops_def post_def split: option.splits)
qed (simp add: stops_def post_def one_of_calm)

lemma recycleReplicasForPrimary_stops:
  assumes s: "calm s0 s" and N: "pod_name E ` set (replica_ordinals (spec_of s0) part) \<subseteq> N"
  shows "stops E N s0 (calm s0) (recycleReplicasForPrimary E part pw s)"
  unfolding recycleReplicasForPrimary_def
proof (rule stops_get)
  show a: "stays (calm s0) (getPodAddr E (i32 part) s)" by (rule calm.frame_getPodAddr [OF s])
  fix addr s1
  assume "getPodAddr E (i32 part) s = Some (Inr addr, s1)"
  from staysD [OF a this] have s1: "calm s0 s1" .
  show "stops E N s0 (calm s0) (get_or_err (''getting primary '' @ Itoa part @ '' ID'') (ClusterMyID E (addr, pw)) (\<lambda>primaryID.
         get_or_err ''getting StatefulSet update revision'' (GetStatefulSetUpdateRevision E) (\<lambda>desiredRevision s.
           if desiredRevision = [] then Some (Some ''StatefulSet update revision not yet available'', s)
           else each_ordinal (recycle_replica E part (addr, pw) primaryID desiredRevision pw)
                  (replica_ordinals (spec_of s) part) s)) s1)"
  proof (rule stops_get)
    show b: "stays (calm s0) (ClusterMyID E (addr, pw) s1)" using s1 by (intro stays_intro)
    fix pid s2
    assume "ClusterMyID E (addr, pw) s1 = Some (Inr pid, s2)"
    from staysD [OF b this] have s2: "calm s0 s2" .
    show "stops E N s0 (calm s0) (get_or_err ''getting StatefulSet update revision'' (GetStatefulSetUpdateRevision E) (\<lambda>desiredRevision s.
           if desiredRevision = [] then Some (Some ''StatefulSet update revision not yet available'', s)
           else each_ordinal (recycle_replica E part (addr, pw) pid desiredRevision pw)
                  (replica_ordinals (spec_of s) part) s) s2)"
    proof (rule stops_get)
      show "stays (calm s0) (GetStatefulSetUpdateRevision E s2)" using s2 by (intro stays_intro)
      fix rev' s3
      assume "GetStatefulSetUpdateRevision E s2 = Some (Inr rev', s3)"
      note k = target_read [OF this s2]
      have sp: "spec_of s3 = spec_of s0" using knowing_calm [OF k] by (simp add: calm_def)
      have "stops E N s0 (knowing (\<lambda>t. update_revision E s0 t rev') s0)
          (each_ordinal (recycle_replica E part (addr, pw) pid rev' pw) (replica_ordinals (spec_of s3) part) s3)"
        by (rule each_ordinal_stops [OF recycle_replica_stops k]) (use N sp in \<open>auto intro: knowing_calm\<close>)
      then show "stops E N s0 (calm s0) (if rev' = [] then Some (Some ''StatefulSet update revision not yet available'', s3)
           else each_ordinal (recycle_replica E part (addr, pw) pid rev' pw) (replica_ordinals (spec_of s3) part) s3)"
        using knowing_calm [OF k] by (auto simp: stops_def post_def one_of_calm knowing_calm)
    qed
  qed
qed

section \<open>The pass\<close>

lemma stops_retry:
  "stops E N s0 (calm s0) (m s) \<Longrightarrow> (\<And>s. calm s0 s \<Longrightarrow> stays (one_deletion E N s0) (k s)) \<Longrightarrow> stays (one_deletion E N s0) (or_retry m k s)"
  unfolding or_retry_def
  by (cases "m s") (auto simp: stops_def post_def stays_def ends_def split: if_splits)

lemma rejoin_one_deletion:
  assumes s: "calm s0 s" and N: "pod_name E ` set (replica_ordinals (spec_of s0) part) \<subseteq> N"
  shows "stays (one_deletion E N s0) (rejoin_recycled E part pw n s)"
proof -
  have tail: "stays (one_deletion E N s0) (when_replicated (ensurePivotReplica E pw) (check_and_advance E part c) s)"
    if "calm s0 s" for c s
    by (rule one_of_stays, rule calm.frame_when_replicated [OF that]) (intro stays_intro; assumption)+
  have recycle: "stays (one_deletion E N s0) (when_replicated (recycleReplicasForPrimary E part pw)
      (when_replicated (ensurePivotReplica E pw) (check_and_advance E part c)) s)" if "calm s0 s" for c s
    unfolding when_replicated_def [of "recycleReplicasForPrimary E part pw"]
    by (intro stays_if stops_retry recycleReplicasForPrimary_stops tail that N; assumption)
  show ?thesis unfolding rejoin_recycled_def
    by (rule stays_step(2) [where I = "calm s0"], rule calm.frame_getPodAddr [OF s], erule one_of_calm,
        rule stays_step(1) [where I = "calm s0"], (intro stays_intro; assumption), erule one_of_calm,
        rule stays_step(5) [where I = "calm s0"], (intro stays_intro; assumption), erule recycle)
qed

lemma readmit_one_deletion:
  assumes s: "calm s0 s" and N: "pod_name E ` set (replica_ordinals (spec_of s0) part) \<subseteq> N"
  shows "stays (one_deletion E N s0) (readmit_pod E part s)"
  unfolding readmit_pod_def Let_def
proof (rule stays_step(2) [where I = "calm s0"])
  show "stays (calm s0) (IsPodOrdinalReady E (i32 part) s)" using s by (intro stays_intro)
  fix ready s
  assume s: "calm s0 s"
  have init: "stays (one_deletion E N s0) (do { (r, s) \<leftarrow> NodeInit E n a b s;
      if snd r \<noteq> None then ends reconcileAfterWaitInterval s else rejoin_recycled E part pw (fst r) s })"
    if "calm s0 s" for n a b s pw
    using that by (intro stays_seq [where I = "calm s0"] stays_if rejoin_one_deletion [OF _ N] stays_ends one_of_calm calm.frame_client; assumption?)
  show "stays (one_deletion E N s0) (if \<not> ready then ends reconcileAfterWaitInterval s
       else do { (password, s) \<leftarrow> getPassword E (spec_of s) s;
                 get_or_fail ''getting recycled pod address'' (getPodAddr E (i32 part)) (\<lambda>addr s.
                   do { (r, s) \<leftarrow> NodeInit E (Redis_Client.NewNode (pod_name E part) addr password)
                                      (cc_ConnectionMaxRetries (RuntimeClusterConfig (run s)))
                                      (seconds (cc_ConnectionBackOffSeconds (RuntimeClusterConfig (run s)))) s;
                           if snd r \<noteq> None then ends reconcileAfterWaitInterval s
                           else rejoin_recycled E part password (fst r) s }) s })"
    using s by (intro stays_if stays_ends one_of_calm stays_seq [where I = "calm s0"] stays_step(2) [where I = "calm s0"] init
        calm.frame_owner_password calm.frame_getPodAddr; assumption?)
qed (rule one_of_calm)

lemma rolling_update_one_deletion:
  assumes "i32 (cs_UpgradingPartition (rc_Status (cfg s0))) = cs_UpgradingPartition (rc_Status (cfg s0))"
    and "insert (pod_name E (cs_UpgradingPartition (rc_Status (cfg s0))))
      (pod_name E ` set (replica_ordinals (spec_of s0) (cs_UpgradingPartition (rc_Status (cfg s0))))) \<subseteq> N"
  shows "stays (one_deletion E N s0) (handleUpgradeRollingUpdate E s0)"
proof -
  let ?part = "cs_UpgradingPartition (rc_Status (cfg s0))"
  have step: "stays (one_deletion E N s0) (get_or_retry (GetPodControllerRevisionHash E (i32 ?part)) (\<lambda>actualRevision.
                     if actualRevision \<noteq> rev' then delete_drained E ?part else readmit_pod E ?part) s)"
    if k: "knowing (\<lambda>t. update_revision E s0 t rev') s0 s" for rev' s
  proof (rule stays_get_result(2))
    show r: "stays (one_deletion E N s0) (GetPodControllerRevisionHash E (i32 ?part) s)"
      using knowing_calm [OF k] by (intro one_of_stays stays_intro)
    fix h s1
    assume h: "GetPodControllerRevisionHash E (i32 ?part) s = Some (Inr h, s1)"
    have "stays (calm s0) (GetPodControllerRevisionHash E (i32 ?part) s)" using knowing_calm [OF k] by (intro stays_intro)
    from staysD [OF this h] have s1: "calm s0 s1" .
    show "stays (one_deletion E N s0) ((if h \<noteq> rev' then delete_drained E ?part else readmit_pod E ?part) s1)"
    proof (cases "h = rev'")
      case True
      then show ?thesis using readmit_one_deletion [OF s1] assms(2) by simp
    next
      case False
      then show ?thesis using delete_drained_once [OF outdated_read [OF k h False, unfolded assms(1)] _ assms(1)] assms(2) by simp
    qed
  qed
  have "stays (one_deletion E N s0) (get_or_fail c (GetStatefulSetUpdateRevision E) (\<lambda>rev'.
              if rev' = [] then ends reconcileAfterWaitInterval
              else get_or_retry (GetPodControllerRevisionHash E (i32 ?part)) (\<lambda>actualRevision.
                     if actualRevision \<noteq> rev' then delete_drained E ?part else readmit_pod E ?part)) s)" if s: "calm s0 s" for c s
  proof (rule stays_get_result(1))
    show "stays (one_deletion E N s0) (GetStatefulSetUpdateRevision E s)" using s by (intro one_of_stays stays_intro)
    fix rev' s1
    assume "GetStatefulSetUpdateRevision E s = Some (Inr rev', s1)"
    note k = target_read [OF this s]
    then show "stays (one_deletion E N s0) ((if rev' = [] then ends reconcileAfterWaitInterval
              else get_or_retry (GetPodControllerRevisionHash E (i32 ?part)) (\<lambda>actualRevision.
                     if actualRevision \<noteq> rev' then delete_drained E ?part else readmit_pod E ?part)) s1)"
      using step [OF k] one_of_calm [OF knowing_calm [OF k]] by (simp add: stays_ends)
  qed
  then show ?thesis unfolding handleUpgradeRollingUpdate_def Let_def heal_first_def
    by (intro stays_seq [where I = "calm s0"] calm.frame_topology calm_refl stays_if stays_ends one_of_calm; assumption?)
qed

lemma rolling_upgrade_calm:
  assumes "substatus_of (cfg s) \<noteq> UpgradeRollingUpdate"
  shows "stays (calm s) (handleRollingUpgrade E s)"
  using assms unfolding handleRollingUpgrade_def
  by (cases "substatus_of (cfg s)") (simp_all add: calm.frame_passes calm.frame_later_passes calm.frame_handleUpgradeScalingDown)

lemma grows_undeleting: "grows undeleting a b \<Longrightarrow> \<exists>es. hist b = es @ hist a \<and> filter pod_deletion es = []"
  by (auto simp: grows_def undeleting_def list_all_iff filter_empty_conv)

lemma outdated_suffix: "outdated E s0 n t \<Longrightarrow> suffix (hist t) (hist s) \<Longrightarrow> outdated E s0 n s"
proof -
  assume o1: "outdated E s0 n t" and t: "suffix (hist t) (hist s)"
  have "seen s0 s h" if "seen s0 t h" for h using that t unfolding seen_def by (metis suffix_order.trans)
  then show ?thesis using o1 unfolding outdated_def update_revision_def by blast
qed


text \<open>A pass that deletes the outdated pod of partition 0 of a persistent cluster.\<close>

definition recycling_env :: env where
  "recycling_env = calm_env\<lparr>e_query := (\<lambda>h a p q. if q = QNodes then Inl ''down'' else Inr []),
     e_get_sts := (\<lambda>h. Inr (empty_sts\<lparr>ss_UpdateRevision := ''new''\<rparr>)),
     e_get_pod := (\<lambda>h n. Inr \<lparr>po_Name = n, po_PodIP = ''10.0.0.1'', po_PodLabels = None, po_Ready = True, po_Images = []\<rparr>),
     e_list_pods := (\<lambda>h. Inr [\<lparr>po_Name = ''redkey-0'', po_PodIP = ''10.0.0.1'', po_PodLabels = None, po_Ready = True,
                              po_Images = []\<rparr>])\<rparr>"

definition recycling_st :: st where
  "recycling_st = start_st\<lparr>cfg := start_config\<lparr>rc_Spec := base_spec\<lparr>sp_Ephemeral := False\<rparr>,
     rc_Status := initial_status\<lparr>cs_Status := Upgrading, cs_Substatus := UpgradeRollingUpdate\<rparr>\<rparr>\<rparr>"

lemma recycling_answers:
  "e_query recycling_env h a p q = (if q = QNodes then Inl ''down'' else Inr [])"
  "e_get_sts recycling_env h = Inr (empty_sts\<lparr>ss_UpdateRevision := ''new''\<rparr>)"
  "e_get_pod recycling_env h n = Inr \<lparr>po_Name = n, po_PodIP = ''10.0.0.1'', po_PodLabels = None, po_Ready = True, po_Images = []\<rparr>"
  "e_list_pods recycling_env h = Inr [\<lparr>po_Name = ''redkey-0'', po_PodIP = ''10.0.0.1'', po_PodLabels = None, po_Ready = True, po_Images = []\<rparr>]"
  "e_order recycling_env h = []" "e_redis recycling_env h a p c = None" "e_write recycling_env h w = None" "e_cluster recycling_env = ''redkey''"
  by (simp_all add: recycling_env_def calm_env_def)

lemma recycling_fields: "cfg recycling_st = start_config\<lparr>rc_Spec := base_spec\<lparr>sp_Ephemeral := False\<rparr>,
     rc_Status := initial_status\<lparr>cs_Status := Upgrading, cs_Substatus := UpgradeRollingUpdate\<rparr>\<rparr>"
  "hist recycling_st = []"
 by (simp_all add: recycling_st_def start_st_def)

lemma recycling_pass:
  "\<exists>r s'. handleRollingUpgrade recycling_env recycling_st = Some (r, s')
    \<and> Write (DeletePodObj (pod_name recycling_env 0)) None \<in> set (new_events recycling_st s')"
  by (simp add: handleRollingUpgrade_def handleUpgradeRollingUpdate_def recycling_answers recycling_fields initial_status_def
    heal_first_def healTopology_def GetPodAddresses_def k8s_get_def map_order_def getPassword_def GetRedisPassword_def base_spec_def
    HealMembership_def GetClusterNodes_def redis_query_def pod_nodes_def Let_def
    get_or_fail_def get_or_retry_def or_retry_def or_fail_def get_or_err_def or_wrap_def delete_drained_def flush_drained_def DeletePod_def k8s_write_def
   GetStatefulSetUpdateRevision_def GetPodControllerRevisionHash_def get_pod_def entries_def getPodAddr_def flushAndPersistNode_def
   ClientIsReplica_def info_test_def info_section_def ClientFlushAll_def ClusterReset_def ClientSave_def command_def wrapped_def redis_do_def ends_def delete_failed_def new_events_def i32_def pod_name_def Itoa_zero)

end
