(* ===== verification/Formation.thy ===== *)
theory Formation
  imports Cluster_Ops
begin

text \<open>
  Forming a cluster divides the 16384 slots among its primaries: the loop of \<open>assignSlots\<close> against the partition into
  consecutive shares it is meant to make, also when it resumes after a pass that got only part of the way.
\<close>

section \<open>The shares\<close>

text \<open>The slots handed out in a stretch of history, oldest first: to which server, which slots.\<close>

fun slot_commands :: "event list \<Rightarrow> (string \<times> int list) list" where
  "slot_commands [] = []"
| "slot_commands (Command a pw (AddSlots xs) r # es) = (a, xs) # slot_commands es"
| "slot_commands (e # es) = slot_commands es"

lemma slot_commands_append [simp]: "slot_commands (es @ fs) = slot_commands es @ slot_commands fs"
  by (induction es rule: slot_commands.induct) simp_all

text \<open>Where the share of the \<open>i\<close>-th of \<open>n\<close> primaries starts: the first \<open>16384 mod n\<close> get one slot more.\<close>

definition slot_start :: "nat \<Rightarrow> nat \<Rightarrow> nat" where
  "slot_start n i = i * (16384 div n) + min i (16384 mod n)"

definition slot_share :: "nat \<Rightarrow> nat \<Rightarrow> int list" where
  "slot_share n i = map int [slot_start n i..<slot_start n (Suc i)]"

lemma slot_start_Suc: "slot_start n (Suc i) = slot_start n i + (16384 div n + (if i < 16384 mod n then 1 else 0))"
  by (auto simp: slot_start_def min_def)

lemma slot_start_end: "0 < n \<Longrightarrow> slot_start n n = 16384"
  using mod_less_divisor [of n 16384] mult_div_mod_eq [of n 16384] unfolding slot_start_def by linarith

lemma share_length: "length (slot_share n i) = 16384 div n \<or> length (slot_share n i) = 16384 div n + 1"
  by (simp add: slot_share_def slot_start_Suc)

lemma share_nonempty: "0 < n \<Longrightarrow> n \<le> 16384 \<Longrightarrow> slot_share n i \<noteq> []"
  by (simp add: slot_share_def slot_start_Suc div_greater_zero_iff)

lemma shares_upto: "concat (map (slot_share n) [0..<k]) = map int [0..<slot_start n k]"
proof (induction k)
  case (Suc k)
  have "[0..<slot_start n (Suc k)] = [0..<slot_start n k] @ [slot_start n k..<slot_start n (Suc k)]"
    using upt_add_eq_append [of 0 "slot_start n k"] by (simp only: slot_start_Suc le0)
  then have "map int [0..<slot_start n (Suc k)] = map int [0..<slot_start n k] @ slot_share n k"
    by (simp only: map_append slot_share_def)
  then show ?case using Suc by simp
qed (simp add: slot_start_def)

lemma share_of_eq: "nat (share_of (int n) (int i)) = slot_start n (Suc i) - slot_start n i"
proof -
  have "16384 div int n = int (16384 div n)" "16384 mod int n = int (16384 mod n)"
    by (simp_all add: zdiv_int zmod_int)
  then show ?thesis by (simp add: share_of_def slot_start_Suc clusterTotalSlots_def Let_def nat_add_distrib)
qed

lemma share_slots:
  "map (\<lambda>k. int (slot_start n i) + int k) [0..<nat (share_of (int n) (int i))] = slot_share n i"
  "int (slot_start n i) + share_of (int n) (int i) = int (slot_start n (Suc i))"
proof -
  have "map (\<lambda>k. k + slot_start n i) [0..<nat (share_of (int n) (int i))] = [slot_start n i..<slot_start n (Suc i)]"
    unfolding share_of_eq map_add_upt by (simp add: slot_start_Suc add.commute)
  from arg_cong [OF this, of "map int"]
  show "map (\<lambda>k. int (slot_start n i) + int k) [0..<nat (share_of (int n) (int i))] = slot_share n i"
    by (simp add: slot_share_def comp_def add.commute)
  have "0 \<le> share_of (int n) (int i)" by (cases "n = 0") (auto simp: share_of_def clusterTotalSlots_def Let_def pos_imp_zdiv_nonneg_iff intro: add_nonneg_nonneg)
  then show "int (slot_start n i) + share_of (int n) (int i) = int (slot_start n (Suc i))"
    using share_of_eq [of n i] slot_start_Suc [of n i] by linarith
qed

section \<open>The loop\<close>

lemma refresh_asks:
  "\<exists>n' e. NodeRefreshInfo E n s = Some ((n', e), log (Query (n_Addr n) (n_Password n) QNodes) s) \<and> n_Addr n' = n_Addr n"
  by (simp add: NodeRefreshInfo_def GetClusterNodes_def redis_query_def client_of_def refreshed_def split: sum.splits option.splits)

lemma add_slots_asks:
  "\<exists>e r. ClusterAddSlots E (client_of n) xs s = Some (e, log (Command (n_Addr n) (n_Password n) (AddSlots xs) r) s)"
  by (auto simp: ClusterAddSlots_def command_def redis_do_def client_of_def Let_def wrapped_def split: option.splits)

lemma filter_upt_Suc: "filter P [0..<Suc k] = (if P 0 then [0] else []) @ map Suc (filter (\<lambda>j. P (Suc j)) [0..<k])"
  by (simp add: upt_conv_Cons map_Suc_upt [symmetric] filter_map comp_def del: upt_Suc)

text \<open>\<open>gs\<close> are the positions of the primaries that are sent their share.\<close>

definition distributes :: "nat \<Rightarrow> nat \<Rightarrow> node list \<Rightarrow> st \<Rightarrow> node list \<times> err option \<Rightarrow> st \<Rightarrow> nat list \<Rightarrow> bool" where
  "distributes n i ps s r s' gs =
     (\<exists>es. hist s' = es @ hist s \<and> set gs \<subseteq> {..<length ps} \<and> sorted_wrt (<) gs
        \<and> slot_commands (rev es) = map (\<lambda>j. (n_Addr (ps ! j), slot_share n (i + j))) gs
        \<and> (snd r = None \<longrightarrow> length (fst r) = length ps \<and> gs = filter (\<lambda>j. n_Slots (fst r ! j) = []) [0..<length ps]))"

lemma distributes_Cons:
  assumes "distributes n (Suc i) ps s1 (ps', e) s' gs" and "hist s1 = es @ hist s"
    and "slot_commands (rev es) = (if n_Slots p' = [] then [(n_Addr p, slot_share n i)] else [])"
  shows "distributes n i (p # ps) s (p' # ps', e) s' ((if n_Slots p' = [] then [0] else []) @ map Suc gs)"
  using assms unfolding distributes_def
  by (auto simp: filter_upt_Suc sorted_wrt_map comp_def simp del: upt_Suc)

lemma assign_slots_loop_distributes:
  assumes n: "0 < n" "n \<le> 16384"
  shows "\<exists>r s' gs. assign_slots_loop E (int n) (int i) (int (slot_start n i)) ps s = Some (r, s') \<and> distributes n i ps s r s' gs"
proof (induction ps arbitrary: i s)
  case Nil
  have "distributes n i [] s ([], None) s []" by (simp add: distributes_def)
  then show ?case by auto
next
  case (Cons p ps)
  let ?rest = "\<lambda>s. assign_slots_loop E (int n) (int (Suc i)) (int (slot_start n (Suc i))) ps s"
  obtain p' e where r: "NodeRefreshInfo E p s = Some ((p', e), log (Query (n_Addr p) (n_Password p) QNodes) s)" (is "_ = Some (_, ?s1)")
    and p': "n_Addr p' = n_Addr p" using refresh_asks by blast
  obtain a r2 where a: "ClusterAddSlots E (client_of p') (slot_share n i) ?s1
      = Some (a, log (Command (n_Addr p) (n_Password p') (AddSlots (slot_share n i)) r2) ?s1)" (is "_ = Some (_, ?s2)")
    using add_slots_asks [of E p'] p' by metis
  have go: "\<exists>r s' gs. do { (rr, s) \<leftarrow> ?rest s1; Some ((p' # fst rr, snd rr), s) } = Some (r, s') \<and> distributes n i (p # ps) s r s' gs"
    if "hist s1 = es @ hist s" "slot_commands (rev es) = (if n_Slots p' = [] then [(n_Addr p, slot_share n i)] else [])" for s1 es
  proof -
    obtain ps' e s' gs where "?rest s1 = Some ((ps', e), s')" "distributes n (Suc i) ps s1 (ps', e) s' gs"
      using Cons.IH [of "Suc i" s1] by (metis surj_pair)
    with distributes_Cons [OF this(2) that] show ?thesis by auto
  qed
  have step: "assign_slots_loop E (int n) (int i) (int (slot_start n i)) (p # ps) s = (case e of
      Some x \<Rightarrow> Some ((p # ps, Some (wrap (''refreshing '' @ n_Name p @ '' info'') x)), ?s1)
    | None \<Rightarrow> if n_Slots p' \<noteq> [] then do { (rr, s) \<leftarrow> ?rest ?s1; Some ((p' # fst rr, snd rr), s) }
        else case a of Some x \<Rightarrow> Some ((p' # ps, Some (wrap (''assigning slots to '' @ n_Name p) x)), ?s2)
          | None \<Rightarrow> do { (rr, s) \<leftarrow> ?rest ?s2; Some ((p' # fst rr, snd rr), s) })"
    unfolding assign_slots_loop.simps Let_def share_slots r
    using a share_nonempty [OF n] by (cases e; cases a) (simp_all add: add.commute)
  show ?case
  proof (cases "e = None \<and> (n_Slots p' = [] \<longrightarrow> a = None)")
    case True
    then show ?thesis
      using step go [of ?s1 "[Query (n_Addr p) (n_Password p) QNodes]"]
        go [of ?s2 "[Command (n_Addr p) (n_Password p') (AddSlots (slot_share n i)) r2, Query (n_Addr p) (n_Password p) QNodes]"]
      by (cases "n_Slots p' = []") (simp_all add: log_def)
  next
    case False
    have "distributes n i (p # ps) s (p # ps, Some x) ?s1 []" for x by (simp add: distributes_def log_def)
    moreover have "distributes n i (p # ps) s (p' # ps, Some x) ?s2 [0]" for x by (simp add: distributes_def log_def)
    ultimately show ?thesis using False step by (cases e; cases a) auto
  qed
qed

lemma shares_apart: "i < j \<Longrightarrow> set (slot_share n i) \<inter> set (slot_share n j) = {}"
proof -
  assume "i < j"
  then have "slot_start n (Suc i) \<le> slot_start n j"
    by (rule lift_Suc_mono_le [rotated, OF Suc_leI]) (simp add: slot_start_Suc)
  then show ?thesis by (auto simp: slot_share_def)
qed

lemma distinct_shares: "sorted_wrt (<) gs \<Longrightarrow> distinct (concat (map (slot_share n) gs))"
proof (induction gs)
  case (Cons g gs)
  then have "set (slot_share n g) \<inter> set (concat (map (slot_share n) gs)) = {}"
    using shares_apart by fastforce
  moreover have "distinct (slot_share n g)" by (simp add: slot_share_def distinct_map)
  ultimately show ?case using Cons by simp
qed simp

text \<open>C18: dividing the slots: with at most as many primaries as slots, \<open>assignSlots\<close> returns, and the primaries it
  sends slots to are distinct and each gets its own share, floor or ceiling of 16384 divided by their number; so no slot
  is handed out twice. If it succeeds, exactly the primaries that reported no slots were sent theirs; so if none had
  any, every slot was handed out once.\<close>

theorem assignSlots_partitions:
  assumes "prims \<noteq> []" and "length prims \<le> 16384"
  shows "\<exists>prims' err s' gs. assignSlots E prims s = Some ((prims', err), s')
    \<and> slot_commands (new_events s s') = map (\<lambda>j. (n_Addr (prims ! j), slot_share (length prims) j)) gs
    \<and> set gs \<subseteq> {..<length prims} \<and> sorted_wrt (<) gs
    \<and> (\<forall>(a, xs) \<in> set (slot_commands (new_events s s')). length xs = 16384 div length prims \<or> length xs = 16384 div length prims + 1)
    \<and> distinct (concat (map snd (slot_commands (new_events s s'))))
    \<and> (err = None \<longrightarrow> length prims' = length prims \<and> gs = filter (\<lambda>j. n_Slots (prims' ! j) = []) [0..<length prims])
    \<and> (err = None \<and> (\<forall>p \<in> set prims'. n_Slots p = [])
         \<longrightarrow> concat (map snd (slot_commands (new_events s s'))) = map int [0..<16384])"
proof -
  let ?n = "length prims"
  have n: "0 < ?n" "?n \<le> 16384" using assms by auto
  obtain prims' err s' gs where r: "assign_slots_loop E (int ?n) 0 0 prims s = Some ((prims', err), s')"
    and d: "distributes ?n 0 prims s (prims', err) s' gs"
    using assign_slots_loop_distributes [OF n, of E 0 prims s] by (auto simp: slot_start_def)
  then have a: "assignSlots E prims s = Some ((prims', err), s')" using assms by (simp add: assignSlots_def)
  obtain es where es: "hist s' = es @ hist s" and cmds: "slot_commands (rev es) = map (\<lambda>j. (n_Addr (prims ! j), slot_share ?n j)) gs"
    and gs: "set gs \<subseteq> {..<?n}" "sorted_wrt (<) gs"
    and ok: "err = None \<longrightarrow> length prims' = ?n \<and> gs = filter (\<lambda>j. n_Slots (prims' ! j) = []) [0..<?n]"
    using d by (auto simp: distributes_def)
  have new: "new_events s s' = rev es" by (rule new_events_append [OF es])
  have snds: "map snd (slot_commands (rev es)) = map (slot_share ?n) gs" by (simp add: cmds)
  have all: "gs = [0..<?n]" if "err = None" "\<forall>p \<in> set prims'. n_Slots p = []"
    using ok that by (auto simp: filter_id_conv)
  show ?thesis
    by (intro exI [of _ prims'] exI [of _ err] exI [of _ s'] exI [of _ gs] conjI a impI)
      (use gs ok share_length cmds snds all distinct_shares shares_upto [of ?n ?n] slot_start_end [OF n(1)] in
        \<open>auto simp: new comp_def\<close>)
qed

text \<open>Two new servers without slots.\<close>

lemma assign_slots_loop_succeeds:
  assumes "\<And>h a pw c. e_redis E h a pw c = None"
    and "\<And>p s. p \<in> set ps \<Longrightarrow> \<exists>p' s'. NodeRefreshInfo E p s = Some ((p', None), s') \<and> n_Slots p' = []"
    and "assign_slots_loop E n i st ps s = Some ((ps', err), s')"
  shows "err = None \<and> (\<forall>p\<in>set ps'. n_Slots p = [])"
  using assms(2,3)
proof (induction ps arbitrary: i st s ps' err s')
  case (Cons p ps)
  obtain p' s1 where r: "NodeRefreshInfo E p s = Some ((p', None), s1)" "n_Slots p' = []" using Cons.prems(1) by force
  let ?cnt = "share_of n i"
  obtain s2 qs e where "assign_slots_loop E n (i + 1) (st + ?cnt) ps s2 = Some ((qs, e), s')" "ps' = p' # qs" "err = e"
    using Cons.prems(2) r
    by (auto simp: ClusterAddSlots_def command_def redis_do_def assms(1) wrapped_def Let_def simp del: upt.simps
        split: bind_splits if_splits)
  then show ?case using Cons.IH [OF Cons.prems(1)] r(2) by auto
qed simp

definition blank_node :: "string \<Rightarrow> node" where
  "blank_node a = (NewNode a a [])\<lparr>n_ID := ''x1''\<rparr>"

definition blank_env :: env where
  "blank_env = calm_env\<lparr>e_query := (\<lambda>h a p q. Inr (node_text (primary_of ''x1'' [])))\<rparr>"

lemma blank_refresh: "\<exists>p' s'. NodeRefreshInfo blank_env (blank_node a) s = Some ((p', None), s') \<and> n_Slots p' = []"
proof -
  have "Fields [] = []" by code_simp
  then have "ParseClusterNodesOutput (node_text (primary_of ''x1'' [])) = [primary_of ''x1'' []]"
    using parse_cluster_nodes_text [of "[primary_of ''x1'' []]"]
    by (simp add: primary_of_def printable_node_def word_ok_def is_space_def ip_of_addr_def maxInt64_def)
  then show ?thesis
    by (simp add: NodeRefreshInfo_def GetClusterNodes_def redis_query_def blank_env_def blank_node_def NewNode_def client_of_def refreshed_def)
qed

lemma assignSlots_partitions_witness:
  "\<exists>prims' s'. assignSlots blank_env [blank_node ''a'', blank_node ''b''] start_st = Some ((prims', None), s')
     \<and> concat (map snd (slot_commands (new_events start_st s'))) = map int [0..<16384]"
proof -
  let ?ps = "[blank_node ''a'', blank_node ''b'']"
  obtain prims' err s' where a: "assignSlots blank_env ?ps start_st = Some ((prims', err), s')"
    and all: "err = None \<and> (\<forall>p \<in> set prims'. n_Slots p = []) \<longrightarrow> concat (map snd (slot_commands (new_events start_st s'))) = map int [0..<16384]"
    using assignSlots_partitions [of ?ps blank_env start_st] by (auto simp del: upt.simps upt_rec_numeral)
  have up: "\<And>h a pw c. e_redis blank_env h a pw c = None" by (simp add: blank_env_def calm_env_def)
  have "assign_slots_loop blank_env (int (length ?ps)) 0 0 ?ps start_st = Some ((prims', err), s')"
    using a by (simp only: assignSlots_def list.distinct if_False)
  note loop = this
  have asked: "\<exists>p' s'. NodeRefreshInfo blank_env p s = Some ((p', None), s') \<and> n_Slots p' = []" if "p \<in> set ?ps" for p s
    using that blank_refresh by (simp only: list.set insert_iff empty_iff) blast
  have "err = None \<and> (\<forall>p\<in>set prims'. n_Slots p = [])"
    by (rule assign_slots_loop_succeeds [OF up asked loop])
  then show ?thesis using a all by blast
qed

end
