(* ===== verification/Config_Store.thy ===== *)
theory Config_Store
  imports Reconcile_Loop Frames
begin

text \<open>
  The API server as the store of the configurations. What \<open>List\<close> returns is the list of resources with, for
  each, the status of its last successful status write: \<open>stored cs h\<close> is that list after the history \<open>h\<close>,
  when it was \<open>cs\<close> at the beginning. The lemmas follow one cycle of \<open>reconcile\<close> up to the handler: which
  configuration it selects, and what it has written by then.
\<close>

section \<open>The store\<close>

fun record_write :: "event \<Rightarrow> redkey_config list \<Rightarrow> redkey_config list" where
  "record_write (StatusWrite c None) cs =
     map (\<lambda>d. if rc_Name d = rc_Name c then d\<lparr>rc_Status := rc_Status c\<rparr> else d) cs"
| "record_write e cs = cs"

definition stored :: "redkey_config list \<Rightarrow> history \<Rightarrow> redkey_config list" where
  "stored cs h = foldr record_write h cs"

lemma stored_Cons [simp]: "stored cs (e # h) = record_write e (stored cs h)"
  by (simp add: stored_def)

lemma stored_append: "stored cs (es @ h) = foldr record_write es (stored cs h)"
  by (simp add: stored_def)

lemma record_quiet [simp]: "quiet e \<Longrightarrow> record_write e cs = cs"
  by (cases e) (auto simp: quiet_def)

lemma stored_quiet: "grows quiet s s' \<Longrightarrow> stored cs (hist s') = stored cs (hist s)"
proof -
  assume "grows quiet s s'"
  then obtain es where es: "hist s' = es @ hist s" "list_all quiet es" by (auto simp: grows_def)
  have "list_all quiet es \<Longrightarrow> foldr record_write es xs = xs" for xs by (induction es) auto
  then show ?thesis using es by (simp add: stored_append)
qed

text \<open>A write changes statuses only.\<close>

definition static :: "redkey_config \<Rightarrow> string \<times> int \<times> config_spec" where
  "static c = (rc_Name c, rc_Generation c, rc_Spec c)"

lemma static_status [simp]: "static (c\<lparr>rc_Status := x\<rparr>) = static c"
  by (simp add: static_def)

lemma static_eq: "static c = static d \<Longrightarrow> c = d\<lparr>rc_Status := rc_Status c\<rparr>"
  by (cases c; cases d) (simp add: static_def)

lemma static_record_write [simp]: "map static (record_write e cs) = map static cs"
proof (cases e)
  case (StatusWrite c r)
  then show ?thesis by (cases r) auto
qed auto

lemma static_stored [simp]: "map static (stored cs h) = map static cs"
  by (induction h) (simp_all add: stored_def)

lemma names_static: "map static cs = map static ds \<Longrightarrow> map rc_Name cs = map rc_Name ds"
proof -
  assume "map static cs = map static ds"
  then have "map (fst \<circ> static) cs = map (fst \<circ> static) ds" by (metis map_map)
  then show ?thesis by (simp add: static_def comp_def)
qed

lemma seqs_static: "map static cs = map static ds \<Longrightarrow> map seq_of cs = map seq_of ds"
proof -
  assume "map static cs = map static ds"
  then have "map ((\<lambda>x. sp_Sequence (snd (snd x))) \<circ> static) cs = map ((\<lambda>x. sp_Sequence (snd (snd x))) \<circ> static) ds"
    by (metis map_map)
  then show ?thesis by (simp add: static_def seq_of_def [abs_def] comp_def)
qed

text \<open>Writing the status of the \<open>i\<close>-th resource, when names are distinct.\<close>

lemma record_write_at:
  assumes "distinct (map rc_Name cs)" and "i < length cs" and "static c = static (cs ! i)"
  shows "record_write (StatusWrite c None) cs = cs[i := c]"
proof (rule nth_equalityI)
  fix j assume "j < length (record_write (StatusWrite c None) cs)"
  then have j: "j < length cs" by simp
  have name: "rc_Name c = rc_Name (cs ! i)" using assms(3) by (simp add: static_def)
  have "rc_Name (cs ! j) = rc_Name c \<longleftrightarrow> j = i"
    using assms(1,2) j name nth_eq_iff_index_eq [of "map rc_Name cs" j i] by simp
  moreover have "(cs ! i)\<lparr>rc_Status := rc_Status c\<rparr> = c" using static_eq [OF assms(3)] by simp
  ultimately show "record_write (StatusWrite c None) cs ! j = cs[i := c] ! j"
    using j by (cases "j = i") auto
qed simp

definition api_stores :: "env \<Rightarrow> redkey_config list \<Rightarrow> history \<Rightarrow> bool" where
  "api_stores E cs h0 = (\<forall>h. suffix h0 h \<longrightarrow> e_list_configs E h = Inr (stored cs h))"

lemma grows_suffix: "grows P s s' \<Longrightarrow> suffix (hist s) (hist s')"
  by (auto simp: grows_def suffix_def)

section \<open>A well-formed list\<close>

text \<open>Resources have distinct names, and the operator numbers them in sequence.\<close>

definition in_sequence :: "redkey_config list \<Rightarrow> bool" where
  "in_sequence cs = (distinct (map rc_Name cs) \<and> sorted_wrt (<) (map seq_of cs))"

lemma in_sequence_static: "map static cs = map static ds \<Longrightarrow> in_sequence cs = in_sequence ds"
  using names_static seqs_static unfolding in_sequence_def by metis

lemma in_sequence_stored [simp]: "in_sequence (stored cs h) = in_sequence cs"
  by (rule in_sequence_static) simp

lemma sort_shuffle:
  assumes "in_sequence cs"
  shows "sort_key seq_of (shuffle o1 cs) = cs"
proof -
  have d: "distinct (map seq_of cs)" and s: "sorted (map seq_of cs)"
    using assms strict_sorted_iff [of "map seq_of cs"] by (simp_all add: in_sequence_def)
  show ?thesis
    by (rule sort_key_inj_key_eq) (use d s in \<open>simp_all add: mset_shuffle distinct_map\<close>)
qed

section \<open>The phase of a new configuration\<close>

definition inited :: "redkey_config \<Rightarrow> redkey_config" where
  "inited c = (if phase_of c = PhaseEmpty then c\<lparr>rc_Status := initial_status\<rparr> else c)"

lemma static_inited [simp]: "static (inited c) = static c"
  by (simp add: inited_def)

lemma seq_inited [simp]: "seq_of (inited c) = seq_of c"
  by (simp add: inited_def seq_of_def)

lemma finished_inited [simp]: "finished (inited c) = finished c"
  by (simp add: inited_def finished_def initial_status_def)

text \<open>The writes of \<open>initConfigPhase\<close>, one for each configuration that had no phase.\<close>

definition initialises :: "redkey_config list \<Rightarrow> event \<Rightarrow> bool" where
  "initialises cs e = (\<exists>c\<in>set cs. phase_of c = PhaseEmpty \<and> (\<exists>r. e = StatusWrite (inited c) r))"

lemma init_phases_total:
  "\<exists>s'. init_phases E cs s = Some (map inited cs, s') \<and> s' = s\<lparr>hist := hist s'\<rparr> \<and> grows (initialises cs) s s'"
proof (induction cs arbitrary: s)
  case Nil
  then show ?case by simp
next
  case (Cons c cs)
  obtain s1 where first: "(if phase_of c = PhaseEmpty then initConfigPhase E c s else Some (c, s)) = Some (inited c, s1)"
    and f1: "s1 = s\<lparr>hist := hist s1\<rparr>" and g1: "grows (initialises (c # cs)) s s1"
    by (cases "phase_of c = PhaseEmpty")
      (auto simp: initConfigPhase_def update_status_def Let_def inited_def log_def initialises_def grows_def)
  obtain s' where rest: "init_phases E cs s1 = Some (map inited cs, s')" and f2: "s' = s1\<lparr>hist := hist s'\<rparr>"
    and g2: "grows (initialises cs) s1 s'" using Cons.IH [of s1] by blast
  have "grows (initialises (c # cs)) s s'"
    by (rule grows_trans [OF g1 grows_mono [OF g2]]) (auto simp: initialises_def)
  moreover have "s' = s\<lparr>hist := hist s'\<rparr>" using f1 f2 by (metis st.update_convs(1) st.surjective st.simps)
  ultimately show ?case using first rest by (intro exI [of _ s']) simp
qed

section \<open>The choice of the configuration\<close>

definition latest_applied :: "redkey_config list \<Rightarrow> redkey_config option" where
  "latest_applied ps = map_option ((!) ps) (last_applied_below ps (length ps))"

lemma last_applied_below_append: "j \<le> length ps \<Longrightarrow> last_applied_below (ps @ xs) j = last_applied_below ps j"
  by (induction j) (auto simp: nth_append)

lemma find_index_append:
  "\<forall>x\<in>set ps. \<not> p x \<Longrightarrow> find_index p (ps @ xs) = map_option (\<lambda>i. length ps + i) (find_index p xs)"
  by (induction ps) (auto simp: option.map_comp comp_def option.map_ident cong: option.map_cong)

lemma nth_previous:
  "map_option ((!) (ps @ xs)) (last_applied_below ps (length ps)) = latest_applied ps"
  by (cases "last_applied_below ps (length ps)")
    (auto simp: latest_applied_def nth_append dest: last_applied_below_Some)

text \<open>The target is the first configuration that is not finished, or the last one when it is applied and no
  other is left.\<close>

definition target_at :: "redkey_config list \<Rightarrow> redkey_config \<Rightarrow> redkey_config list \<Rightarrow> bool" where
  "target_at ps c qs = (in_sequence (ps @ c # qs) \<and> list_all finished ps
     \<and> (\<not> finished c \<or> phase_of c = Applied \<and> qs = []))"

lemma SelectConfig_target:
  assumes "target_at ps c qs"
  shows "SelectConfig (ps @ c # qs) = (last_applied_below ps (length ps), Some (length ps))"
proof -
  let ?L = "ps @ c # qs"
  have "distinct_sequences ?L"
    using assms strict_sorted_iff [of "map seq_of ?L"] by (auto simp: target_at_def in_sequence_def distinct_sequences_def)
  from index_of_self [OF this, of "length ps"] have i: "indexOfConfig ?L c = int (length ps)" by simp
  have ps: "find_index (\<lambda>c. \<not> finished c) ?L = map_option (\<lambda>i. length ps + i) (find_index (\<lambda>c. \<not> finished c) (c # qs))"
    by (rule find_index_append) (use assms in \<open>auto simp: target_at_def list_all_iff\<close>)
  show ?thesis
  proof (cases "finished c")
    case False
    then show ?thesis by (simp add: SelectConfig_def ps lastAppliedBefore_def last_applied_below_append)
  next
    case True
    then have c: "phase_of c = Applied" "qs = []" using assms by (simp_all add: target_at_def)
    then show ?thesis using True ps i
      by (simp add: SelectConfig_def lastApplied_def nth_append lastAppliedBefore_def last_applied_below_append)
  qed
qed

lemma ApplySuperseding_last:
  assumes "target_at ps c qs" and "qs = [] \<or> phase_of c = InProgress"
  shows "ApplySuperseding (ps @ c # qs) (length ps) = \<lparr>sr_Selected = length ps, sr_Superseded = []\<rparr>"
proof -
  let ?L = "ps @ c # qs"
  have "distinct_sequences ?L"
    using assms(1) strict_sorted_iff [of "map seq_of ?L"] by (auto simp: target_at_def in_sequence_def distinct_sequences_def)
  from index_of_self [OF this, of "length ps"] have i: "indexOfConfig ?L c = int (length ps)" by simp
  show ?thesis
  proof (cases "phase_of c = InProgress")
    case False
    then have "qs = []" using assms(2) by simp
    then show ?thesis using i by (auto simp: ApplySuperseding_def Let_def nth_append supersede_chain.simps nat_add_distrib)
  qed (simp add: ApplySuperseding_def)
qed

lemma map_inited_finished: "list_all finished ps \<Longrightarrow> map inited ps = ps"
  by (induction ps) (auto simp: inited_def finished_def)

lemma target_inited:
  assumes "target_at ps c qs"
  shows "target_at ps (inited c) (map inited qs)"
proof -
  have "map static (ps @ inited c # map inited qs) = map static (ps @ c # qs)" by simp
  from in_sequence_static [OF this] assms show ?thesis
    by (auto simp: target_at_def inited_def finished_def initial_status_def)
qed

text \<open>The selection: the configurations listed, with the phases it has initialised.\<close>

lemma selectConfig_target:
  assumes "e_list_configs E (hist s) = Inr (ps @ c # qs)" and "target_at ps c qs" and "qs = [] \<or> phase_of c = InProgress"
  shows "\<exists>s'. selectConfig E s = Some (Inr (latest_applied ps, Some (inited c)), s')
    \<and> s' = s\<lparr>hist := hist s'\<rparr> \<and> init_phases E (ps @ c # qs) (s\<lparr>hist := ChooseOrder # Read ListConfigs # hist s\<rparr>)
        = Some (map inited (ps @ c # qs), s')"
proof -
  let ?L = "ps @ c # qs" and ?s1 = "s\<lparr>hist := ChooseOrder # Read ListConfigs # hist s\<rparr>"
  have sorted: "sort_key seq_of (shuffle xs ?L) = ?L" for xs
    using assms(2) by (intro sort_shuffle) (simp add: target_at_def)
  have listed: "listConfigs E True s = Some (Inr ?L, ?s1)"
    by (simp add: listConfigs_def k8s_get_def map_order_def assms(1) sorted log_def)
  obtain s' where inits: "init_phases E ?L ?s1 = Some (map inited ?L, s')" and fr: "s' = ?s1\<lparr>hist := hist s'\<rparr>"
    using init_phases_total [of E ?L ?s1] by blast
  have map: "map inited ?L = ps @ inited c # map inited qs"
    using assms(2) by (simp add: target_at_def map_inited_finished)
  have t: "target_at ps (inited c) (map inited qs)" by (rule target_inited [OF assms(2)])
  have q: "map inited qs = [] \<or> phase_of (inited c) = InProgress" using assms(3) by (auto simp: inited_def)
  have "selectConfig E s = Some (Inr (latest_applied ps, Some (inited c)), s')"
    unfolding selectConfig_def listed using inits [unfolded map]
    by (simp add: SelectConfig_target [OF t] ApplySuperseding_last [OF t q] nth_previous)
  moreover have "s' = s\<lparr>hist := hist s'\<rparr>" using fr by (metis st.update_convs(1) st.surjective st.simps(8))
  ultimately show ?thesis using inits by blast
qed

end
