(* ===== verification/Ready_Checked.thy ===== *)
theory Ready_Checked
  imports Pass_Frames Reconcile_Loop Config_Store
begin

text \<open>
  A cluster is called Ready only when a server said so: every pass that forms, scales or upgrades a cluster
  writes the status Ready only after it has seen, in the same pass, a server report all slots served, or - at the
  end of a rolling upgrade - \<open>redis-cli --cluster check\<close> print no error.
\<close>

section \<open>Evidence\<close>

text \<open>Since \<open>h0\<close>, a server was asked and answered that the state is ok and all slots are served; or a check
  printed no error.\<close>

definition vouched :: "env \<Rightarrow> history \<Rightarrow> history \<Rightarrow> bool" where
  "vouched E h0 h =
     ((\<exists>h1 addr pw out. suffix h0 h1 \<and> suffix (Query addr pw QClusterInfo # h1) h
        \<and> e_query E h1 addr pw QClusterInfo = Inr out \<and> serving (parseClusterInfo out))
     \<or> (\<exists>h1 addr vars cr. suffix h0 h1 \<and> suffix (Cli [''--cluster'', ''check'', addr] vars [] cr # h1) h
        \<and> Errors (parseClusterCheckOutput (cli_Stdout cr)) = []))"

lemma vouched_later: "vouched E h0 h \<Longrightarrow> suffix h h' \<Longrightarrow> vouched E h0 h'"
  unfolding vouched_def using suffix_order.trans by meson

lemma vouched_now:
  "suffix h0 h \<Longrightarrow> e_query E h addr pw QClusterInfo = Inr out \<Longrightarrow> serving (parseClusterInfo out)
   \<Longrightarrow> vouched E h0 (Query addr pw QClusterInfo # h)"
  "suffix h0 h \<Longrightarrow> Errors (parseClusterCheckOutput (cli_Stdout cr)) = []
   \<Longrightarrow> vouched E h0 (Cli [''--cluster'', ''check'', addr] vars [] cr # h)"
  unfolding vouched_def by (meson suffix_order.refl)+

text \<open>Every status Ready written since \<open>h0\<close> was written after such an answer.\<close>

definition vetted_writes :: "env \<Rightarrow> history \<Rightarrow> history \<Rightarrow> bool" where
  "vetted_writes E h0 h = (\<forall>c w h1. suffix (StatusWrite c w # h1) h \<longrightarrow> suffix h0 h1 \<longrightarrow> status_of c = Ready \<longrightarrow> vouched E h0 h1)"

lemma vetted_writes_start: "vetted_writes E h h"
proof -
  have "\<not> suffix (e # h1) h" if "suffix h h1" for e :: event and h1
    using suffix_length_le [OF that] suffix_length_le [of "e # h1" h] by auto
  then show ?thesis by (auto simp: vetted_writes_def)
qed

lemma vetted_writes_Cons:
  "vetted_writes E h0 (e # h) \<longleftrightarrow> vetted_writes E h0 h
     \<and> (\<forall>c w. e = StatusWrite c w \<longrightarrow> suffix h0 h \<longrightarrow> status_of c = Ready \<longrightarrow> vouched E h0 h)"
  by (auto simp: vetted_writes_def suffix_Cons)

lemma vetted_writes_append:
  "vetted_writes E h0 h \<Longrightarrow> vouched E h0 h \<or> list_all (\<lambda>e. \<not> status_write e) es \<Longrightarrow> vetted_writes E h0 (es @ h)"
proof (induction es)
  case (Cons e es)
  have "vouched E h0 (es @ h)" if "vouched E h0 h" using vouched_later [OF that] by (simp add: suffix_def)
  then show ?case using Cons by (auto simp: vetted_writes_Cons)
qed simp

definition vetted :: "env \<Rightarrow> history \<Rightarrow> st \<Rightarrow> bool" where
  "vetted E h0 s = (suffix h0 (hist s) \<and> vetted_writes E h0 (hist s) \<and> (status_of (cfg s) = Ready \<longrightarrow> vouched E h0 (hist s)))"

text \<open>The state once the evidence is there.\<close>

definition evident :: "env \<Rightarrow> history \<Rightarrow> st \<Rightarrow> bool" where
  "evident E h0 s = (suffix h0 (hist s) \<and> vetted_writes E h0 (hist s) \<and> vouched E h0 (hist s))"

lemma evident_vetted: "evident E h0 s \<Longrightarrow> vetted E h0 s"
  by (simp add: evident_def vetted_def)

lemma vetted_grows:
  assumes s: "vetted E h0 s" and g: "grows quiet s s'" and c: "status_of (cfg s') = status_of (cfg s)"
  shows "vetted E h0 s'"
proof -
  obtain es where es: "hist s' = es @ hist s" "list_all (\<lambda>e. \<not> status_write e) es"
    using g by (auto simp: grows_def quiet_def list_all_iff)
  have "suffix (hist s) (hist s')" using es by (simp add: suffix_def)
  then show ?thesis
    using s c es vetted_writes_append [of E h0 "hist s" es] vouched_later suffix_order.trans
    unfolding vetted_def by metis
qed

lemma evident_grows:
  assumes s: "evident E h0 s" and g: "suffix (hist s) (hist s')"
  shows "evident E h0 s'"
proof -
  obtain es where es: "hist s' = es @ hist s" using g by (auto simp: suffix_def)
  then show ?thesis
    using s g vetted_writes_append [of E h0 "hist s" es] vouched_later suffix_order.trans
    unfolding evident_def by metis
qed

interpretation vetted: observing_all "vetted E h0" for E h0
proof
  show "vetted E h0 s'" if "vetted E h0 s" "still quiet s s'" for s s'
    using that by (auto simp: still_def intro: vetted_grows)
  show "vetted E h0 s'" if "vetted E h0 s" "still silent_event s s'" for s s'
    using that grows_mono [of silent_event s s' quiet]
    by (auto simp: still_def silent_event_def quiet_def intro: vetted_grows)
  show "vetted E h0 (s\<lparr>cfg := c\<rparr>)" if "vetted E h0 s" "status_of c = status_of (cfg s)" for s c
    using that by (simp add: vetted_def)
  show "vetted E h0 (log (StatusWrite (cfg s) w) s)" if "vetted E h0 s" for s w
    using that vouched_later by (auto simp: vetted_def vetted_writes_Cons suffix_ConsI)
qed

interpretation evident: recording "evident E h0" for E h0
  by unfold_locales (auto simp: passes_def intro: evident_grows grows_suffix)

lemma evident_stays: "stays (evident E h0) m \<Longrightarrow> stays (vetted E h0) m"
  by (erule stays_mono) (rule evident_vetted)

lemma vetted_status:
  "vetted E h0 s \<Longrightarrow> st \<noteq> Ready \<Longrightarrow> stays (vetted E h0) (updateClusterStatus E st s)"
  unfolding updateClusterStatus_def
  by (rule stays_bind, rule vetted.frame_status_update) (simp_all add: vetted_def set_status_def stays_Some)

section \<open>The checks\<close>

lemma query_evident:
  assumes "vetted E h0 s" and "GetClusterInfo E c s = Some (Inr info, s')" and "serving info"
  shows "evident E h0 s'"
  using assms vouched_now(1) [of h0 "hist s" E "fst c" "snd c"]
  by (auto simp: GetClusterInfo_def redis_query_def evident_def vetted_def vetted_writes_Cons suffix_ConsI split: sum.splits)

lemma verify_evident:
  assumes "vetted E h0 s" and "verifyCluster E seed s = Some (Inr True, s')"
  shows "evident E h0 s'"
  using assms query_evident by (fastforce simp: verifyCluster_def split: bind_splits sum.splits)

lemma check_evident:
  assumes "vetted E h0 s" and "ClusterCheck E c s = Some (Inr r, s')" and "Errors r = []"
  shows "evident E h0 s'"
proof -
  obtain cr s1 where run: "run_cli E [''--cluster'', ''check'', fst c] (redisCLIEnv c) [] s = Some (cr, s1)"
    and s1: "hist s1 = Cli [''--cluster'', ''check'', fst c] (redisCLIEnv c) [] cr # hist s"
    by (simp add: run_cli_def Let_def)
  have out: "Errors (parseClusterCheckOutput (cli_Stdout cr)) = []" and s': "suffix (hist s1) (hist s')"
    "vetted_writes E h0 (hist s1) \<Longrightarrow> vetted_writes E h0 (hist s')"
    using assms(2,3) run
    by (auto simp: ClusterCheck_def cluster_cli_def ctx_err_def vetted_writes_Cons suffix_ConsI
        split: option.splits bind_splits sum.splits if_splits)
  have "evident E h0 s1"
    using assms(1) vouched_now(2) [OF _ out] by (simp add: evident_def vetted_def s1 vetted_writes_Cons suffix_ConsI)
  then show ?thesis by (rule evident_grows) (rule s')
qed

section \<open>Endings\<close>

lemma vetted_verified:
  assumes s: "vetted E h0 s" and k: "\<And>s. evident E h0 s \<Longrightarrow> stays (evident E h0) (k s)"
  shows "stays (vetted E h0) (get_or_retry (verifyCluster E seed) (\<lambda>ok s. if \<not> ok then ends sch s else k s) s)"
    "stays (vetted E h0) (get_or_fail x (verifyCluster E seed) (\<lambda>ok. if \<not> ok then ends sch else k) s)"
proof -
  have v: "vetted E h0 s1" if "verifyCluster E seed s = Some (r, s1)" for r s1
    using staysD [OF vetted.frame_meetNodes(3) [OF s] that] .
  have step: "stays (vetted E h0) (if \<not> ok then ends sch s1 else k s1)" if "verifyCluster E seed s = Some (Inr ok, s1)" for ok s1
    using that v [OF that] verify_evident [OF s] evident_stays [OF k] by (cases ok) (auto intro: stays_ends)
  show "stays (vetted E h0) (get_or_retry (verifyCluster E seed) (\<lambda>ok s. if \<not> ok then ends sch s else k s) s)"
    by (rule stays_get_result(2), rule vetted.frame_meetNodes(3) [OF s], rule step)
  show "stays (vetted E h0) (get_or_fail x (verifyCluster E seed) (\<lambda>ok. if \<not> ok then ends sch else k) s)"
    by (rule stays_get_result(1), rule vetted.frame_meetNodes(3) [OF s]) (use step in \<open>simp split: if_splits\<close>)
qed

lemma formCluster_evident:
  assumes s: "vetted E h0 s" and f: "formCluster E nodes s = Some ((True, ns), s')"
  shows "evident E h0 s'"
proof -
  obtain s1 where m: "meetNodes E nodes s = Some (None, s1)" and s1: "vetted E h0 s1"
    using f staysD [OF vetted.frame_meetNodes(1) [OF s]] by (fastforce simp: formCluster_def split: bind_splits if_splits)
  obtain r s2 where a: "clusterAlreadyFormed E nodes s1 = Some (r, s2)"
    using f m by (auto simp: formCluster_def split: bind_splits)
  have s2: "vetted E h0 s2" using staysD [OF vetted.frame_forming(3) [OF s1] a] .
  show ?thesis
  proof (cases "snd r = Inr True")
    case True
    then obtain seed rest info s3 where info: "GetClusterInfo E (client_of seed) s1 = Some (Inr info, s3)" "serving info"
      and rest: "\<exists>q. refreshRoles E nodes s3 = Some (q, s2)"
      using a by (auto simp: clusterAlreadyFormed_def Let_def split: list.splits sum.splits bind_splits option.splits if_splits)
    have "evident E h0 s2" using rest staysD [OF evident.frame_refreshRoles [OF query_evident [OF s1 info]]] by blast
    moreover have "s' = s2" using f m a True by (simp add: formCluster_def)
    ultimately show ?thesis by simp
  next
    case False
    then obtain a3 s3 r4 s4 where as: "form_assign E (fst r) s2 = Some (a3, s3)" and rp: "form_replicas E (snd a3) s3 = Some (r4, s4)"
      and v: "form_verify E (snd r4) s4 = Some ((True, ns), s')"
      using f m a by (auto simp: formCluster_def Let_def split: bind_splits if_splits)
    have "vetted E h0 s4"
      using staysD [OF vetted.frame_form_phases(2) rp] staysD [OF vetted.frame_form_phases(1) [OF s2] as] by blast
    then show ?thesis using v verify_evident
      by (auto simp: form_verify_def split: list.splits bind_splits sum.splits)
  qed
qed

text \<open>Forming a cluster, and then what only needs the evidence.\<close>

lemma vetted_formed:
  assumes s: "vetted E h0 s" and k: "\<And>ns s. evident E h0 s \<Longrightarrow> stays (evident E h0) (k ns s)"
  shows "stays (vetted E h0) (do { (f, s) \<leftarrow> formCluster E nodes s; if \<not> fst f then ends sch s else k (snd f) s })"
proof (cases "formCluster E nodes s")
  case (Some x)
  obtain ok ns s1 where x: "x = ((ok, ns), s1)" by (metis surj_pair)
  have "vetted E h0 s1" using staysD [OF vetted.frame_formCluster [OF s] Some [unfolded x]] .
  then show ?thesis
    using Some x formCluster_evident [OF s, of nodes ns s1] evident_stays [OF k] by (cases ok) (auto intro: stays_ends)
qed (simp add: stays_None)

lemma evident_formed: "evident E h0 s \<Longrightarrow> stays (evident E h0) (formed E pw nodes s)"
  unfolding formed_def by (intro stays_intro; assumption)

section \<open>The handlers\<close>

lemma vetted_handleInitializing: "vetted E h0 s \<Longrightarrow> stays (vetted E h0) (handleInitializing E s)"
  unfolding handleInitializing_def by (intro stays_intro vetted_status; (assumption | simp))

lemma vetted_handleConfiguring:
  assumes s: "vetted E h0 s"
  shows "stays (vetted E h0) (handleConfiguring E s)"
  unfolding handleConfiguring_def by (intro stays_intro vetted_formed evident_formed s; assumption)

lemma vetted_fast_form:
  assumes s: "vetted E h0 s"
  shows "stays (vetted E h0) (fast_form E s)"
  unfolding fast_form_def
  by (intro vetted_formed evident.frame_finishScaling stays_steps stays_bind stays_if stays_ends vetted.frame_observations
      vetted.frame_owner_password vetted.frame_initNodes vetted.frame_client s; assumption)

lemma vetted_handleFastScaling:
  assumes s: "vetted E h0 s"
  shows "stays (vetted E h0) (handleFastScaling E s)"
  unfolding handleFastScaling_def by (intro stays_intro vetted_fast_form s; assumption)

text \<open>Scaling up\<close>

lemma vetted_scale_up_verify:
  assumes s: "vetted E h0 s"
  shows "stays (vetted E h0) (scale_up_verify E nodes s)"
  unfolding scale_up_verify_def
  by (intro stays_steps(5) vetted.frame_observations stays_case_list stays_None vetted_verified evident.frame_finishScaling s; assumption)

lemma vetted_scale_up_attach:
  assumes s: "vetted E h0 s"
  shows "stays (vetted E h0) (scale_up_attach E ids nodes ps rs fs s)"
  unfolding scale_up_attach_def Let_def by (intro stays_intro vetted_scale_up_verify s; assumption)

lemma vetted_scale_up_slots:
  assumes s: "vetted E h0 s" and k: "\<And>s. vetted E h0 s \<Longrightarrow> stays (vetted E h0) (k s)"
  shows "stays (vetted E h0) (scale_up_slots E pw a b k s)"
proof -
  have stable: "vetted E h0 s \<Longrightarrow> stays (vetted E h0) (get_or_retry (slotsStable E a)
      (\<lambda>stable s. if \<not> stable then ends reconcileAfterWaitInterval s else k s) s)" for s
    unfolding slotsStable_def by (intro stays_intro k; assumption)
  show ?thesis unfolding scale_up_slots_def
    by (rule stays_if_app; intro stays_intro stable k s; assumption)
qed

lemma vetted_scale_up_members:
  assumes s: "vetted E h0 s"
  shows "stays (vetted E h0) (scale_up_members E pw ids cs s)"
  unfolding scale_up_members_def Let_def
  by (intro stays_intro vetted_scale_up_slots vetted_scale_up_attach s; assumption)

lemma vetted_handleScalingUp:
  assumes s: "vetted E h0 s"
  shows "stays (vetted E h0) (handleScalingUp E s)"
  unfolding handleScalingUp_def Let_def
  by (intro stays_intro vetted_handleFastScaling vetted_scale_up_members s; assumption)

text \<open>Scaling down\<close>

lemma vetted_scale_down_verify:
  assumes s: "vetted E h0 s"
  shows "stays (vetted E h0) (scale_down_verify E nodes s)"
  unfolding scale_down_verify_def
  by (intro stays_steps(5) vetted.frame_observations stays_case_list stays_ends vetted_verified evident.frame_finishScaling s; assumption)

lemma vetted_scale_down_remove:
  assumes s: "vetted E h0 s"
  shows "stays (vetted E h0) (scale_down_remove E parts s)"
  unfolding scale_down_remove_def scale_down_reattach_def by (intro stays_intro vetted_scale_down_verify s; assumption)

lemma vetted_scale_down_finish:
  assumes s: "vetted E h0 s"
  shows "stays (vetted E h0) (scale_down_finish E nodes s)"
  unfolding scale_down_finish_def
  by (intro stays_steps(1,5) vetted.frame_observations vetted.frame_k8s_writes stays_case_list stays_ends vetted_verified
      stays_case_option stays_None evident.frame_finishScaling s; assumption)

lemma vetted_handleScalingDown:
  assumes s: "vetted E h0 s"
  shows "stays (vetted E h0) (handleScalingDown E s)"
  unfolding handleScalingDown_def Let_def
  by (intro stays_intro vetted_handleFastScaling vetted_scale_down_remove vetted_scale_down_finish s; assumption)

text \<open>Upgrades\<close>

lemma vetted_fast_assign:
  assumes s: "vetted E h0 s"
  shows "stays (vetted E h0) (fast_assign E nodes prims s)"
  unfolding fast_assign_def
  by (intro stays_steps(1) stays_bind stays_Some vetted.frame_forming vetted.frame_fast_attach stays_case_list stays_None
      vetted_verified evident.frame_finish_upgrade s; assumption)

lemma vetted_final_checks:
  assumes s: "vetted E h0 s"
  shows "stays (vetted E h0) (final_checks E s)"
proof -
  have end_ok: "evident E h0 s \<Longrightarrow> stays (evident E h0) (when_replicated (rebalanceReplicas E pw) (finish_upgrade E kind) s)" for pw kind s
    by (intro evident.frame_when_replicated stays_intro; assumption)
  have check: "stays (vetted E h0) (get_or_retry (ClusterCheck E c) (\<lambda>result.
      if Errors result \<noteq> [] then ends sch else when_replicated (rebalanceReplicas E pw) (finish_upgrade E kind)) s)"
    if s: "vetted E h0 s" for c pw kind s sch
  proof (rule stays_get_result(2))
    show "stays (vetted E h0) (ClusterCheck E c s)" by (intro stays_intro s)
    fix result s1 assume r: "ClusterCheck E c s = Some (Inr result, s1)"
    have "vetted E h0 s1" using staysD [OF \<open>stays (vetted E h0) (ClusterCheck E c s)\<close> r] .
    then show "stays (vetted E h0) ((if Errors result \<noteq> [] then ends sch else when_replicated (rebalanceReplicas E pw) (finish_upgrade E kind)) s1)"
      using check_evident [OF s r] evident_stays [OF end_ok] by (auto intro: stays_ends)
  qed
  show ?thesis unfolding final_checks_def by (intro stays_bind stays_steps(2) vetted.frame_owner_password vetted.frame_getPodAddr check s; assumption)
qed

lemma vetted_handleUpgrading:
  assumes s: "vetted E h0 s"
  shows "stays (vetted E h0) (handleUpgrading E s)"
proof -
  have join: "stays (vetted E h0) (handleFastUpgradeFormCluster E s)" if "vetted E h0 s" for s
    unfolding handleFastUpgradeFormCluster_def by (intro stays_intro vetted_fast_assign that; assumption)
  have down: "stays (vetted E h0) (handleUpgradeScalingDown E s)" if "vetted E h0 s" for s
    unfolding handleUpgradeScalingDown_def by (intro stays_intro vetted.frame_heal_first vetted_final_checks that; assumption)
  have rolling: "stays (vetted E h0) (handleRollingUpgrade E s)"
    unfolding handleRollingUpgrade_def
    by (cases "substatus_of (cfg s)") (simp_all add: s down vetted.frame_passes vetted.frame_later_passes vetted.frame_handleUpgradeRollingUpdate)
  show ?thesis unfolding handleUpgrading_def handleFastUpgrade_def
    using rolling by (auto simp: s join vetted.frame_fast_upgrade vetted.frame_delete_drained)
qed

text \<open>C7: a pass on a cluster that is being formed, scaled or upgraded writes the status Ready only after a server
  reported, in that pass, that its state is ok and all 16384 slots are served, or a cluster check printed no error;
  and it leaves the status Ready in memory only then.\<close>

theorem ready_means_checked:
  assumes "ReconcileCluster E previous s = Some (out, s')" and "\<not> e_is_standalone E (spec_of s)"
    and "status_of (cfg s) \<in> {Initializing, Configuring, ScalingUp, ScalingDown, Upgrading}"
  shows "(\<forall>c w h. suffix (StatusWrite c w # h) (hist s') \<and> suffix (hist s) h \<and> status_of c = Ready \<longrightarrow> vouched E (hist s) h)
    \<and> (status_of (cfg s') = Ready \<longrightarrow> vouched E (hist s) (hist s'))"
proof -
  have s: "vetted E (hist s) s" using assms(3) by (auto simp: vetted_def vetted_writes_start)
  have "stays (vetted E (hist s)) (ReconcileCluster E previous s)"
    using assms(2,3) vetted_handleInitializing [OF s] vetted_handleConfiguring [OF s] vetted_handleScalingUp [OF s]
      vetted_handleScalingDown [OF s] vetted_handleUpgrading [OF s]
    by (auto simp: ReconcileCluster_def)
  then have "vetted E (hist s) s'" using assms(1) by (rule staysD)
  then show ?thesis by (auto simp: vetted_def vetted_writes_def)
qed

text \<open>An upgrade at its last step, whose pods answer the check and are gone when the topology is looked at.\<close>

definition first_pod :: pod where
  "first_pod = \<lparr>po_Name = ''redkey-0'', po_PodIP = ''10.0.0.1'', po_PodLabels = None, po_Ready = True, po_Images = []\<rparr>"

definition checked_env :: env where
  "checked_env = calm_env\<lparr>e_list_pods := (\<lambda>h. Inr (if count_list h (Read ListPods) = 1 then [first_pod] else [])),
     e_status := (\<lambda>h c. Some (OtherError ''conflict''))\<rparr>"

definition ending_config :: redkey_config where
  "ending_config = start_config\<lparr>rc_Status := (rc_Status start_config)\<lparr>cs_Status := Upgrading, cs_Substatus := UpgradeScalingDown\<rparr>\<rparr>"

lemma ending_fields:
  "status_of ending_config = Upgrading" "substatus_of ending_config = UpgradeScalingDown" "rc_Spec ending_config = base_spec"
  by (simp_all add: ending_config_def start_config_def)

lemma checked_fields:
  "e_cluster checked_env = ''redkey''" "e_get_sts checked_env h = Inr empty_sts" "e_ctx_err checked_env h = None"
  "e_list_pods checked_env h = Inr (if count_list h (Read ListPods) = 1 then [first_pod] else [])"
  "e_write checked_env h w = None" "e_status checked_env h c = Some (OtherError ''conflict'')"
  "e_cli checked_env h a v i = \<lparr>cli_Err = None, cli_ExitCode = 0, cli_Stdout = [], cli_Stderr = []\<rparr>"
  "\<not> e_is_standalone checked_env base_spec"
  by (simp_all add: checked_env_def calm_env_def base_spec_def)

lemma checked_texts:
  "pod_addresses [first_pod] [] = [(''redkey-0'', ''10.0.0.1:'' @ Itoa RedisPort)]"
  "Errors (parseClusterCheckOutput []) = []"
  by (simp_all add: first_pod_def parseClusterCheckOutput_def scan_lines_def)

lemma base_spec_small:
  "total_replicas32 base_spec = 3" "\<not> fastUpgradeEligible base_spec" "replicas_per_primary base_spec = 0" "primaries base_spec = 3"
  "sp_AuthSecretName base_spec = []"
  by (simp_all add: base_spec_def total_replicas32_def fastUpgradeEligible_def replicas_per_primary_def primaries_def)

lemma ready_means_checked_run:
  "\<exists>out s'. ReconcileCluster checked_env None (start_st\<lparr>cfg := ending_config\<rparr>) = Some (out, s') \<and> status_of (cfg s') = Ready"
  by (simp add: ReconcileCluster_def ending_fields checked_fields checked_texts base_spec_small Itoa_zero
     handleUpgrading_def handleRollingUpgrade_def handleUpgradeScalingDown_def or_fail_def get_or_fail_def get_or_retry_def
     SetStatefulSetPartition_def ScaleStatefulSet_def AllPodsReady_def k8s_get_def k8s_write_def failed_def empty_sts_def
     heal_first_def healTopology_def GetPodAddresses_def final_checks_def getPassword_def GetRedisPassword_def getPodAddr_def
     pod_name_def ClusterCheck_def cluster_cli_def run_cli_def Let_def when_replicated_def finish_upgrade_def
     ensureReplicaTopology_def status_update_def update_status_def set_status_def start_st_def first_pod_def)

lemma ready_means_checked_witness:
  "\<exists>s' :: st. status_of (cfg s') = Ready \<and> vouched checked_env [] (hist s')"
proof -
  obtain out s' where r: "ReconcileCluster checked_env None (start_st\<lparr>cfg := ending_config\<rparr>) = Some (out, s')"
    and "status_of (cfg s') = Ready"
    using ready_means_checked_run by blast
  moreover have "\<not> e_is_standalone checked_env (spec_of (start_st\<lparr>cfg := ending_config\<rparr>))"
    and "status_of (cfg (start_st\<lparr>cfg := ending_config\<rparr>)) \<in> {Initializing, Configuring, ScalingUp, ScalingDown, Upgrading}"
    by (simp_all add: ending_fields checked_fields)
  ultimately show ?thesis
    using conjunct2 [OF ready_means_checked [OF r]] by (auto simp: start_st_def)
qed

end
