(* ===== verification/Scale_Down_Safety.thy ===== *)
theory Scale_Down_Safety
  imports Pass_Frames Reconcile_Loop
begin

text \<open>
  Scaling a cluster down shuts servers down. A pass does so only to a server that described itself, in the same
  pass, as one the cluster does not need: a replica, or a primary without slots.
\<close>

section \<open>What a server said of itself\<close>

definition own_line :: "string \<Rightarrow> cluster_node list \<Rightarrow> cluster_node option" where
  "own_line i cns = find (\<lambda>c. cn_ID c = i \<or> Contains (cn_Flags c) ''myself'') cns"

definition dispensable :: "cluster_node \<Rightarrow> bool" where
  "dispensable c = (\<not> Contains (cn_Flags c) ''master'' \<or> TrimSpace (cn_Slots c) = [])"

text \<open>Since \<open>h0\<close>, the server at \<open>a\<close> was asked for its view of the cluster and \<open>c\<close> is its own line there.\<close>

definition described :: "env \<Rightarrow> history \<Rightarrow> history \<Rightarrow> string \<Rightarrow> cluster_node \<Rightarrow> bool" where
  "described E h0 h a c = (\<exists>h1 pw out i. suffix h0 h1 \<and> suffix (Query a pw QNodes # h1) h
     \<and> e_query E h1 a pw QNodes = Inr out \<and> own_line i (ParseClusterNodesOutput out) = Some c)"

lemma described_later: "described E h0 h a c \<Longrightarrow> suffix h h' \<Longrightarrow> described E h0 h' a c"
  unfolding described_def using suffix_order.trans by meson

text \<open>A node whose role and slots are those of such a line.\<close>

definition fresh :: "env \<Rightarrow> history \<Rightarrow> history \<Rightarrow> node \<Rightarrow> bool" where
  "fresh E h0 h n = (\<exists>c. described E h0 h (n_Addr n) c \<and> n_Flags n = cn_Flags c \<and> n_Slots n = cn_Slots c)"

definition surplus :: "env \<Rightarrow> history \<Rightarrow> history \<Rightarrow> node \<Rightarrow> bool" where
  "surplus E h0 h n = (\<exists>c. described E h0 h (n_Addr n) c \<and> dispensable c)"

lemma fresh_surplus: "fresh E h0 h n \<Longrightarrow> \<not> NodeIsPrimary n \<or> \<not> holds_slots n \<Longrightarrow> surplus E h0 h n"
  by (auto simp: fresh_def surplus_def dispensable_def NodeIsPrimary_def holds_slots_def)

lemma fresh_later:
  "fresh E h0 h n \<Longrightarrow> suffix h h' \<Longrightarrow> fresh E h0 h' n" "surplus E h0 h n \<Longrightarrow> suffix h h' \<Longrightarrow> surplus E h0 h' n"
  unfolding fresh_def surplus_def using described_later by meson+

section \<open>Shutting down what is surplus\<close>

definition careful :: "env \<Rightarrow> history \<Rightarrow> history \<Rightarrow> bool" where
  "careful E h0 h = (\<forall>a pw r h1. suffix (Command a pw ShutdownSave r # h1) h \<longrightarrow> suffix h0 h1
     \<longrightarrow> (\<exists>c. described E h0 h1 a c \<and> dispensable c))"

lemma careful_start: "careful E h h"
proof -
  have "\<not> suffix (e # h1) h" if "suffix h h1" for e :: event and h1
    using suffix_length_le [OF that] suffix_length_le [of "e # h1" h] by auto
  then show ?thesis by (auto simp: careful_def)
qed

lemma careful_Cons:
  "careful E h0 (e # h) \<longleftrightarrow> careful E h0 h
     \<and> (\<forall>a pw r. e = Command a pw ShutdownSave r \<longrightarrow> suffix h0 h \<longrightarrow> (\<exists>c. described E h0 h a c \<and> dispensable c))"
  by (auto simp: careful_def suffix_Cons)

lemma careful_append: "careful E h0 h \<Longrightarrow> list_all (\<lambda>e. \<not> shut_down e) es \<Longrightarrow> careful E h0 (es @ h)"
  by (induction es) (auto simp: careful_Cons)

text \<open>The invariant of a pass: it was careful so far, the nodes of \<open>F\<close> are fresh and those of \<open>D\<close> surplus.\<close>

definition watchful :: "env \<Rightarrow> history \<Rightarrow> node set \<Rightarrow> node set \<Rightarrow> st \<Rightarrow> bool" where
  "watchful E h0 F D s = (suffix h0 (hist s) \<and> careful E h0 (hist s)
     \<and> (\<forall>n\<in>F. fresh E h0 (hist s) n) \<and> (\<forall>n\<in>D. surplus E h0 (hist s) n))"

lemma watchful_fewer: "watchful E h0 F D s \<Longrightarrow> F' \<subseteq> F \<Longrightarrow> D' \<subseteq> D \<Longrightarrow> watchful E h0 F' D' s"
  by (auto simp: watchful_def)

interpretation watchful: recording "watchful E h0 F D" for E h0 F D
proof
  fix s s' assume s: "watchful E h0 F D s" and p: "passes s s'"
  obtain es where es: "hist s' = es @ hist s" "list_all (\<lambda>e. \<not> shut_down e) es"
    using p by (auto simp: passes_def grows_def harmless_def destructive_def list_all_iff)
  then have "suffix (hist s) (hist s')" by (simp add: suffix_def)
  then show "watchful E h0 F D s'"
    using s es careful_append [of E h0 "hist s" es] fresh_later suffix_order.trans unfolding watchful_def by metis
qed

interpretation watchful: recording_erasing "watchful E h0 F D" for E h0 F D
proof
  show "watchful E h0 F D (log (Write DeleteStatefulSetObj r) s)" if s: "watchful E h0 F D s" for s r
    using s fresh_later [OF _ suffix_ConsI [OF suffix_order.refl]] by (auto simp: watchful_def careful_Cons suffix_ConsI)
qed

lemma watchful_shutdown:
  assumes "watchful E h0 F D s" and "n \<in> D"
  shows "stays (watchful E h0 F D) (ClientShutdownSave E (client_of n) s)"
proof -
  have "watchful E h0 F D (log (Command (n_Addr n) pw ShutdownSave r) s)" for pw r
    using assms fresh_later [OF _ suffix_ConsI [OF suffix_order.refl]]
    by (auto simp: watchful_def careful_Cons surplus_def suffix_ConsI)
  then show ?thesis
    unfolding ClientShutdownSave_def redis_do_def client_of_def by (auto intro!: stays_intro simp: Let_def)
qed

lemma watchful_remove_each:
  "watchful E h0 F D s \<Longrightarrow> set ns \<subseteq> D \<Longrightarrow> stays (watchful E h0 F D) (remove_each E keep ns s)"
proof (induction ns arbitrary: s)
  case (Cons n ns)
  then show ?case unfolding remove_each.simps
    by (intro stays_bind watchful.frame_forget_on watchful_shutdown Cons.IH) auto
qed (simp add: stays_Some)

lemma watchful_removeNodes:
  assumes "watchful E h0 F D s" and "set remove \<subseteq> D"
  shows "stays (watchful E h0 F D) (removeNodes E keep remove s)"
proof -
  have "set (removal_order remove) \<subseteq> D" using assms(2) by (auto simp: removal_order_def)
  then show ?thesis unfolding removeNodes_def
    by (intro stays_bind watchful_remove_each stays_if stays_Some watchful.frame_client assms)
qed

section \<open>Seeing which nodes those are\<close>

lemma refresh_fresh:
  assumes "watchful E h0 F D s" and "NodeRefreshInfo E n s = Some ((n', None), s')"
  shows "watchful E h0 (insert n' F) D s'"
proof -
  have "stays (watchful E h0 F D) (NodeRefreshInfo E n s)" by (intro stays_intro assms(1))
  then have w: "watchful E h0 F D s'" using assms(2) by (rule staysD)
  obtain out c where "e_query E (hist s) (n_Addr n) (n_Password n) QNodes = Inr out"
    and "own_line (n_ID n) (ParseClusterNodesOutput out) = Some c" and n': "n' = refreshed n c"
    and "hist s' = Query (n_Addr n) (n_Password n) QNodes # hist s"
    using assms(2) by (auto simp: NodeRefreshInfo_def GetClusterNodes_def redis_query_def client_of_def own_line_def
        split: sum.splits option.splits)
  then have "described E h0 (hist s') (n_Addr n) c"
    using assms(1) unfolding described_def watchful_def by (metis suffix_order.refl)
  then show ?thesis using w n' by (auto simp: watchful_def fresh_def refreshed_def)
qed

lemma refreshRoles_fresh:
  "watchful E h0 F D s \<Longrightarrow> refreshRoles E ns s = Some ((ns', None), s') \<Longrightarrow> watchful E h0 (F \<union> set ns') D s'"
proof (induction ns arbitrary: ns' s s' F)
  case (Cons n ns)
  then obtain n1 s1 rest where n: "NodeRefreshInfo E n s = Some ((n1, None), s1)"
    and r: "refreshRoles E ns s1 = Some ((rest, None), s')" and ns': "ns' = n1 # rest"
    by (auto split: bind_splits option.splits)
  have "watchful E h0 (insert n1 F \<union> set rest) D s'" by (rule Cons.IH [OF refresh_fresh [OF Cons.prems(1) n] r])
  then show ?case by (simp add: ns')
qed simp

lemma watchful_surplus:
  assumes "watchful E h0 F D s" and "\<And>n. n \<in> X \<Longrightarrow> n \<in> F \<and> (\<not> NodeIsPrimary n \<or> \<not> holds_slots n)"
  shows "watchful E h0 F (D \<union> X) s"
  using assms fresh_surplus unfolding watchful_def by blast

text \<open>Draining hands on primaries that reported no slots.\<close>

lemma drained_surplus:
  assumes s: "watchful E h0 F D s" and keep: "set drainP \<subseteq> F"
    and d: "drain_phase E keepP drainP s = Some (Some drained, s')"
  shows "watchful E h0 {} (D \<union> set drained) s'"
proof (cases "drainP = []")
  case False
  obtain s1 where s1: "updateSubstatus E DrainingPrimaries s = Some ((), s1)"
    using d False by (auto simp: drain_phase_def split: bind_splits)
  have w1: "watchful E h0 F D s1" using staysD [OF watchful.frame_observations(1) [OF s] s1] .
  show ?thesis
  proof (cases "list_ex holds_slots drainP")
    case False
    then have "drained = drainP" "s' = s1" using d s1 \<open>drainP \<noteq> []\<close> by (simp_all add: drain_phase_def)
    then show ?thesis using watchful_surplus [OF w1, of "set drainP"] False keep watchful_fewer
      by (fastforce simp: list_ex_iff)
  next
    case True
    then obtain seed rest s2 s3 s4 r where "keepP = seed # rest"
      and reb: "rebalanceWithRetry E seed (drain_weights keepP drainP) True s1 = Some (None, s2)"
      and st: "slotsStable E seed s2 = Some (Inr True, s3)"
      and ref: "refreshRoles E drainP s3 = Some ((drained, None), s')" and no: "\<not> list_ex holds_slots drained"
      using d s1 \<open>drainP \<noteq> []\<close>
      by (auto simp: drain_phase_def split: list.splits bind_splits if_splits)
    have "watchful E h0 F D s2" using staysD [OF watchful.frame_rebalanceWithRetry [OF w1] reb] .
    then have "stays (watchful E h0 F D) (slotsStable E seed s2)" by (intro stays_intro)
    then have "watchful E h0 F D s3" using st by (rule staysD)
    have "watchful E h0 (F \<union> set drained) (D \<union> set drained) s'"
      by (rule watchful_surplus [OF refreshRoles_fresh [OF \<open>watchful E h0 F D s3\<close> ref]]) (use no in \<open>auto simp: list_ex_iff\<close>)
    then show ?thesis by (rule watchful_fewer) auto
  qed
qed (use assms in \<open>auto simp: drain_phase_def intro: watchful_fewer\<close>)

section \<open>The pass\<close>

lemma watchful_scale_down_remove:
  assumes s: "watchful E h0 (set nodes) {} s"
  shows "stays (watchful E h0 {} {}) (scale_down_remove E (scale_down_plan p q nodes) s)"
proof -
  let ?parts = "scale_down_plan p q nodes" and ?D = "set (removeReplicas (scale_down_plan p q nodes))"
  have plan: "set (removeReplicas ?parts) \<subseteq> {n \<in> set nodes. \<not> NodeIsPrimary n}" "set (drainPrimariesOf ?parts) \<subseteq> set nodes"
    by (auto simp: scale_down_plan_def Let_def dest!: in_set_dropD)
  have s0: "watchful E h0 (set nodes) ?D s" using watchful_surplus [OF s, of ?D] plan(1) by fastforce
  have rest: "stays (watchful E h0 {} D) (andthen (updateSubstatus E RemovingNodes)
      (or_retry (removeNodes E keep (removeReplicas ?parts @ drained))
        (andthen (updateSubstatus E ShrinkingStatefulSet) (\<lambda>s.
           or_fail ''scaling StatefulSet down'' (ScaleStatefulSet E (total_replicas32 (spec_of s)))
             (scale_down_reattach E (keepPrimaries ?parts) (keepReplicas ?parts)) s))) s1)"
    if "watchful E h0 {} D s1" "?D \<union> set drained \<subseteq> D" for s1 D drained keep
    by (intro stays_intro watchful_removeNodes that(1); (assumption | use that(2) in simp))
  show ?thesis
  proof (cases "drain_phase E (keepPrimaries ?parts) (drainPrimariesOf ?parts) s")
    case (Some x)
    obtain d s1 where x: "x = (d, s1)" by force
    have s1: "watchful E h0 (set nodes) ?D s1" using staysD [OF watchful.frame_drain_phase [OF s0] Some [unfolded x]] .
    show ?thesis
    proof (cases d)
      case None
      then show ?thesis using Some x watchful_fewer [OF s1] by (simp add: scale_down_remove_def stays_ends)
    next
      case (Some drained)
      have "watchful E h0 {} (?D \<union> set drained) s1"
        using drained_surplus [OF s0 plan(2)] \<open>drain_phase _ _ _ _ = Some x\<close> x Some by simp
      from stays_mono [OF rest [OF this order.refl] watchful_fewer]
      show ?thesis using \<open>drain_phase _ _ _ _ = Some x\<close> x Some by (simp add: scale_down_remove_def)
    qed
  qed (simp add: scale_down_remove_def stays_None)
qed

lemma watchful_refreshed:
  assumes s: "watchful E h0 {} {} s"
    and k: "\<And>ns s. watchful E h0 (set ns) {} s \<Longrightarrow> stays (watchful E h0 {} {}) (k (ns, None) s)"
    and f: "\<And>r s. snd r \<noteq> None \<Longrightarrow> watchful E h0 {} {} s \<Longrightarrow> stays (watchful E h0 {} {}) (k r s)"
  shows "stays (watchful E h0 {} {}) (do { (r, s) \<leftarrow> refreshRoles E ns s; k r s })"
proof (cases "refreshRoles E ns s")
  case (Some x)
  obtain ns' e s1 where x: "x = ((ns', e), s1)" by (metis surj_pair)
  have "watchful E h0 {} {} s1" using staysD [OF watchful.frame_refreshRoles [OF s] Some [unfolded x]] .
  then show ?thesis using Some x f k refreshRoles_fresh [OF s] by (cases e) auto
qed (simp add: stays_None)

lemma watchful_handleScalingDown:
  assumes s: "watchful E h0 {} {} s"
  shows "stays (watchful E h0 {} {}) (handleScalingDown E s)"
proof -
  have seen: "watchful E h0 (set ns) {} s \<Longrightarrow> watchful E h0 {} {} s" for ns s by (erule watchful_fewer) auto
  have heal: "watchful E h0 F {} s \<Longrightarrow> stays (watchful E h0 F {}) (healTopology E b s)" for F b s by (intro stays_intro)
  show ?thesis unfolding handleScalingDown_def Let_def
  proof (rule stays_bind [OF watchful.frame_owner_password(2) [OF s]], rule stays_steps(2), goal_cases)
    case (1 r s)
    then show ?case by (intro stays_intro)
  next
    case (2 r s nodes s1)
    show ?case
    proof (rule watchful_refreshed [OF 2(2)], goal_cases)
      case (1 ns s)
      then show ?case
        by (simp only: fst_conv snd_conv simp_thms if_False)
          (intro stays_if watchful.frame_handleFastScaling seen stays_seq [OF heal] stays_case_prod stays_ends
            watchful.frame_scale_down stays_None watchful_scale_down_remove; (assumption | simp))
    qed (simp add: stays_ends)
  qed
qed


section \<open>A pass that shuts a server down\<close>

text \<open>Two primaries without slots, one too many. The pods are listed once only, so nothing is healed in between, and the
  pass ends when the StatefulSet cannot be read.\<close>

definition addr_a :: string where "addr_a = ''10.0.0.1:'' @ Itoa RedisPort"
definition addr_b :: string where "addr_b = ''10.0.0.2:'' @ Itoa RedisPort"

definition server_id :: "string \<Rightarrow> string" where
  "server_id a = (if a = addr_a then ''x1'' else ''x2'')"

definition idle_pods :: "pod list" where
  "idle_pods = [\<lparr>po_Name = ''r-0'', po_PodIP = ''10.0.0.1'', po_PodLabels = None, po_Ready = True, po_Images = []\<rparr>,
     \<lparr>po_Name = ''r-1'', po_PodIP = ''10.0.0.2'', po_PodLabels = None, po_Ready = True, po_Images = []\<rparr>]"

definition shrinking_env :: env where
  "shrinking_env = calm_env\<lparr>
     e_list_pods := (\<lambda>h. Inr (if Read ListPods \<in> set h then [] else idle_pods)),
     e_get_sts := (\<lambda>h. Inl (OtherError ''refused'')),
     e_query := (\<lambda>h a p q. Inr (if q = QMyID then server_id a else node_text (primary_of (server_id a) [])))\<rparr>"

definition shrinking_config :: redkey_config where
  "shrinking_config = start_config\<lparr>rc_Spec := base_spec\<lparr>sp_Primaries := 1\<rparr>,
     rc_Status := (rc_Status start_config)\<lparr>cs_Status := ScalingDown\<rparr>\<rparr>"

definition idle_node :: "string \<Rightarrow> string \<Rightarrow> node" where
  "idle_node n a = \<lparr>n_Name = n, n_Addr = a, n_IP = (let i = Index a '':'' in if 0 < i then take (nat i) a else a),
     n_ID = server_id a, n_Flags = [], n_PrimaryID = [], n_Slots = [], n_Password = []\<rparr>"

definition idle_master :: "string \<Rightarrow> string \<Rightarrow> node" where
  "idle_master n a = refreshed (idle_node n a) (primary_of (server_id a) [])"

lemma shrinking_answers:
  "e_cluster shrinking_env = ''redkey''" "e_get_sts shrinking_env h = Inl (OtherError ''refused'')"
  "e_list_pods shrinking_env h = Inr (if Read ListPods \<in> set h then [] else idle_pods)"
  "e_query shrinking_env h a p q = Inr (if q = QMyID then server_id a else node_text (primary_of (server_id a) []))"
  "e_redis shrinking_env h a p c = None" "e_status shrinking_env h cc = None" "e_order shrinking_env h = []" "e_sleep shrinking_env h d = None"
  "\<not> e_is_standalone shrinking_env (base_spec\<lparr>sp_Primaries := 1\<rparr>)"
  by (simp_all add: shrinking_env_def calm_env_def base_spec_def)

lemma shrinking_fields:
  "status_of shrinking_config = ScalingDown" "rc_Spec shrinking_config = base_spec\<lparr>sp_Primaries := 1\<rparr>"
  "substatus_of shrinking_config = SubEmpty"
  by (simp_all add: shrinking_config_def start_config_def)

lemma shrinking_texts:
  "ordinalOf ''r-0'' = 0" "ordinalOf ''r-1'' = 1" "TrimSpace ''x1'' = ''x1''" "TrimSpace ''x2'' = ''x2''" "TrimSpace [] = []"
  "0 < cc_ConnectionMaxRetries (RuntimeClusterConfig NewRuntimeConfig)"
  "Contains ''master'' ''master''" "\<not> Contains ''master'' ''slave''" 
  by code_simp+

lemma shrinking_spec:
  "total_replicas32 (base_spec\<lparr>sp_Primaries := 1\<rparr>) = 1" "\<not> fastScalingEligible (base_spec\<lparr>sp_Primaries := 1\<rparr>)"
  "replicas_per_primary (base_spec\<lparr>sp_Primaries := 1\<rparr>) = 0" "primaries (base_spec\<lparr>sp_Primaries := 1\<rparr>) = 1"
  "sp_AuthSecretName (base_spec\<lparr>sp_Primaries := 1\<rparr>) = []" "totalNodes (base_spec\<lparr>sp_Primaries := 1\<rparr>) = 1"
  by (simp_all add: base_spec_def total_replicas32_def fastScalingEligible_def replicas_per_primary_def primaries_def totalNodes_def)

lemma idle_ids: "word_ok (server_id a)" "TrimSpace (server_id a) = server_id a" "server_id addr_a \<noteq> server_id addr_b"
  by (simp_all add: server_id_def word_ok_def is_space_def shrinking_texts addr_a_def addr_b_def)

lemma idle_parsed: "ParseClusterNodesOutput (node_text (primary_of (server_id a) [])) = [primary_of (server_id a) []]"
proof -
  have "Fields [] = []" by code_simp
  then show ?thesis using idle_ids(1) [of a] parse_cluster_nodes_text [of "[primary_of (server_id a) []]"]
    by (simp add: primary_of_def printable_node_def word_ok_def is_space_def ip_of_addr_def maxInt64_def)
qed

lemma idle_addrs: "pod_addresses idle_pods [] = [(''r-0'', addr_a), (''r-1'', addr_b)]"
  by (simp add: idle_pods_def addr_a_def addr_b_def)

lemma idle_init:
  "0 < m \<Longrightarrow> NodeInit shrinking_env (Redis_Client.NewNode n a []) m b s
     = Some ((idle_node n a, None), log (Query a [] QMyID) (log (Command a [] Ping None) s))"
  by (simp add: NodeInit_def CheckConnection_up ClusterMyID_def redis_query_def client_of_def NewNode_def shrinking_answers
    idle_node_def idle_ids Let_def)

lemma idle_refresh:
  "NodeRefreshInfo shrinking_env (idle_node n a) s = Some ((idle_master n a, None), log (Query a [] QNodes) s)"
  using idle_parsed [of a]
  by (simp add: NodeRefreshInfo_def GetClusterNodes_def redis_query_def client_of_def shrinking_answers idle_node_def idle_master_def)

lemma idle_roles: "NodeIsPrimary (idle_master n a)" "\<not> NodeIsReplica (idle_master n a)" "\<not> holds_slots (idle_master n a)"
  "n_ID (idle_master n a) = server_id a" "client_of (idle_master n a) = (a, [])"
  by (simp_all add: idle_master_def refreshed_def primary_of_def NodeIsPrimary_def NodeIsReplica_def holds_slots_def
      shrinking_texts idle_node_def client_of_def)

lemma shrinking_init:
  "\<exists>s1. initAllNodes shrinking_env [] (start_st\<lparr>cfg := shrinking_config\<rparr>) = Some (Inr [idle_node ''r-0'' addr_a, idle_node ''r-1'' addr_b], s1)
     \<and> Read ListPods \<in> set (hist s1) \<and> cfg s1 = shrinking_config \<and> run s1 = NewRuntimeConfig"
  by (simp add: initAllNodes_def GetPodAddresses_def k8s_get_def shrinking_answers idle_addrs map_order_def shrinking_texts
      Let_def start_st_def idle_init)

lemma shrinking_pass:
  "\<exists>out s'. ReconcileCluster shrinking_env None (start_st\<lparr>cfg := shrinking_config\<rparr>) = Some (out, s')
     \<and> Command addr_b [] ShutdownSave None \<in> set (hist s')"
proof -
  obtain s1 where "initAllNodes shrinking_env [] (start_st\<lparr>cfg := shrinking_config\<rparr>)
      = Some (Inr [idle_node ''r-0'' addr_a, idle_node ''r-1'' addr_b], s1)"
    and "Read ListPods \<in> set (hist s1)" "cfg s1 = shrinking_config" "run s1 = NewRuntimeConfig"
    using shrinking_init by blast
  then show ?thesis using idle_ids(3)
    by (simp add: ReconcileCluster_def shrinking_fields shrinking_answers shrinking_spec handleScalingDown_def
       getPassword_def GetRedisPassword_def get_or_fail_def idle_refresh Let_def hasReplicaNodes_def idle_roles
       healTopology_def GetPodAddresses_def k8s_get_def scale_down_plan_def scale_down_remove_def drain_phase_def andthen_def
       updateSubstatus_def status_update_def update_status_def set_status_def or_retry_def removeNodes_def removal_order_def
       ClusterForget_def command_def ClientShutdownSave_def redis_do_def or_fail_def ScaleStatefulSet_def sleep_def)
qed


end
