(* ===== verification/Destruction.thy ===== *)
theory Destruction
  imports Pass_Frames Reconcile_Loop
begin

text \<open>
  What a pass may destroy. Pods, the StatefulSet, its volumes and running servers are only given up in the passes that are
  there for it, and the StatefulSet of a cluster that is not being removed only when the specification allows its
  data to be lost.
\<close>

section \<open>Passes that destroy at most certain things\<close>

definition within :: "(event \<Rightarrow> bool) \<Rightarrow> st \<Rightarrow> st \<Rightarrow> bool" where
  "within D s0 s = (grows (\<lambda>e. destructive e \<longrightarrow> D e) s0 s \<and> spec_of s = spec_of s0)"

lemma within_refl [simp]: "within D s s"
  by (simp add: within_def)

lemma within_spec: "within D s0 s \<Longrightarrow> spec_of s = spec_of s0"
  by (simp add: within_def)

lemma within_log: "within D s0 s \<Longrightarrow> (destructive e \<longrightarrow> D e) \<Longrightarrow> within D s0 (log e s)"
  by (simp add: within_def)

interpretation within: recording "within D s0" for D s0
proof
  show "within D s0 s'" if "within D s0 s" "passes s s'" for s s'
    using that grows_trans grows_mono [of harmless s s' "\<lambda>e. destructive e \<longrightarrow> D e"]
    by (auto simp: within_def passes_def harmless_def)
qed

text \<open>Admitting one kind of destruction, beside others \<open>K\<close>.\<close>

interpretation scaling: removing "within (\<lambda>e. shut_down e \<or> K e) s0" for K s0
  by unfold_locales (simp add: within_log)

interpretation upgrading: observing_deleting "within pod_deletion s0" for s0
  by unfold_locales (simp add: within_log)

interpretation recreating: recording_erasing "within (\<lambda>e. K e \<or> set_deletion e) s0" for K s0
  by unfold_locales (simp add: within_log)

interpretation dropping: purging "within (\<lambda>e. K e \<or> volume_deletion e) s0" for K s0
  by unfold_locales (simp add: within_log)

section \<open>The passes\<close>

lemma within_write_status: "within D s0 s \<Longrightarrow> stays (within D s0) (write_status E f s)"
  unfolding write_status_def by (intro stays_intro within.J_status; assumption)

lemma within_provision: "within D s0 s \<Longrightarrow> stays (within D s0) (provision E x s)"
  unfolding provision_def by (intro stays_intro within.J_fields; assumption)

lemma within_handleNew: "within D s0 s \<Longrightarrow> stays (within D s0) (handleNew E s)"
  unfolding handleNew_def by (intro stays_intro within_write_status within_provision; assumption)

lemma within_forming:
  "within D s0 s \<Longrightarrow> stays (within D s0) (handleInitializing E s)"
  "within D s0 s \<Longrightarrow> stays (within D s0) (handleConfiguring E s)"
  unfolding handleInitializing_def handleConfiguring_def formed_def by (intro stays_intro; assumption)+

lemma within_handleReady:
  assumes s: "within D s0 s"
  shows "stays (within D s0) (handleReady E p s)"
  unfolding handleReady_def check_ready_def ready_again_def Let_def SetEphemeral_def
  by (intro stays_intro within.J_fields s; assumption)

lemma within_config_change:
  assumes s: "within D s0 s"
  shows "stays (within D s0) (handleConfigChange E p s)" "stays (within D s0) (handleStandaloneConfigChange E p s)"
  unfolding handleConfigChange_def handleStandaloneConfigChange_def apply_auth_change_def adopt_status_def Let_def
    ensureStandaloneObjects_def
  by (intro stays_intro within_write_status within_provision s; assumption)+

text \<open>Scaling up\<close>

lemma within_join_group: "within D s0 s \<Longrightarrow> stays (within D s0) (join_group E a b s)"
  unfolding join_group_def by (intro stays_intro; assumption)

lemma within_classify: "within D s0 s \<Longrightarrow> stays (within D s0) (classify E ids ns s)"
proof (induction ns arbitrary: s)
  case (Cons n ns)
  show ?case unfolding classify.simps by (intro stays_intro Cons.IH Cons.prems; assumption)
qed (simp add: stays_Some)

lemma within_scale_up_end:
  assumes s: "within D s0 s"
  shows "stays (within D s0) (scale_up_attach E ids nodes ps rs fs s)"
  unfolding scale_up_attach_def scale_up_verify_def Let_def by (intro stays_intro within_join_group s; assumption)

lemma within_scale_up_members:
  assumes s: "within D s0 s"
  shows "stays (within D s0) (scale_up_members E pw ids cs s)"
proof -
  have slots: "stays (within D s0) (scale_up_slots E pw a b (scale_up_attach E ids nodes ps rs fs) s)"
    if "within D s0 s" for a b nodes ps rs fs s
    unfolding scale_up_slots_def by (rule stays_if_app; intro stays_intro within_scale_up_end that; assumption)
  show ?thesis unfolding scale_up_members_def Let_def by (intro stays_intro within_join_group slots s; assumption)
qed

text \<open>A cluster may be recreated to scale it.\<close>

definition expendable :: "config_spec \<Rightarrow> bool" where
  "expendable sp = (sp_Ephemeral sp \<and> replicas_per_primary sp = 0 \<and> sp_PurgeKeysOnRebalance sp = Some True)"

lemma eligible_expendable: "fastScalingEligible sp = expendable sp"
  by (simp add: fastScalingEligible_def expendable_def)

definition scaling_may :: "config_spec \<Rightarrow> event \<Rightarrow> bool" where
  "scaling_may sp e = (expendable sp \<and> set_deletion e)"

lemma within_fast:
  assumes "within (\<lambda>e. K e \<or> scaling_may (spec_of s0) e) s0 s" and "fastScalingEligible (spec_of s)"
  shows "stays (within (\<lambda>e. K e \<or> scaling_may (spec_of s0) e) s0) (handleFastScaling E s)"
  using assms recreating.frame_handleFastScaling [of K s0 s E] within_spec [OF assms(1)]
  by (simp add: scaling_may_def eligible_expendable)

lemma within_handleScalingUp:
  assumes s: "within (\<lambda>e. K e \<or> scaling_may (spec_of s0) e) s0 s"
  shows "stays (within (\<lambda>e. K e \<or> scaling_may (spec_of s0) e) s0) (handleScalingUp E s)"
  unfolding handleScalingUp_def Let_def
  by (intro stays_intro within_fast within_classify within_scale_up_members s; assumption)

text \<open>Scaling down\<close>

lemma within_scale_down_remove:
  assumes s: "within (\<lambda>e. shut_down e \<or> K e) s0 s"
  shows "stays (within (\<lambda>e. shut_down e \<or> K e) s0) (scale_down_remove E parts s)"
  unfolding scale_down_remove_def by (intro stays_intro s; assumption)

lemma within_handleScalingDown:
  assumes s: "within (\<lambda>e. shut_down e \<or> scaling_may (spec_of s0) e) s0 s"
  shows "stays (within (\<lambda>e. shut_down e \<or> scaling_may (spec_of s0) e) s0) (handleScalingDown E s)"
  unfolding handleScalingDown_def Let_def
  by (intro stays_intro within_fast within_scale_down_remove s; (assumption | simp))

text \<open>Scaling to zero\<close>

definition removal_may :: "config_spec \<Rightarrow> event \<Rightarrow> bool" where
  "removal_may sp e = (sp_DeletePVC sp = Some True \<and> volume_deletion e \<or> set_deletion e)"

lemma within_DeletePVCs:
  assumes "within (removal_may (spec_of s0)) s0 s" and "sp_DeletePVC (spec_of s0) = Some True"
  shows "stays (within (removal_may (spec_of s0)) s0) (DeletePVCs E s)"
proof -
  have "removal_may (spec_of s0) = (\<lambda>e. set_deletion e \<or> volume_deletion e)"
    using assms(2) by (auto simp: removal_may_def)
  then show ?thesis using dropping.frame_DeletePVCs assms(1) by simp
qed

lemma within_handleScalingToZero:
  assumes s: "within (removal_may (spec_of s0)) s0 s"
  shows "stays (within (removal_may (spec_of s0)) s0) (handleScalingToZero E s)"
proof -
  have set: "stays (within (removal_may (spec_of s0)) s0) (DeleteStatefulSet E s)" if "within (removal_may (spec_of s0)) s0 s" for s
    using that recreating.frame_DeleteStatefulSet [of "\<lambda>e. sp_DeletePVC (spec_of s0) = Some True \<and> volume_deletion e"]
    by (simp add: removal_may_def [abs_def])
  have finish: "stays (within (removal_may (spec_of s0)) s0) (scale_zero_finish E s)" if "within (removal_may (spec_of s0)) s0 s" for s
    unfolding scale_zero_finish_def by (intro stays_intro within.J_status that; assumption)
  show ?thesis unfolding handleScalingToZero_def
    by (intro stays_intro set within_DeletePVCs finish s; (assumption | metis within_spec))
qed

text \<open>Upgrades\<close>

lemma upgrading_handleUpgrading:
  assumes s: "within pod_deletion s0 s"
  shows "stays (within pod_deletion s0) (handleUpgrading E s)"
  unfolding handleUpgrading_def handleRollingUpgrade_def handleFastUpgrade_def handleFastUpgradeFormCluster_def fast_assign_def
  by (cases "substatus_of (cfg s)") (intro stays_intro s; (assumption | simp))+

text \<open>Standalone\<close>

lemma within_standalone_small:
  assumes s: "within D s0 s"
  shows "stays (within D s0) (standalone_finish E pw s)" "stays (within D s0) (handleStandaloneReady E s)"
  unfolding standalone_finish_def updateStandaloneNodeStatus_def handleStandaloneReady_def
  by (intro stays_intro within_write_status s; assumption)+

lemma within_handleStandaloneInitializing:
  "within D s0 s \<Longrightarrow> stays (within D s0) (handleStandaloneInitializing E s)"
  unfolding handleStandaloneInitializing_def by (intro stays_intro within_standalone_small; assumption)

lemma upgrading_handleStandaloneUpgrading:
  assumes s: "within pod_deletion s0 s"
  shows "stays (within pod_deletion s0) (handleStandaloneUpgrading E s)"
  unfolding handleStandaloneUpgrading_def by (intro stays_intro within_standalone_small s; assumption)

section \<open>What a pass may destroy\<close>

lemma destroying:
  "pod_deletion e = (\<exists>n r. e = Write (DeletePodObj n) r)" "shut_down e = (\<exists>a p r. e = Command a p ShutdownSave r)"
  "set_deletion e = (\<exists>r. e = Write DeleteStatefulSetObj r)" "volume_deletion e = (\<exists>n r. e = Write (DeletePVC n) r)"
  by (cases e rule: pod_deletion.cases, auto) (cases e rule: shut_down.cases, auto, cases e rule: set_deletion.cases, auto,
    cases e rule: volume_deletion.cases, auto)

definition may_destroy :: "cluster_status \<Rightarrow> config_spec \<Rightarrow> event \<Rightarrow> bool" where
  "may_destroy status sp e =
     (case status of
        ScalingUp \<Rightarrow> scaling_may sp e
      | ScalingDown \<Rightarrow> shut_down e \<or> scaling_may sp e
      | ScalingToZero \<Rightarrow> removal_may sp e
      | Upgrading \<Rightarrow> pod_deletion e
      | _ \<Rightarrow> False)"

lemma pass_may_destroy: "stays (within (may_destroy (status_of (cfg s)) (spec_of s)) s) (ReconcileCluster E previous s)"
proof -
  have D: "may_destroy ScalingUp = scaling_may" "may_destroy ScalingDown = (\<lambda>sp e. shut_down e \<or> scaling_may sp e)"
    "may_destroy ScalingToZero = removal_may" "may_destroy Upgrading = (\<lambda>sp. pod_deletion)"
    by (simp_all add: may_destroy_def fun_eq_iff)
  have up: "stays (within (scaling_may (spec_of s)) s) (handleScalingUp E s)"
    using within_handleScalingUp [of "\<lambda>e. False" s s E] by simp
  have down: "stays (within (\<lambda>e. shut_down e \<or> scaling_may (spec_of s) e) s) (handleScalingDown E s)"
    by (rule within_handleScalingDown) simp
  note rules = within_handleNew within_config_change within_forming within_handleReady within_handleScalingToZero
    upgrading_handleUpgrading within_standalone_small(2) within_handleStandaloneInitializing upgrading_handleStandaloneUpgrading
  show ?thesis unfolding ReconcileCluster_def reconcileStandalone_def
    by (cases "status_of (cfg s)") (simp_all add: D up down rules stays_ends split: option.split)
qed

text \<open>C3: nothing is destroyed unasked. A pass shuts a server down only while it scales a cluster down, deletes pods only
  while it upgrades, and deletes volumes only while it scales to zero and the specification says so; and it deletes
  the StatefulSet only to scale to zero or to scale an ephemeral cluster without replicas whose specification
  allows the keys to be purged.\<close>

theorem nothing_destroyed_unasked:
  assumes "ReconcileCluster E previous s = Some (out, s')" and "e \<in> set (new_events s s')"
  shows "(shut_down e \<longrightarrow> status_of (cfg s) = ScalingDown)
    \<and> (pod_deletion e \<longrightarrow> status_of (cfg s) = Upgrading)
    \<and> (volume_deletion e \<longrightarrow> status_of (cfg s) = ScalingToZero \<and> sp_DeletePVC (spec_of s) = Some True)
    \<and> (set_deletion e \<longrightarrow> status_of (cfg s) = ScalingToZero
         \<or> status_of (cfg s) \<in> {ScalingUp, ScalingDown} \<and> sp_Ephemeral (spec_of s) \<and> replicas_per_primary (spec_of s) = 0
           \<and> sp_PurgeKeysOnRebalance (spec_of s) = Some True)"
proof -
  have "within (may_destroy (status_of (cfg s)) (spec_of s)) s s'" using staysD [OF pass_may_destroy assms(1)] .
  then have "destructive e \<longrightarrow> may_destroy (status_of (cfg s)) (spec_of s) e"
    using assms(2) by (auto simp: within_def grows_def list_all_iff new_events_append)
  then show ?thesis
    by (auto simp: destructive_def destroying may_destroy_def scaling_may_def removal_may_def expendable_def split: cluster_status.splits)
qed

text \<open>A cluster scaled to zero whose StatefulSet is deleted.\<close>

definition emptied_config :: redkey_config where
  "emptied_config = start_config\<lparr>rc_Spec := base_spec\<lparr>sp_Primaries := 0\<rparr>,
     rc_Status := (rc_Status start_config)\<lparr>cs_Status := ScalingToZero\<rparr>\<rparr>"

lemma emptied_fields:
  "status_of emptied_config = ScalingToZero" "substatus_of emptied_config = SubEmpty" "sp_DeletePVC (rc_Spec emptied_config) = None"
  "\<not> e_is_standalone calm_env (rc_Spec emptied_config)"
  by (simp_all add: emptied_config_def start_config_def base_spec_def calm_env_def)

lemma emptied_pass:
  "\<exists>out s'. ReconcileCluster calm_env None (start_st\<lparr>cfg := emptied_config\<rparr>) = Some (out, s')
     \<and> Write DeleteStatefulSetObj None \<in> set (new_events (start_st\<lparr>cfg := emptied_config\<rparr>) s')"
proof -
  have w: "e_write calm_env h w = None" "e_status calm_env h c = None" for h w c by (simp_all add: calm_env_def)
  show ?thesis
    by (simp add: ReconcileCluster_def emptied_fields handleScalingToZero_def scale_zero_finish_def andthen_def or_fail_def
        updateSubstatus_def status_update_def update_status_def set_status_def DeleteStatefulSet_def DeleteService_def
        DeleteConfigMap_def DeletePDB_def k8s_write_def w delete_failed_def setConfigPhaseApplied_def failed_def ends_def
        start_st_def new_events_def Let_def)
qed

lemma nothing_destroyed_unasked_witness:
  "\<exists>s' :: st. Write DeleteStatefulSetObj None \<in> set (new_events (start_st\<lparr>cfg := emptied_config\<rparr>) s')
     \<and> (status_of emptied_config = ScalingToZero \<or> sp_Ephemeral (rc_Spec emptied_config))"
proof -
  obtain out s' where r: "ReconcileCluster calm_env None (start_st\<lparr>cfg := emptied_config\<rparr>) = Some (out, s')"
    and e: "Write DeleteStatefulSetObj None \<in> set (new_events (start_st\<lparr>cfg := emptied_config\<rparr>) s')"
    using emptied_pass by blast
  show ?thesis using e nothing_destroyed_unasked [OF r e] by (intro exI [of _ s']) auto
qed

end
