(* ===== verification/Dead_Ends.thy ===== *)
theory Dead_Ends
  imports Config_Store Lifecycle_Machine
begin

text \<open>
  States from which Robin does not get on, whatever its environment does: what a handler has recorded is
  read back in the next cycle, and the handler of that status does not carry on where the failed one
  stopped.
\<close>

section \<open>A standalone configuration in progress on a ready node\<close>

interpretation unrecorded: silent_deleting "still quiet s0" for s0
  by unfold_locales (rule still_trans)

lemma standalone_ready_still: "stays (still quiet s) (handleStandaloneReady E s)"
  unfolding handleStandaloneReady_def by (intro stays_intro; simp)

text \<open>Configurations that wait for the one in progress.\<close>

definition waiting :: "redkey_config \<Rightarrow> bool" where
  "waiting c = (phase_of c = PhaseEmpty \<or> phase_of c = Pending)"

text \<open>The list of configurations behind \<open>c\<close>: the ones before it are finished, the ones after it wait.\<close>

definition held_up :: "redkey_config list \<Rightarrow> redkey_config list \<Rightarrow> redkey_config \<Rightarrow> nat \<Rightarrow> history \<Rightarrow> bool" where
  "held_up cs ps c n h = (\<exists>qs. stored cs h = ps @ c # qs \<and> length qs = n \<and> list_all waiting qs)"

lemma held_up_quiet: "grows quiet s s' \<Longrightarrow> held_up cs ps c n (hist s') = held_up cs ps c n (hist s)"
  by (simp add: held_up_def stored_quiet)

lemma held_up_init:
  assumes "in_sequence cs" and "stored cs h = ps @ c # qs" and "list_all waiting qs"
    and "rc_Name x \<in> rc_Name ` set qs" and "rc_Status x = initial_status"
  shows "held_up cs ps c (length qs) (StatusWrite x r # h)"
proof (cases r)
  case None
  let ?w = "\<lambda>d. if rc_Name d = rc_Name x then d\<lparr>rc_Status := rc_Status x\<rparr> else d"
  have "in_sequence (ps @ c # qs)" using assms(1,2) by (metis in_sequence_stored)
  then have "rc_Name d \<noteq> rc_Name x" if "d \<in> set ps \<or> d = c" for d
    using that assms(4) by (auto simp: in_sequence_def disjoint_iff)
  then have "map ?w ps = ps" "?w c = c" by (auto simp: map_idI)
  then have "record_write (StatusWrite x None) (ps @ c # qs) = ps @ c # map ?w qs" by simp
  moreover have "list_all waiting (map ?w qs)"
    using assms(3,5) by (auto simp: list_all_iff waiting_def initial_status_def)
  ultimately show ?thesis unfolding held_up_def using assms(2) None
    by (intro exI [of _ "map ?w qs"]) simp
next
  case (Some k)
  then show ?thesis using assms(2,3) by (auto simp: held_up_def)
qed

lemma held_up_inits:
  assumes "in_sequence cs" and "stored cs (hist s) = ps @ c # qs" and "list_all waiting qs"
    and "list_all finished ps" and "phase_of c = InProgress" and "grows (initialises (ps @ c # qs)) s s'"
  shows "held_up cs ps c (length qs) (hist s')"
proof -
  obtain es where es: "hist s' = es @ hist s" "list_all (initialises (ps @ c # qs)) es"
    using assms(6) by (auto simp: grows_def)
  have "list_all (initialises (ps @ c # qs)) es \<Longrightarrow> held_up cs ps c (length qs) (es @ hist s)"
  proof (induction es)
    case Nil
    then show ?case using assms(2,3) by (auto simp: held_up_def)
  next
    case (Cons e es)
    then obtain d r where d: "d \<in> set (ps @ c # qs)" "phase_of d = PhaseEmpty" "e = StatusWrite (inited d) r"
      by (auto simp: initialises_def)
    have "d \<in> set qs" using d(1,2) assms(4,5) by (auto simp: list_all_iff finished_def)
    obtain qs' where qs': "stored cs (es @ hist s) = ps @ c # qs'" "length qs' = length qs" "list_all waiting qs'"
      using Cons by (auto simp: held_up_def)
    have "map static (ps @ c # qs') = map static (ps @ c # qs)" using qs'(1) assms(2) by (metis static_stored)
    then have "map rc_Name qs' = map rc_Name qs" using names_static [of qs' qs] by simp
    then have "rc_Name ` set qs' = rc_Name ` set qs" by (metis list.set_map)
    then have "rc_Name (inited d) \<in> rc_Name ` set qs'" using \<open>d \<in> set qs\<close> by (auto simp: inited_def)
    moreover have "rc_Status (inited d) = initial_status" using d(2) by (simp add: inited_def)
    ultimately show ?case using held_up_init [OF assms(1) qs'(1,3)] qs'(2) d(3) by simp
  qed
  then show ?thesis using es by simp
qed

text \<open>One cycle: the configuration in progress is selected, and the handler of the ready node leaves it as it
  is.\<close>

lemma reconcile_held_up:
  assumes api: "api_stores E cs h0" and h0: "suffix h0 (hist s)" and seq: "in_sequence cs"
    and up: "held_up cs ps c n (hist s)" and ps: "list_all finished ps"
    and c: "phase_of c = InProgress" "status_of c = Ready" "e_is_standalone E (rc_Spec c)"
  shows "stays (\<lambda>s'. suffix h0 (hist s') \<and> held_up cs ps c n (hist s')) (reconcile E iv s)"
  unfolding stays_def
proof (intro allI impI)
  fix r s' assume run: "reconcile E iv s = Some (r, s')"
  obtain qs where qs: "stored cs (hist s) = ps @ c # qs" "length qs = n" "list_all waiting qs"
    using up by (auto simp: held_up_def)
  have "in_sequence (ps @ c # qs)" using seq qs(1) in_sequence_stored by metis
  then have t: "target_at ps c qs" using ps c(1) by (simp add: target_at_def finished_def)
  have l: "e_list_configs E (hist s) = Inr (ps @ c # qs)" using api h0 qs(1) by (simp add: api_stores_def)
  obtain s1 where sel: "selectConfig E s = Some (Inr (latest_applied ps, Some (inited c)), s1)"
    and in1: "init_phases E (ps @ c # qs) (s\<lparr>hist := ChooseOrder # Read ListConfigs # hist s\<rparr>) = Some (map inited (ps @ c # qs), s1)"
    using selectConfig_target [OF l t] c(1) by blast
  let ?s0 = "s\<lparr>hist := ChooseOrder # Read ListConfigs # hist s\<rparr>"
  have g: "grows (initialises (ps @ c # qs)) ?s0 s1"
    using init_phases_total [of E "ps @ c # qs" ?s0] in1 by auto
  have up1: "held_up cs ps c n (hist s1)"
    using held_up_inits [OF seq _ qs(3) ps c(1) g] qs(1,2) by (simp add: quiet_def)
  have suf1: "suffix h0 (hist s1)" using h0 grows_suffix [OF g] by (auto simp: suffix_def)
  have same: "inited c = c" using c(1) by (simp add: inited_def)
  obtain out s2 where hd: "handleStandaloneReady E (s1\<lparr>cfg := c\<rparr>) = Some (out, s2)"
    and fin: "(if snd out \<noteq> None then Some ((fst out, True, iv), s2)
               else finish_cycle E (latest_applied ps) (phase_of c) (fst out) s2) = Some (r, s')"
    using run c by (auto simp: reconcile_def sel same validConfigPhase_def reconcile_phase_def ReconcileCluster_def
        reconcileStandalone_def split: bind_splits)
  have st: "still quiet (s1\<lparr>cfg := c\<rparr>) s2" by (rule staysD [OF standalone_ready_still hd])
  then have "hist s' = hist s2" using fin c(1)
    by (auto simp: finish_cycle_def still_def Let_def split: prod.splits if_splits)
  moreover have "suffix h0 (hist s2)" "held_up cs ps c n (hist s2)"
    using st suf1 up1 held_up_quiet [of "s1\<lparr>cfg := c\<rparr>" s2] grows_suffix [of quiet "s1\<lparr>cfg := c\<rparr>" s2]
    by (auto simp: still_def suffix_def)
  ultimately show "suffix h0 (hist s') \<and> held_up cs ps c n (hist s')" by simp
qed

lemma poll_held_up:
  assumes "api_stores E cs h0" and "in_sequence cs" and "list_all finished ps"
    and "phase_of c = InProgress" "status_of c = Ready" "e_is_standalone E (rc_Spec c)"
  shows "suffix h0 (hist s) \<Longrightarrow> held_up cs ps c n (hist s) \<Longrightarrow>
    stays (\<lambda>s'. held_up cs ps c n (hist s')) (poll E m r s)"
proof (induction m arbitrary: r s)
  case 0
  then show ?case by (cases r) (simp add: stays_Some)
next
  case (Suc m)
  obtain schedule onError iv where r: "r = (schedule, onError, iv)" by (cases r)
  have slept: "suffix h0 (Sleep d # hist s)" "held_up cs ps c n (Sleep d # hist s)" for d
    using Suc.prems by (auto simp: suffix_def held_up_def)
  show ?case unfolding r poll.simps
    by (rule stays_seq [where I = "\<lambda>s. suffix h0 (hist s) \<and> held_up cs ps c n (hist s)"])
      (auto simp: sleep_def stays_def slept dest!: Suc.IH [THEN staysD, rotated 2]
        reconcile_held_up [OF assms(1) _ assms(2) _ assms(3-6), THEN staysD, rotated 2] split: bind_splits if_splits)
qed

text \<open>C35: a standalone configuration that is in progress while its status says Ready stays so for ever: in
  every later cycle the ready handler finds a running node and does not finish the configuration, however
  the servers and the API answer; the configurations queued behind it are never started. The state is
  recorded when the write of the phase Applied is refused right after the one of the status Ready.\<close>

theorem standalone_in_progress_stuck:
  assumes "api_stores E cs (hist s)" and "in_sequence cs"
    and "stored cs (hist s) = ps @ c # qs" and "list_all finished ps" and "list_all waiting qs"
    and "phase_of c = InProgress" and "status_of c = Ready" and "e_is_standalone E (rc_Spec c)"
    and "Start E m s = Some (b, s')"
  shows "\<exists>qs'. stored cs (hist s') = ps @ c # qs' \<and> length qs' = length qs \<and> list_all waiting qs'"
proof -
  let ?up = "\<lambda>s. held_up cs ps c (length qs) (hist s)"
  have up: "?up s" using assms(3,5) by (auto simp: held_up_def)
  have "stays ?up (Start E m s)"
    unfolding Start_def Let_def
    by (rule stays_seq [where I = "\<lambda>s'. suffix (hist s) (hist s') \<and> ?up s'"])
      (auto intro: reconcile_held_up [OF assms(1) _ assms(2) up assms(4,6-8)] poll_held_up [OF assms(1,2,4,6-8)])
  from staysD [OF this assms(9)] show ?thesis by (simp add: held_up_def)
qed

section \<open>A cluster that is scaled to zero\<close>

text \<open>Passes that fail without recording anything.\<close>

definition hopeless :: "outcome op \<Rightarrow> st \<Rightarrow> bool" where
  "hopeless m s = (\<exists>r s'. m = Some (r, s') \<and> snd r \<noteq> None \<and> extends quiet s s')"

lemma hopeless_now: "snd r \<noteq> None \<Longrightarrow> extends quiet s s' \<Longrightarrow> hopeless (Some (r, s')) s"
  by (auto simp: hopeless_def)

lemma hopeless_after:
  "keeps (extends quiet s) m \<Longrightarrow> (\<And>x s'. extends quiet s s' \<Longrightarrow> hopeless (f x s') s') \<Longrightarrow>
   hopeless (m \<bind> (\<lambda>(x, s). f x s)) s"
  unfolding keeps_def hopeless_def using extends_trans by fastforce

lemma hopeless_get_or_fail:
  "keeps (extends quiet s) (m s) \<Longrightarrow> (\<And>x s'. extends quiet s s' \<Longrightarrow> hopeless (k x s') s') \<Longrightarrow>
   hopeless (get_or_fail c m k s) s"
  unfolding get_or_fail_def by (rule hopeless_after) (auto intro: hopeless_now split: sum.split)

lemma UpdateConfigMap_missing:
  "e_get_cm E (hist s) = Inl k \<Longrightarrow> \<exists>e s'. UpdateConfigMap E sp pw s = Some (Some e, s') \<and> extends quiet s s'"
  by (simp add: UpdateConfigMap_def k8s_get_def quiet_def)

lemma hopeless_or_fail: "\<exists>e s'. m s = Some (Some e, s') \<and> extends quiet s s' \<Longrightarrow> hopeless (or_fail c m k s) s"
  by (auto simp: or_fail_def hopeless_def)

lemma keeps_getPassword: "keeps (extends quiet s) (getPassword E sp s)"
  unfolding getPassword_def by (intro keeps_intro; simp add: quiet_def)

lemma keeps_getOwner: "keeps (extends quiet s) (getOwner E s)"
  unfolding getOwner_def by (intro keeps_intro; simp add: quiet_def)

lemma no_pods_hopeless:
  assumes "e_list_pods E (hist s) = Inr []"
  shows "hopeless (handleReady E previous s) s"
proof -
  have "buildHealthNodes E s = Some (Inr [], log (Read ListPods) s)"
    by (simp add: buildHealthNodes_def GetPodAddresses_def k8s_get_def assms)
  then show ?thesis by (simp add: handleReady_def get_or_fail_def hopeless_def quiet_def)
qed

text \<open>The substatuses from which an upgrade begins.\<close>

definition upgrade_begins :: "config_spec \<Rightarrow> substatus_name \<Rightarrow> bool" where
  "upgrade_begins sp sub = (sub \<notin> (if fastUpgradeEligible sp then {FastUpgrading, EndingFastUpgrade}
     else {UpgradeScalingUp, UpgradeResharding, UpgradeRollingUpdate, UpgradeEnding, UpgradeScalingDown}))"

lemma no_objects_hopeless:
  assumes "\<And>h. suffix (hist s) h \<Longrightarrow> \<exists>k. e_get_cm E h = Inl k"
  shows "upgrade_begins (spec_of s) (substatus_of (cfg s)) \<Longrightarrow> hopeless (handleUpgrading E s) s"
    and "hopeless (handleStandaloneUpgrading E s) s"
proof -
  have missing: "\<exists>e s''. UpdateConfigMap E sp pw s' = Some (Some e, s'') \<and> extends quiet s' s''"
    if "extends quiet s s'" for sp pw s'
    using assms [of "hist s'"] that grows_suffix UpdateConfigMap_missing unfolding extends_def by blast
  have "hopeless (handleFastUpgradeStart E s) s" "hopeless (handleUpgradeStart E s) s"
    unfolding handleFastUpgradeStart_def handleUpgradeStart_def
    by (rule hopeless_after [OF keeps_getPassword], rule hopeless_or_fail, erule missing)+
  then show "upgrade_begins (spec_of s) (substatus_of (cfg s)) \<Longrightarrow> hopeless (handleUpgrading E s) s"
    by (auto simp: upgrade_begins_def handleUpgrading_def handleFastUpgrade_def handleRollingUpgrade_def
        split: if_splits substatus_name.splits)
  show "hopeless (handleStandaloneUpgrading E s) s"
    unfolding handleStandaloneUpgrading_def
    by (rule hopeless_get_or_fail [OF keeps_getOwner], rule hopeless_after [OF keeps_getPassword],
        rule hopeless_or_fail, rule missing) (rule extends_trans)
qed

lemma reconcile_hopeless:
  assumes api: "api_stores E cs h0" and h0: "suffix h0 (hist s)" and seq: "in_sequence cs"
    and L: "stored cs (hist s) = ps @ [c]" and ps: "list_all finished ps"
    and c: "phase_of c = InProgress \<or> phase_of c = Applied"
    and stuck: "\<And>prev s. suffix h0 (hist s) \<Longrightarrow> cfg s = c \<Longrightarrow> hopeless (ReconcileCluster E prev s) s"
  shows "\<exists>r s'. reconcile E iv s = Some (r, s') \<and> run s' = run s \<and> suffix h0 (hist s') \<and> stored cs (hist s') = ps @ [c]"
proof -
  have "in_sequence (ps @ [c])" using seq L in_sequence_stored by metis
  then have t: "target_at ps c []" using ps c by (auto simp: target_at_def finished_def)
  have l: "e_list_configs E (hist s) = Inr (ps @ [c])" using api h0 L by (simp add: api_stores_def)
  let ?s0 = "s\<lparr>hist := ChooseOrder # Read ListConfigs # hist s\<rparr>"
  obtain s1 where sel: "selectConfig E s = Some (Inr (latest_applied ps, Some (inited c)), s1)"
    and fr: "s1 = s\<lparr>hist := hist s1\<rparr>"
    and in1: "init_phases E (ps @ [c]) ?s0 = Some (map inited (ps @ [c]), s1)"
    using selectConfig_target [OF l t] by blast
  have "grows (initialises (ps @ [c])) ?s0 s1" using init_phases_total [of E "ps @ [c]" ?s0] in1 by auto
  then have "grows quiet ?s0 s1"
    by (rule grows_mono) (use ps c in \<open>auto simp: initialises_def list_all_iff finished_def\<close>)
  then have g: "grows quiet s s1" by (auto simp: grows_def quiet_def)
  have same: "inited c = c" using c by (auto simp: inited_def)
  let ?s1 = "s1\<lparr>cfg := c\<rparr>"
  have "suffix h0 (hist ?s1)" using h0 grows_suffix [OF g] by (simp add: suffix_order.trans)
  from stuck [OF this] obtain r s2 where r: "ReconcileCluster E (latest_applied ps) ?s1 = Some (r, s2)"
    "snd r \<noteq> None" "extends quiet ?s1 s2" unfolding hopeless_def by fastforce
  have "reconcile E iv s = Some ((fst r, True, iv), s2)"
    using c r(1,2) by (auto simp: reconcile_def sel same validConfigPhase_def reconcile_phase_def)
  moreover have "grows quiet s1 s2" using r(3) by (simp add: extends_def grows_def)
  then have "grows quiet s s2" by (rule grows_trans [OF g])
  ultimately show ?thesis
    using r(3) fr L h0 stored_quiet [of s s2] grows_suffix [of quiet s s2]
    by (auto simp: extends_def intro: suffix_order.trans)
      (metis st.select_convs(3) st.surjective st.update_convs(1))
qed


text \<open>A cluster that was scaled to zero, and then given another image.\<close>

definition zero_config :: redkey_config where
  "zero_config = start_config\<lparr>rc_Spec := base_spec\<lparr>sp_Primaries := 0\<rparr>,
     rc_Status := initial_status\<lparr>cs_ConfigPhase := InProgress, cs_Status := Upgrading\<rparr>\<rparr>"

definition zero_env :: env where
  "zero_env = calm_env\<lparr>e_list_configs := (\<lambda>h. Inr (stored [zero_config] h)), e_get_cm := (\<lambda>h. Inl (NotFound ''not found''))\<rparr>"


text \<open>A standalone deployment whose pod has come up: the status Ready is recorded, the next write, of the
  phase, is refused once.\<close>

definition coming_up :: redkey_config where
  "coming_up = start_config\<lparr>rc_Spec := base_spec\<lparr>sp_Mode := ''standalone''\<rparr>,
     rc_Status := initial_status\<lparr>cs_ConfigPhase := InProgress, cs_Status := Initializing\<rparr>\<rparr>"

definition applied_write :: "event \<Rightarrow> bool" where
  "applied_write e = (case e of StatusWrite c r \<Rightarrow> phase_of c = Applied | _ \<Rightarrow> False)"

definition refusing_env :: env where
  "refusing_env = calm_env\<lparr>e_list_configs := (\<lambda>h. Inr (stored [coming_up] h)),
     e_status := (\<lambda>h c. if phase_of c = Applied \<and> \<not> list_ex applied_write h then Some (OtherError ''conflict'') else None),
     e_list_pods := (\<lambda>h. Inr [\<lparr>po_Name = ''redkey-0'', po_PodIP = ''10.0.0.1'', po_PodLabels = None, po_Ready = True,
                              po_Images = []\<rparr>])\<rparr>"

lemma refusing_answers:
  "e_list_configs refusing_env h = Inr (stored [coming_up] h)" "e_get_sts refusing_env h = Inr empty_sts"
  "e_status refusing_env h c = (if phase_of c = Applied \<and> \<not> list_ex applied_write h then Some (OtherError ''conflict'') else None)"
  "e_list_pods refusing_env h = Inr [\<lparr>po_Name = ''redkey-0'', po_PodIP = ''10.0.0.1'', po_PodLabels = None, po_Ready = True, po_Images = []\<rparr>]"
  "e_redis refusing_env h a p cmd = None" "e_cluster refusing_env = ''redkey''"
  "e_get_cm refusing_env h = Inr \<lparr>cm_Labels = None, cm_Annotations = None, cm_Data = None\<rparr>"
  "e_is_standalone refusing_env sp = (sp_Mode sp = ''standalone'')" "e_owner_ref refusing_env h = None"
  by (simp_all add: refusing_env_def calm_env_def)

lemma coming_up_fields:
  "rc_Name coming_up = ''config-1''" "rc_Spec coming_up = base_spec\<lparr>sp_Mode := ''standalone''\<rparr>"
  "status_of coming_up = Initializing" "phase_of coming_up = InProgress" "sp_AuthSecretName base_spec = []"
  by (simp_all add: coming_up_def initial_status_def start_config_def base_spec_def)

lemma refused_pass:
  "\<exists>err s'. handleStandaloneInitializing refusing_env (start_st\<lparr>cfg := coming_up\<rparr>) = Some ((reconcileAfterInterval, Some err), s')
    \<and> (\<exists>c. stored [coming_up] (hist s') = [c] \<and> phase_of c = InProgress \<and> status_of c = Ready
         \<and> rc_Spec c = rc_Spec coming_up)"
proof -
  have "0 < cc_ConnectionMaxRetries (RuntimeClusterConfig (run start_st))"
    by (simp add: start_st_def RuntimeClusterConfig_def NewRuntimeConfig_def NewRuntimeConfigWithReconcilerIntervals_def
        DefaultConnectionMaxRetries_def)
  note up = CheckConnection_up [OF _ this]
  have h: "hist start_st = []" by (simp add: start_st_def)
  show ?thesis
    by (simp add: handleStandaloneInitializing_def get_or_fail_def AllPodsReady_def k8s_get_def refusing_answers
        empty_sts_def getPassword_def GetRedisPassword_def coming_up_fields standalone_finish_def standaloneNodeReachable_def
        GetPodAddresses_def pod_name_def Itoa_zero Let_def up andthen_def updateStandaloneNodeStatus_def write_status_def
        status_update_def update_status_def set_status_def or_fail_def updateClusterStatus_def setConfigPhaseApplied_def
        failed_def stored_def applied_write_def h)
qed

text \<open>The cycles after the refused write, in the same environment.\<close>

lemma no_requirepass: "parseRequirePass [] = []"
  by code_simp

lemma refusing_ready:
  assumes "rc_Spec (cfg t) = rc_Spec coming_up"
  shows "\<exists>sch t'. handleStandaloneReady refusing_env t = Some ((sch, None), t') \<and> cfg t' = cfg t"
proof -
  have pw: "getPassword refusing_env (spec_of t) t = Some ([], t)"
    by (simp add: getPassword_def GetRedisPassword_def assms coming_up_fields)
  have auth: "reconcileAuthRotation refusing_env [] t = Some (None, log (Read GetConfigMap) t)"
    by (simp add: reconcileAuthRotation_def GetConfigMapPassword_def k8s_get_def refusing_answers entries_def no_requirepass)
  have "keeps (extends (\<lambda>e. True) u) (standaloneNodeReachable refusing_env [] u)" for u
    unfolding standaloneNodeReachable_def by (intro keeps_intro; simp)
  then obtain addr u where "standaloneNodeReachable refusing_env [] (log (Read GetConfigMap) t) = Some (addr, u)"
    and "cfg u = cfg t" unfolding keeps_def extends_def by fastforce
  then show ?thesis by (simp add: handleStandaloneReady_def pw auth ends_def)
qed

lemma standalone_in_progress_stuck_witness:
  "\<exists>(s :: st) c b s'. stored [coming_up] (hist s) = [c] \<and> status_of c = Ready \<and> Start refusing_env 0 s = Some (b, s')
    \<and> stored [coming_up] (hist s') = [c] \<and> phase_of c = InProgress"
proof -
  obtain s :: st and c where c: "stored [coming_up] (hist s) = [c]" "phase_of c = InProgress" "status_of c = Ready"
    "rc_Spec c = rc_Spec coming_up" using refused_pass by blast
  have t: "target_at [] c []" using c(2) by (simp add: target_at_def in_sequence_def finished_def)
  have l: "e_list_configs refusing_env (hist s) = Inr ([] @ c # [])" by (simp add: refusing_answers c(1))
  obtain s1 where sel: "selectConfig refusing_env s = Some (Inr (latest_applied [], Some (inited c)), s1)"
    using selectConfig_target [OF l t] by blast
  have sa: "e_is_standalone refusing_env (rc_Spec c)" by (simp add: c(4) refusing_answers coming_up_fields)
  obtain sch s2 where r: "handleStandaloneReady refusing_env (s1\<lparr>cfg := c\<rparr>) = Some ((sch, None), s2)" and c2: "cfg s2 = c"
    using refusing_ready [of "s1\<lparr>cfg := c\<rparr>"] c(4) by auto
  have "\<exists>s'. Start refusing_env 0 s = Some (False, s')"
    using c(2,3) sa by (simp add: Start_def Let_def reconcile_def sel inited_def validConfigPhase_def reconcile_phase_def
        ReconcileCluster_def reconcileStandalone_def r finish_cycle_def c2 split: prod.split)
  then obtain b s' where run: "Start refusing_env 0 s = Some (b, s')" by blast
  have "\<exists>qs'. stored [coming_up] (hist s') = [] @ c # qs' \<and> length qs' = length ([] :: redkey_config list) \<and> list_all waiting qs'"
    by (rule standalone_in_progress_stuck [where m = 0 and b = b, OF _ _ _ _ _ c(2,3) sa run])
      (simp_all add: api_stores_def refusing_answers in_sequence_def c(1))
  then have "stored [coming_up] (hist s') = [c]" by auto
  then show ?thesis using run c by blast
qed

end
