(* ===== verification/Unchecked_Flush.thy ===== *)
theory Unchecked_Flush
  imports Dead_Ends Upgrade_Deletions
begin

text \<open>
  The rolling upgrade of a persistent cluster empties the primary it has drained before it deletes its pod. It relies on
  an earlier pass having found the primary without slots and does not look again: slots it was given since - by a
  \<open>redis-cli --cluster fix\<close> or \<open>rebalance\<close> run by hand on an upgrade that does not get on, say - are flushed with it.
\<close>

text \<open>C36: the drained primary is flushed blindly. In the rolling phase, once the topology needs no healing and the pod runs an
  outdated revision, a server that is not a replica is sent FLUSHALL on the strength of its role alone: none of the
  conditions is about slots, and it may own all of them.\<close>

theorem rolling_flush_unchecked:
  assumes "substatus_of (cfg s) = UpgradeRollingUpdate" and part: "cs_UpgradingPartition (rc_Status (cfg s)) = part"
    and pers: "\<not> sp_Ephemeral (spec_of s)"
    and heal: "healTopology E True s = Some ((changed, problem), s1)" "\<not> (problem = None \<and> changed)"
    and rev: "GetStatefulSetUpdateRevision E s1 = Some (Inr desired, s2)" "desired \<noteq> []"
    and pod: "GetPodControllerRevisionHash E (i32 part) s2 = Some (Inr actual, s3)" "actual \<noteq> desired"
    and pw: "getPassword E (spec_of s) s3 = Some (pw, s4)" and addr: "getPodAddr E (i32 part) s4 = Some (Inr addr, s5)"
    and role: "ClientIsReplica E (addr, pw) s5 = Some (Inr False, s6)"
  shows "\<exists>out s'. handleRollingUpgrade E s = Some (out, s') \<and> suffix (Command addr pw FlushAll (e_redis E (hist s6) addr pw FlushAll) # hist s6) (hist s')"
proof -
  have calm: "heal_first E k s = k s1" for k using heal by (auto simp: heal_first_def)
  have "stays (still quiet s) (healTopology E True s)" by (intro stays_intro) simp
  then have "still quiet s s1" using heal(1) by (rule staysD)
  then have "stays (still quiet s) (GetStatefulSetUpdateRevision E s1)" by (intro stays_intro)
  then have "still quiet s s2" using rev(1) by (rule staysD)
  then have "stays (still quiet s) (GetPodControllerRevisionHash E (i32 part) s2)" by (intro stays_intro)
  then have "still quiet s s3" using pod(1) by (rule staysD)
  then have "cfg s3 = cfg s" by (simp add: still_def)
  then show ?thesis
    using assms(1,2,3,6-12)
    by (simp add: handleRollingUpgrade_def handleUpgradeRollingUpdate_def calm get_or_fail_def get_or_retry_def Let_def
      delete_drained_def flush_drained_def or_retry_def flushAndPersistNode_def get_or_err_def or_wrap_def ClientFlushAll_def
      ClusterReset_def ClientSave_def command_def redis_do_def or_fail_def DeletePod_def k8s_write_def ends_def wrapped_def suffix_Cons split: option.split)
qed

text \<open>A server that owns every slot.\<close>

definition owning_env :: env where
  "owning_env = recycling_env\<lparr>e_query := (\<lambda>h a p q. Inr (if q = QNodes then node_text sole_node else ''role:master''))\<rparr>"

lemma owning_answers:
  "e_query owning_env h a p q = Inr (if q = QNodes then node_text sole_node else ''role:master'')"
  "e_get_sts owning_env h = Inr (empty_sts\<lparr>ss_UpdateRevision := ''new''\<rparr>)"
  "e_get_pod owning_env h n = Inr \<lparr>po_Name = n, po_PodIP = ''10.0.0.1'', po_PodLabels = None, po_Ready = True, po_Images = []\<rparr>"
  "e_list_pods owning_env h = Inr [\<lparr>po_Name = ''redkey-0'', po_PodIP = ''10.0.0.1'', po_PodLabels = None, po_Ready = True, po_Images = []\<rparr>]"
  "e_order owning_env h = []" "e_redis owning_env h a p c = None" "e_write owning_env h w = None" "e_cluster owning_env = ''redkey''"
  by (simp_all add: owning_env_def recycling_env_def calm_env_def)

lemma owning_nodes: "GetClusterNodes owning_env c s = Some (Inr [sole_node], log (Query (fst c) (snd c) QNodes) s)"
  using parse_cluster_nodes_text [of "[sole_node]"] sole_printable
  by (simp add: GetClusterNodes_def redis_query_def owning_answers)

lemma port_text: "Itoa RedisPort = ''6379''"
  by (simp add: Itoa_def RedisPort_def nat_digits.simps digit_char_def) code_simp

lemma owning_texts: "extractIP ''10.0.0.1:6379'' = ''10.0.0.1''" "\<not> isConfirmedFail ''master''" "\<not> info_field_is ''role'' ''slave'' (Split newline ''role:master'')"
  by code_simp+

lemma sole_fields: "cn_IP sole_node = ''10.0.0.1''" "cn_Flags sole_node = ''master''"
  by (simp_all add: sole_node_def primary_of_def)

lemma owning_heal: "\<exists>s1. healTopology owning_env True recycling_st = Some ((False, None), s1) \<and> cfg s1 = cfg recycling_st"
  apply (simp add: healTopology_def GetPodAddresses_def k8s_get_def owning_answers map_order_def getPassword_def GetRedisPassword_def
    HealMembership_def owning_nodes pod_nodes_def Let_def port_text owning_texts sole_fields
    recycling_fields base_spec_def)
  done

lemma rolling_flush_unchecked_witness:
  "\<exists>out s' h. handleRollingUpgrade owning_env recycling_st = Some (out, s')
    \<and> suffix (Command (''10.0.0.1:'' @ Itoa RedisPort) [] FlushAll None # h) (hist s')
    \<and> ParseSlotRanges (cn_Slots sole_node) = Inr [SlotRange 0 16383]
    \<and> (\<forall>h a pw. e_query owning_env h a pw QNodes = Inr (node_text sole_node))"
proof -
  obtain s1 where heal: "healTopology owning_env True recycling_st = Some ((False, None), s1)" and c: "cfg s1 = cfg recycling_st"
    using owning_heal by blast
  obtain s2 where rev: "GetStatefulSetUpdateRevision owning_env s1 = Some (Inr ''new'', s2)" 
    by (simp add: GetStatefulSetUpdateRevision_def k8s_get_def owning_answers)
  obtain s3 where pod: "GetPodControllerRevisionHash owning_env (i32 0) s2 = Some (Inr [], s3)" 
    by (simp add: GetPodControllerRevisionHash_def get_pod_def k8s_get_def owning_answers entries_def)
  have pw: "getPassword owning_env (spec_of recycling_st) s3 = Some ([], s3)"
    by (simp add: getPassword_def GetRedisPassword_def recycling_fields base_spec_def)
  obtain s5 where addr: "getPodAddr owning_env (i32 0) s3 = Some (Inr (''10.0.0.1:'' @ Itoa RedisPort), s5)"
    by (simp add: getPodAddr_def GetPodAddresses_def k8s_get_def owning_answers pod_name_def i32_def Itoa_zero)
  obtain s6 where role: "ClientIsReplica owning_env (''10.0.0.1:'' @ Itoa RedisPort, []) s5 = Some (Inr False, s6)"
    by (simp add: ClientIsReplica_def info_test_def info_section_def redis_query_def owning_answers owning_texts del: Split.simps info_field_is.simps)
  have start: "substatus_of (cfg recycling_st) = UpgradeRollingUpdate" "cs_UpgradingPartition (rc_Status (cfg recycling_st)) = 0"
    "\<not> sp_Ephemeral (spec_of recycling_st)"
    by (simp_all add: recycling_fields initial_status_def base_spec_def)
  from rolling_flush_unchecked [OF start heal _ rev _ pod _ pw addr role] sole_parsed show ?thesis
    by (auto simp: owning_answers)
qed
end
