(* ===== verification/Standalone_Liveness.thy ===== *)
theory Standalone_Liveness
  imports Config_Store
begin

text \<open>
  A standalone deployment converges: from any state the API server can hold (other than the dead end of
  Dead_Ends), once the servers and the API do their part, the polling loop brings the latest configuration to
  Applied on a Ready node in at most three cycles, and it stays there. What doing their part means is said
  per answer: \<open>cooperates\<close> for the API and Redis, \<open>node_runs\<close> for the StatefulSet controller.
\<close>

section \<open>Operations that come to an end\<close>

text \<open>\<open>yields Q m\<close>: \<open>m\<close> returns, and its result and final state satisfy \<open>Q\<close>.\<close>

definition yields :: "('r \<Rightarrow> st \<Rightarrow> bool) \<Rightarrow> 'r op \<Rightarrow> bool" where
  "yields Q m = (\<exists>r s. m = Some (r, s) \<and> Q r s)"

lemma yields_Some [simp]: "yields Q (Some (r, s)) = Q r s"
  by (simp add: yields_def)

lemma yields_bind [simp]: "yields Q (m \<bind> (\<lambda>(r, s). f r s)) = yields (\<lambda>r s. yields Q (f r s)) m"
  by (cases m) (auto simp: yields_def)

lemma yields_mono: "yields P m \<Longrightarrow> (\<And>r s. P r s \<Longrightarrow> Q r s) \<Longrightarrow> yields Q m"
  by (auto simp: yields_def)

text \<open>\<open>gives P m s\<close>: \<open>m\<close>, run in \<open>s\<close>, returns a result that satisfies \<open>P\<close>, and records no status.\<close>

definition goes :: "st \<Rightarrow> st \<Rightarrow> bool" where
  "goes s s' = (grows quiet s s' \<and> cfg s' = cfg s \<and> connectionMaxRetries (run s') = connectionMaxRetries (run s))"

definition gives :: "('r \<Rightarrow> bool) \<Rightarrow> 'r op \<Rightarrow> st \<Rightarrow> bool" where
  "gives P m s = yields (\<lambda>r s'. P r \<and> goes s s') m"

lemma goes_refl [simp]: "goes s s"
  by (simp add: goes_def)

lemma goes_trans: "goes a b \<Longrightarrow> goes b c \<Longrightarrow> goes a c"
  using grows_trans by (auto simp: goes_def)

lemma goes_log [simp]: "quiet e \<Longrightarrow> goes s (log e s)"
  by (simp add: goes_def)

lemma goes_step [simp]: "quiet e \<Longrightarrow> goes a b \<Longrightarrow> goes a (log e b)"
  using goes_trans goes_log by blast

lemma goes_suffix: "goes s s' \<Longrightarrow> suffix (hist s) (hist s')"
  by (auto simp: goes_def grows_def suffix_def)

lemma quiet_events [simp]:
  "quiet (Command a p c r)" "quiet (Query a p q)" "quiet (Cli args vars inp res)" "quiet (Write w k)"
  "quiet (Read what)" "quiet (Sleep d)" "quiet CheckContext" "quiet ChooseOrder"
  by (simp_all add: quiet_def)

lemma gives_yields:
  "gives P m s \<Longrightarrow> (\<And>r s'. P r \<Longrightarrow> goes s s' \<Longrightarrow> Q r s') \<Longrightarrow> yields Q m"
  unfolding gives_def by (erule yields_mono) simp

lemma gives_of_keeps:
  "keeps (extends quiet s) m \<Longrightarrow> gives (\<lambda>r. True) m s"
  by (auto simp: keeps_def gives_def yields_def extends_def goes_def)

lemma gives_bind:
  "gives P m s \<Longrightarrow> (\<And>r s'. P r \<Longrightarrow> goes s s' \<Longrightarrow> gives P' (f r s') s') \<Longrightarrow> gives P' (m \<bind> (\<lambda>(r, s). f r s)) s"
  unfolding gives_def using goes_trans by (fastforce simp: yields_def)

text \<open>The steps of a handler.\<close>

lemma yields_step:
  "gives (\<lambda>e. e = None) (m1 s) s \<Longrightarrow> (\<And>s'. goes s s' \<Longrightarrow> yields Q (k s')) \<Longrightarrow> yields Q (or_fail c m1 k s)"
  "gives (\<lambda>r. \<exists>x. r = Inr x \<and> P x) (m2 s) s \<Longrightarrow> (\<And>x s'. P x \<Longrightarrow> goes s s' \<Longrightarrow> yields Q (k2 x s'))
   \<Longrightarrow> yields Q (get_or_fail c m2 k2 s)"
  unfolding or_fail_def get_or_fail_def by (auto intro: gives_yields)

lemma gives_Some: "P r \<Longrightarrow> gives P (Some (r, s)) s"
  by (simp add: gives_def)

lemma gives_or_wrap:
  "gives (\<lambda>e. e = None) (a s) s \<Longrightarrow> (\<And>s'. goes s s' \<Longrightarrow> gives P (b s') s') \<Longrightarrow> gives P (or_wrap c a b s) s"
  unfolding or_wrap_def by (rule gives_bind [where P = "\<lambda>e. e = None"]) auto

section \<open>What the environment does\<close>

definition findable :: "kerr + 'a \<Rightarrow> bool" where
  "findable r = (case r of Inl k \<Rightarrow> is_not_found k | Inr x \<Rightarrow> True)"

text \<open>The API accepts every write and can be read - an object exists or is reported as not found; Redis
  executes every command.\<close>

definition cooperates :: "env \<Rightarrow> config_spec \<Rightarrow> history \<Rightarrow> bool" where
  "cooperates E sp h = ((\<forall>c. e_status E h c = None) \<and> (\<forall>w. e_write E h w = None) \<and> (\<forall>d. e_sleep E h d = None)
     \<and> (\<forall>a p c. e_redis E h a p c = None) \<and> e_owner_ref E h = None \<and> (\<exists>x. e_get_owner E h = Inr x)
     \<and> (\<exists>x. e_get_secret E h (sp_AuthSecretName sp) = Inr x) \<and> (\<exists>x. e_list_pvcs E h = Inr x)
     \<and> findable (e_get_cm E h) \<and> findable (e_get_svc E h) \<and> findable (e_get_sts E h) \<and> findable (e_get_pdb E h))"

text \<open>The objects of the specification can be built: its quantities parse and its overrides merge.\<close>

definition buildable :: "env \<Rightarrow> config_spec \<Rightarrow> bool" where
  "buildable E sp = ((\<forall>owner. \<exists>d. desired_statefulset E owner sp = Some (Inr d)) \<and> (\<exists>d. desired_service E sp = Inr d))"

text \<open>The pod of the StatefulSet runs, and its controller has computed the revision \<open>rv\<close> of the template.\<close>

definition node_runs :: "env \<Rightarrow> string \<Rightarrow> history \<Rightarrow> bool" where
  "node_runs E rv h = ((\<exists>cm. e_get_cm E h = Inr cm)
     \<and> (\<exists>sts. e_get_sts E h = Inr sts \<and> 1 \<le> sint (ss_ReadyReplicas sts) \<and> ss_Generation sts \<le> ss_ObservedGeneration sts
          \<and> ss_UpdateRevision sts = rv)
     \<and> (\<exists>pods. e_list_pods E h = Inr pods \<and> (\<exists>p\<in>set pods. po_Name p = pod_name E 0 \<and> po_PodIP p \<noteq> []))
     \<and> (\<exists>p. e_get_pod E h (pod_name E 0) = Inr p))"

definition from_now :: "history \<Rightarrow> (history \<Rightarrow> bool) \<Rightarrow> bool" where
  "from_now h0 P = (\<forall>h. suffix h0 h \<longrightarrow> P h)"

lemma from_nowD: "from_now h0 P \<Longrightarrow> suffix h0 h \<Longrightarrow> P h"
  by (simp add: from_now_def)

lemma from_now_later: "from_now h0 P \<Longrightarrow> suffix h0 h \<Longrightarrow> from_now h P"
  unfolding from_now_def using suffix_order.trans by blast

lemma from_now_goes: "from_now (hist s) P \<Longrightarrow> goes s s' \<Longrightarrow> from_now (hist s') P"
  using from_now_later goes_suffix by blast

lemma from_now_log: "from_now (hist s) P \<Longrightarrow> from_now (e # hist s) P"
  by (rule from_now_later) (auto simp: suffix_def)

lemma gives_or_wrap_now:
  "from_now (hist s) C \<Longrightarrow> gives (\<lambda>e. e = None) (a s) s \<Longrightarrow> (\<And>s'. from_now (hist s') C \<Longrightarrow> gives P (b s') s')
   \<Longrightarrow> gives P (or_wrap c a b s) s"
  by (rule gives_or_wrap) (auto intro: from_now_goes)

lemma cooperates_answers:
  assumes "from_now h (cooperates E sp)"
  shows "e_status E h c = None" "e_write E h w = None" "e_sleep E h d = None" "e_redis E h a p cmd = None"
    "e_owner_ref E h = None" "\<exists>x. e_get_owner E h = Inr x" "\<exists>x. e_get_secret E h (sp_AuthSecretName sp) = Inr x"
    "\<exists>x. e_list_pvcs E h = Inr x" "findable (e_get_cm E h)" "findable (e_get_svc E h)" "findable (e_get_sts E h)"
    "findable (e_get_pdb E h)"
  using from_nowD [OF assms suffix_order.refl] by (auto simp: cooperates_def)

section \<open>The operations in such an environment\<close>

lemma gives_get: "P (f E (hist s)) \<Longrightarrow> gives P (k8s_get f w E s) s"
  by (simp add: gives_def k8s_get_def)

lemma gives_write: "e_write E (hist s) w = None \<Longrightarrow> gives (\<lambda>e. e = None) (k8s_write E w s) s"
  by (simp add: gives_def k8s_write_def)

lemmas gives_defs = gives_def k8s_get_def k8s_write_def findable_def Let_def

lemma gives_ensure:
  assumes co: "from_now (hist s) (cooperates E sp)"
  shows "gives (\<lambda>e. e = None) (ensureConfigMap E sp pw s) s"
    and "buildable E sp \<Longrightarrow> gives (\<lambda>e. e = None) (ensureService E sp s) s"
    and "buildable E sp \<Longrightarrow> gives (\<lambda>e. e = None) (ensureStatefulSet E owner sp s) s"
    and "gives (\<lambda>e. e = None) (ensurePDB E sp s) s"
    and "gives (\<lambda>e. e = None) (DeletePDB E s) s"
proof -
  note now = cooperates_answers [OF co] cooperates_answers [OF from_now_log [OF co]]
  show "gives (\<lambda>e. e = None) (ensureConfigMap E sp pw s) s"
    using now by (cases "e_get_cm E (hist s)") (auto simp: ensureConfigMap_def gives_defs)
  show "gives (\<lambda>e. e = None) (ensurePDB E sp s) s"
    using now by (cases "e_get_pdb E (hist s)") (auto simp: ensurePDB_def gives_defs)
  show "gives (\<lambda>e. e = None) (DeletePDB E s) s"
    using now by (simp add: DeletePDB_def gives_defs delete_failed_def)
  assume b: "buildable E sp"
  obtain d where "desired_service E sp = Inr d" using b by (auto simp: buildable_def)
  then show "gives (\<lambda>e. e = None) (ensureService E sp s) s"
    using now by (cases "e_get_svc E (hist s)") (auto simp: ensureService_def gives_defs)
  obtain d where "desired_statefulset E owner sp = Some (Inr d)" using b by (auto simp: buildable_def)
  then show "gives (\<lambda>e. e = None) (ensureStatefulSet E owner sp s) s"
    using now by (cases "e_get_sts E (hist s)") (auto simp: ensureStatefulSet_def gives_defs)
qed

lemma gives_objects:
  assumes "from_now (hist s) (cooperates E sp)"
  shows "gives (\<lambda>e. e = None) (ReconcilePDB E sp s) s"
    and "buildable E sp \<Longrightarrow> gives (\<lambda>e. e = None) (ReconcileService E sp s) s"
    and "buildable E sp \<Longrightarrow> gives (\<lambda>e. e = None) (EnsureClusterObjects E owner sp pw s) s"
proof -
  have pdb: "gives (\<lambda>e. e = None) (ReconcilePDB E sp s) s" if "from_now (hist s) (cooperates E sp)" for s
    unfolding ReconcilePDB_def using gives_ensure(4,5) [OF that]
    by (simp add: gives_or_wrap gives_Some)
  show "gives (\<lambda>e. e = None) (ReconcilePDB E sp s) s" by (rule pdb [OF assms])
  show "buildable E sp \<Longrightarrow> gives (\<lambda>e. e = None) (ReconcileService E sp s) s"
    unfolding ReconcileService_def by (rule gives_ensure(2) [OF assms])
  show "buildable E sp \<Longrightarrow> gives (\<lambda>e. e = None) (EnsureClusterObjects E owner sp pw s) s"
    unfolding EnsureClusterObjects_def
    by (intro gives_or_wrap_now [OF assms] gives_or_wrap_now [where C = "cooperates E sp"] gives_ensure pdb assms; assumption)
qed

lemma gives_getOwner:
  "from_now (hist s) (cooperates E sp) \<Longrightarrow> gives (\<lambda>r. \<exists>x. r = Inr x \<and> True) (getOwner E s) s"
  using cooperates_answers(6) [of "hist s" E sp] by (auto simp: getOwner_def gives_defs)

lemma gives_password:
  assumes "from_now (hist s) (cooperates E sp)"
  shows "gives (\<lambda>r. \<exists>x. r = Inr x \<and> True) (GetRedisPassword E (sp_AuthSecretName sp) s) s"
    and "gives (\<lambda>x. True) (getPassword E sp s) s"
  using cooperates_answers(7) [OF assms]
  by (auto simp: GetRedisPassword_def getPassword_def gives_defs)

lemma gives_deletions:
  assumes "from_now (hist s) (cooperates E sp)"
  shows "gives (\<lambda>e. e = None) (DeleteStatefulSet E s) s" "gives (\<lambda>e. e = None) (DeleteService E s) s"
    "gives (\<lambda>e. e = None) (DeleteConfigMap E s) s" "gives (\<lambda>e. e = None) (DeletePDB E s) s"
  using cooperates_answers [OF assms]
  by (simp_all add: DeleteStatefulSet_def DeleteService_def DeleteConfigMap_def DeletePDB_def gives_defs delete_failed_def)

lemma gives_delete_each:
  "from_now (hist s) (cooperates E sp) \<Longrightarrow> gives (\<lambda>e. e = None) (delete_each E del c names s) s"
proof (induction names arbitrary: s)
  case Nil
  then show ?case by (simp add: gives_Some)
next
  case (Cons n names)
  show ?case unfolding delete_each.simps
    by (rule gives_bind [OF gives_write [OF cooperates_answers(2) [OF Cons.prems]]])
      (simp add: delete_failed_def Cons.IH from_now_goes [OF Cons.prems])
qed

lemma gives_DeletePVCs:
  assumes "from_now (hist s) (cooperates E sp)"
  shows "gives (\<lambda>e. e = None) (DeletePVCs E s) s"
  unfolding DeletePVCs_def
  by (rule gives_bind, rule gives_get [where f = e_list_pvcs and P = "\<lambda>r. \<exists>x. r = Inr x"], rule cooperates_answers(8) [OF assms])
    (auto simp: gives_delete_each [OF from_now_goes [OF assms]])

text \<open>With the node's objects in place.\<close>

lemma gives_updates:
  assumes co: "from_now (hist s) (cooperates E sp)" and node: "node_runs E rv (hist s)"
  shows "gives (\<lambda>e. e = None) (UpdateConfigMap E sp pw s) s"
    and "buildable E sp \<Longrightarrow> gives (\<lambda>e. e = None) (UpdateStatefulSetTemplate E owner sp chk s) s"
    and "gives (\<lambda>r. r = Inr True) (AllPodsReady E 1 s) s"
proof -
  note now = cooperates_answers [OF from_now_log [OF co]]
  show "gives (\<lambda>e. e = None) (UpdateConfigMap E sp pw s) s"
    using node now by (auto simp: UpdateConfigMap_def gives_defs failed_def node_runs_def)
  show "gives (\<lambda>r. r = Inr True) (AllPodsReady E 1 s) s"
    using node by (auto simp: AllPodsReady_def gives_defs node_runs_def)
  assume "buildable E sp"
  then obtain d where "desired_statefulset E owner sp = Some (Inr d)" by (auto simp: buildable_def)
  then show "gives (\<lambda>e. e = None) (UpdateStatefulSetTemplate E owner sp chk s) s"
    using node now by (auto simp: UpdateStatefulSetTemplate_def gives_defs failed_def node_runs_def)
qed

lemma map_of_assoc_put: "map_of (assoc_put k v m) = (map_of m)(k \<mapsto> v)"
  by (induction k v m rule: assoc_put.induct) (auto simp: fun_eq_iff)

lemma pod_addresses_listed:
  assumes "(\<exists>p\<in>set pods. po_Name p = n \<and> po_PodIP p \<noteq> []) \<or> map_of addrs n \<noteq> None"
    and "\<forall>k. map_of addrs k \<noteq> Some []"
  shows "\<exists>a. map_of (pod_addresses pods addrs) n = Some a \<and> a \<noteq> []"
  using assms
proof (induction pods arbitrary: addrs)
  case (Cons p pods)
  show ?case
  proof (cases "po_PodIP p = []")
    case False
    show ?thesis using False Cons.prems
      by (auto simp: map_of_assoc_put split: if_splits intro!: Cons.IH)
  qed (use Cons in auto)
qed auto

lemma gives_reachable:
  assumes co: "from_now (hist s) (cooperates E sp)" and node: "node_runs E rv (hist s)"
    and "0 < connectionMaxRetries (run s)"
  shows "gives (\<lambda>a. \<exists>x. a = Some x) (standaloneNodeReachable E pw s) s"
proof -
  obtain pods a where pods: "e_list_pods E (hist s) = Inr pods"
    and a: "map_of (pod_addresses pods []) (pod_name E 0) = Some a" "a \<noteq> []"
    using node pod_addresses_listed [of _ "pod_name E 0" "[]"] by (auto simp: node_runs_def) blast
  let ?s = "log (Read ListPods) s"
  have retries: "0 < cc_ConnectionMaxRetries (RuntimeClusterConfig (run ?s))"
    using assms(3) by (simp add: RuntimeClusterConfig_def)
  have "e_redis E (hist ?s) a pw Ping = None" using cooperates_answers(4) [OF from_now_log [OF co]] by simp
  then have "standaloneNodeReachable E pw s = Some (Some a, log (Command a pw Ping None) ?s)"
    using CheckConnection_up [of E ?s "(a, pw)", OF _ retries]
    by (simp add: standaloneNodeReachable_def GetPodAddresses_def k8s_get_def pods a Let_def)
  then show ?thesis by (simp add: gives_def)
qed

section \<open>Recording the progress\<close>

text \<open>The configuration in memory is the one stored, the last of the list.\<close>

definition tracked :: "redkey_config list \<Rightarrow> redkey_config list \<Rightarrow> redkey_config \<Rightarrow> st \<Rightarrow> bool" where
  "tracked cs ps c0 s = (stored cs (hist s) = ps @ [cfg s] \<and> static (cfg s) = static c0 \<and> 0 < connectionMaxRetries (run s))"

lemma tracked_goes: "tracked cs ps c0 s \<Longrightarrow> goes s s' \<Longrightarrow> tracked cs ps c0 s'"
  unfolding tracked_def goes_def using stored_quiet by metis

lemma tracked_spec: "tracked cs ps c0 s \<Longrightarrow> spec_of s = rc_Spec c0"
  by (simp add: tracked_def static_def)

text \<open>\<open>records f m s\<close>: \<open>m\<close> changes the status by \<open>f\<close> and writes it.\<close>

definition records :: "(config_state \<Rightarrow> config_state) \<Rightarrow> 'r \<Rightarrow> (st \<Rightarrow> 'r op) \<Rightarrow> st \<Rightarrow> bool" where
  "records f r m s = (m s = Some (r, log (StatusWrite (cfg (set_status f s)) None) (set_status f s)))"

lemma records_ops:
  assumes "from_now (hist s) (cooperates E sp)"
  shows "records (\<lambda>x. x\<lparr>cs_Status := v\<rparr>) None (updateClusterStatus E v) s"
    and "records (\<lambda>x. x\<lparr>cs_ConfigPhase := Applied\<rparr>) None (setConfigPhaseApplied E) s"
    and "records f None (write_status E f) s"
    and "records (\<lambda>x. x\<lparr>cs_ConfigPhase := InProgress\<rparr>) None (setConfigPhaseInProgress E) s"
  using cooperates_answers(1) [OF assms]
  by (simp_all add: records_def updateClusterStatus_def setConfigPhaseApplied_def write_status_def
      setConfigPhaseInProgress_def status_update_def update_status_def set_status_def failed_def)

lemma tracked_written:
  assumes "tracked cs ps c0 s" and "in_sequence cs"
  shows "tracked cs ps c0 (log (StatusWrite (cfg (set_status f s)) None) (set_status f s))"
proof -
  let ?L = "stored cs (hist s)" and ?c = "cfg (set_status f s)"
  have L: "?L = ps @ [cfg s]" and st: "static ?c = static (?L ! length ps)"
    using assms(1) by (simp_all add: tracked_def set_status_def)
  have "distinct (map rc_Name ?L)" using in_sequence_stored [of cs "hist s"] assms(2) by (simp add: in_sequence_def)
  from record_write_at [OF this _ st] L have "record_write (StatusWrite ?c None) ?L = ps @ [?c]" by simp
  then show ?thesis using assms(1) by (simp add: tracked_def set_status_def)
qed

lemma yields_record:
  assumes "tracked cs ps c0 s" and "in_sequence cs"
    and "\<And>s'. tracked cs ps c0 s' \<Longrightarrow> rc_Status (cfg s') = f (rc_Status (cfg s)) \<Longrightarrow> suffix (hist s) (hist s') \<Longrightarrow> yields Q (k s')"
  shows "records f None m s \<Longrightarrow> yields Q (or_fail ctx m k s)"
    and "records f u m' s \<Longrightarrow> yields Q (andthen m' k s)"
proof -
  let ?s = "log (StatusWrite (cfg (set_status f s)) None) (set_status f s)"
  have "yields Q (k ?s)"
    by (rule assms(3), rule tracked_written [OF assms(1,2)]) (simp_all add: set_status_def suffix_Cons)
  then show "records f None m s \<Longrightarrow> yields Q (or_fail ctx m k s)" "records f u m' s \<Longrightarrow> yields Q (andthen m' k s)"
    by (simp_all add: records_def or_fail_def andthen_def)
qed

section \<open>The passes of the standalone handlers\<close>

definition pod_revision :: "env \<Rightarrow> history \<Rightarrow> string" where
  "pod_revision E h = (case e_get_pod E h (pod_name E 0) of Inl k \<Rightarrow> []
     | Inr p \<Rightarrow> (case entries (po_PodLabels p) PodTemplateHashLabel of None \<Rightarrow> [] | Some v \<Rightarrow> v))"

definition with_node :: "cluster_status \<Rightarrow> bool" where
  "with_node v = (v = Initializing \<or> v = Configuring \<or> v = Upgrading)"

text \<open>Everything does its part from the history \<open>h0\<close> on: the API stores the configurations and cooperates;
  while the stored status of the last configuration is one with a node, the node runs; and a deleted pod comes
  back with the revision \<open>rv\<close> of the template.\<close>

definition conducive :: "env \<Rightarrow> redkey_config list \<Rightarrow> config_spec \<Rightarrow> string \<Rightarrow> history \<Rightarrow> bool" where
  "conducive E cs sp rv h0 = (e_is_standalone E sp \<and> buildable E sp \<and> rv \<noteq> [] \<and> in_sequence cs \<and> api_stores E cs h0
     \<and> from_now h0 (cooperates E sp)
     \<and> from_now h0 (\<lambda>h. with_node (status_of (last (stored cs h))) \<longrightarrow> node_runs E rv h)
     \<and> from_now h0 (\<lambda>h. from_now (Write (DeletePodObj (pod_name E 0)) None # h) (\<lambda>h'. pod_revision E h' = rv)))"

lemma conducive_later: "conducive E cs sp rv h0 \<Longrightarrow> suffix h0 h \<Longrightarrow> conducive E cs sp rv h"
  unfolding conducive_def api_stores_def using from_now_later suffix_order.trans by blast

lemma conducive_goes: "conducive E cs sp rv (hist s) \<Longrightarrow> goes s s' \<Longrightarrow> conducive E cs sp rv (hist s')"
  using conducive_later goes_suffix by blast

lemma conducive_node:
  assumes "conducive E cs sp rv (hist s)" and "tracked cs ps c0 s" and "with_node (status_of (cfg s))"
  shows "node_runs E rv (hist s)"
  using assms by (auto simp: conducive_def tracked_def dest: from_nowD [OF _ suffix_order.refl])

definition settled :: "redkey_config \<Rightarrow> bool" where
  "settled c = (status_of c = Ready \<and> phase_of c = Applied)"

text \<open>How a pass ends: without an error, with the configuration stored as it is in memory.\<close>

definition lands :: "redkey_config list \<Rightarrow> redkey_config list \<Rightarrow> redkey_config \<Rightarrow> history \<Rightarrow> (st \<Rightarrow> bool) \<Rightarrow> outcome \<Rightarrow> st \<Rightarrow> bool" where
  "lands cs ps c0 h P r s = (snd r = None \<and> tracked cs ps c0 s \<and> suffix h (hist s) \<and> P s)"

lemma lands_ends: "tracked cs ps c0 s \<Longrightarrow> suffix h (hist s) \<Longrightarrow> P s \<Longrightarrow> yields (lands cs ps c0 h P) (ends sch s)"
  by (simp add: ends_def lands_def)

lemma lands_mono: "yields (lands cs ps c0 h P) m \<Longrightarrow> (\<And>s. P s \<Longrightarrow> P' s) \<Longrightarrow> yields (lands cs ps c0 h P') m"
  by (erule yields_mono) (simp add: lands_def)

lemma finish_passes:
  assumes con: "conducive E cs (rc_Spec c0) rv (hist s)" and tr: "tracked cs ps c0 s" and node: "with_node (status_of (cfg s))"
    and h: "suffix h (hist s)"
  shows "yields (lands cs ps c0 h (\<lambda>s. settled (cfg s))) (standalone_finish E pw s)"
proof -
  have co: "from_now (hist s) (cooperates E (rc_Spec c0))" and seq: "in_sequence cs" using con by (simp_all add: conducive_def)
  have last: "yields (lands cs ps c0 h (\<lambda>s. settled (cfg s)))
      (andthen (updateStandaloneNodeStatus E a) (or_fail [] (updateClusterStatus E Ready)
        (or_fail [] (setConfigPhaseApplied E) (ends reconcileAfterInterval))) t)"
    if t: "goes s t" for a t
  proof -
    have co_t: "from_now (hist u) (cooperates E (rc_Spec c0))" if "suffix (hist t) (hist u)" for u
      using from_now_later [OF from_now_goes [OF co t] that] .
    show ?thesis unfolding updateStandaloneNodeStatus_def
      by (rule yields_record(2) [OF tracked_goes [OF tr t] seq _ records_ops(3) [OF co_t]],
          rule yields_record(1) [OF _ seq _ records_ops(1) [OF co_t]], assumption,
          rule yields_record(1) [OF _ seq _ records_ops(2) [OF co_t]], assumption,
          rule lands_ends, assumption)
        (use h goes_suffix [OF t] in \<open>auto simp: settled_def intro: suffix_order.trans\<close>)
  qed
  show ?thesis unfolding standalone_finish_def
    by (simp, rule gives_yields [OF gives_reachable [OF co conducive_node [OF con tr node]]])
      (use tr last in \<open>auto simp: tracked_def\<close>)
qed

text \<open>What every handler starts from.\<close>

definition on_track :: "env \<Rightarrow> redkey_config list \<Rightarrow> redkey_config list \<Rightarrow> redkey_config \<Rightarrow> string \<Rightarrow> history \<Rightarrow> st \<Rightarrow> bool" where
  "on_track E cs ps c0 rv h s = (conducive E cs (rc_Spec c0) rv (hist s) \<and> tracked cs ps c0 s \<and> suffix h (hist s))"

lemma on_track_goes: "on_track E cs ps c0 rv h s \<Longrightarrow> goes s s' \<Longrightarrow> on_track E cs ps c0 rv h s'"
  unfolding on_track_def using conducive_goes tracked_goes goes_suffix suffix_order.trans by metis

lemma on_track_facts:
  assumes "on_track E cs ps c0 rv h s"
  shows "from_now (hist s) (cooperates E (rc_Spec c0))" "in_sequence cs" "buildable E (rc_Spec c0)"
    "spec_of s = rc_Spec c0" "tracked cs ps c0 s" "suffix h (hist s)" "rv \<noteq> []" "e_is_standalone E (rc_Spec c0)"
    "conducive E cs (rc_Spec c0) rv (hist s)" "0 < connectionMaxRetries (run s)"
    "with_node (status_of (cfg s)) \<Longrightarrow> node_runs E rv (hist s)"
  using assms conducive_node tracked_spec by (auto simp: on_track_def conducive_def tracked_def)

lemma on_track_node: "on_track E cs ps c0 rv h s \<Longrightarrow> goes s s' \<Longrightarrow> with_node (status_of (cfg s)) \<Longrightarrow> node_runs E rv (hist s')"
  using on_track_facts(11) [OF on_track_goes] by (auto simp: goes_def)

lemma finish_lands:
  assumes "on_track E cs ps c0 rv h s" and "with_node (status_of (cfg s))" and "goes s s'"
  shows "yields (lands cs ps c0 h (\<lambda>s. settled (cfg s))) (standalone_finish E pw s')"
  using on_track_facts [OF on_track_goes [OF assms(1,3)]] assms(2,3) by (intro finish_passes) (auto simp: goes_def)

lemma initializing_lands:
  assumes t: "on_track E cs ps c0 rv h s" and node: "with_node (status_of (cfg s))"
  shows "yields (lands cs ps c0 h (\<lambda>s. settled (cfg s))) (handleStandaloneInitializing E s)"
proof -
  note f = on_track_facts [OF t]
  have "gives (\<lambda>r. \<exists>x. r = Inr x \<and> x) (AllPodsReady E 1 s) s"
    using gives_updates(3) [OF f(1) f(11) [OF node]] by (auto simp: gives_def elim!: yields_mono)
  then show ?thesis unfolding handleStandaloneInitializing_def
  proof (rule yields_step(2))
    fix x s' assume "x" and g: "goes s s'"
    have "gives (\<lambda>x. True) (getPassword E (spec_of s') s') s'"
      using gives_password(2) on_track_facts(1,4) [OF on_track_goes [OF t g]] by metis
    then have "yields (\<lambda>pw s. yields (lands cs ps c0 h (\<lambda>s. settled (cfg s))) (standalone_finish E pw s))
        (getPassword E (spec_of s') s')"
      by (rule gives_yields) (use finish_lands [OF t node] g goes_trans in blast)
    then show "yields (lands cs ps c0 h (\<lambda>s. settled (cfg s)))
        (if \<not> x then ends reconcileAfterWaitInterval s'
         else getPassword E (spec_of s') s' \<bind> (\<lambda>(password, s). standalone_finish E password s))"
      using \<open>x\<close> by simp
  qed
qed

lemma gives_recycle:
  assumes t: "on_track E cs ps c0 rv h s" and node: "with_node (status_of (cfg s))"
  shows "yields (\<lambda>r s'. goes s s' \<and> (r = Inr True \<or> r = Inr False \<and> from_now (hist s') (\<lambda>h. pod_revision E h = rv)))
      (recycleStandalonePod E s)"
    and "from_now (hist s) (\<lambda>h. pod_revision E h = rv) \<Longrightarrow>
      yields (\<lambda>r s'. goes s s' \<and> r = Inr True) (recycleStandalonePod E s)"
proof -
  let ?s1 = "log (Read GetStatefulSet) s" let ?s2 = "log (Read (GetPod (pod_name E 0))) ?s1"
  have n1: "node_runs E rv (hist s)" by (rule on_track_facts(11) [OF t node])
  have n2: "node_runs E rv (hist ?s1)" by (rule on_track_node [OF t _ node]) simp
  have co: "from_now (hist ?s2) (cooperates E (rc_Spec c0))"
    by (rule on_track_facts(1) [OF on_track_goes [OF t]]) simp
  obtain p where p: "e_get_pod E (hist ?s1) (pod_name E 0) = Inr p" using n2 by (auto simp: node_runs_def)
  have observed: "GetStatefulSetUpdateRevisionObserved E s = Some (Inr (Some rv), ?s1)"
    using n1 by (auto simp: node_runs_def GetStatefulSetUpdateRevisionObserved_def k8s_get_def)
  have hash: "GetPodControllerRevisionHash E 0 ?s1 = Some (Inr (pod_revision E (hist ?s1)), ?s2)"
    using p by (simp add: GetPodControllerRevisionHash_def get_pod_def k8s_get_def pod_revision_def)
  have "e_write E (hist ?s2) (DeletePodObj (pod_name E 0)) = None" by (rule cooperates_answers(2) [OF co])
  then have del: "DeletePod E (pod_name E 0) ?s2 = Some (None, log (Write (DeletePodObj (pod_name E 0)) None) ?s2)"
    by (simp add: DeletePod_def k8s_write_def delete_failed_def Let_def)
  have after: "from_now (Write (DeletePodObj (pod_name E 0)) None # hist ?s2) (\<lambda>h. pod_revision E h = rv)"
    using on_track_facts(9) [OF on_track_goes [OF t, of ?s2]] by (auto simp: conducive_def dest: from_nowD)
  show "yields (\<lambda>r s'. goes s s' \<and> (r = Inr True \<or> r = Inr False \<and> from_now (hist s') (\<lambda>h. pod_revision E h = rv)))
      (recycleStandalonePod E s)"
    using on_track_facts(7) [OF t] after by (simp add: recycleStandalonePod_def observed hash del)
  assume "from_now (hist s) (\<lambda>h. pod_revision E h = rv)"
  then have "pod_revision E (hist ?s1) = rv" by (auto simp: from_now_def suffix_Cons)
  then show "yields (\<lambda>r s'. goes s s' \<and> r = Inr True) (recycleStandalonePod E s)"
    using on_track_facts(7) [OF t] by (simp add: recycleStandalonePod_def observed hash)
qed

text \<open>An upgrade: the objects are updated, then the pod is recycled unless it is current.\<close>

definition after_recycle :: "env \<Rightarrow> string \<Rightarrow> bool \<Rightarrow> st \<Rightarrow> outcome op" where
  "after_recycle E password recycled =
     (if \<not> recycled then ends reconcileAfterWaitInterval
      else get_or_fail ''checking standalone pod readiness during upgrade'' (AllPodsReady E 1) (\<lambda>ready.
             if \<not> ready then ends reconcileAfterWaitInterval else standalone_finish E password))"

lemma upgrading_reduces:
  assumes t: "on_track E cs ps c0 rv h s" and node: "with_node (status_of (cfg s))"
    and k: "\<And>pw s'. goes s s' \<Longrightarrow> yields Q (get_or_fail [] (recycleStandalonePod E) (after_recycle E pw) s')"
  shows "yields Q (handleStandaloneUpgrading E s)"
proof -
  have sp: "spec_of s' = rc_Spec c0" and co: "from_now (hist s') (cooperates E (rc_Spec c0))"
    and b: "buildable E (rc_Spec c0)" and n: "node_runs E rv (hist s')" if "goes s s'" for s'
    using on_track_facts [OF on_track_goes [OF t that]] on_track_node [OF t that node] by simp_all
  have step: "yields Q (or_fail c m k' s')"
    if "goes s s'" and "gives (\<lambda>e. e = None) (m s') s'" and "\<And>s''. goes s s'' \<Longrightarrow> yields Q (k' s'')" for c m k' s'
    by (rule yields_step(1)) (use that goes_trans in blast)+
  have m: "gives (\<lambda>e. e = None) (UpdateConfigMap E (spec_of s') pw s') s'"
    "gives (\<lambda>e. e = None) (UpdateStatefulSetTemplate E owner (spec_of s') chk s') s'"
    "gives (\<lambda>e. e = None) (ReconcileService E (spec_of s') s') s'" "gives (\<lambda>e. e = None) (ReconcilePDB E (spec_of s') s') s'"
    "gives (\<lambda>x. True) (getPassword E (spec_of s') s') s'"
    if "goes s s'" for s' pw owner chk
    using gives_updates [OF co [OF that] n [OF that]] gives_objects [OF co [OF that]] b [OF that]
      gives_password(2) [OF co [OF that]] by (simp_all add: sp [OF that])
  show ?thesis unfolding handleStandaloneUpgrading_def after_recycle_def [symmetric]
    by (rule yields_step(2), rule gives_getOwner [OF co [OF goes_refl]], simp only: yields_bind,
        rule gives_yields, erule m(5), intro step m k; (assumption | erule (1) goes_trans)?)
qed

lemma after_recycle_lands:
  assumes t: "on_track E cs ps c0 rv h s" and node: "with_node (status_of (cfg s))"
  shows "yields (lands cs ps c0 h (\<lambda>s. settled (cfg s))) (after_recycle E pw True s)"
proof -
  note f = on_track_facts [OF t]
  have "gives (\<lambda>r. \<exists>x. r = Inr x \<and> x) (AllPodsReady E 1 s) s"
    using gives_updates(3) [OF f(1) f(11) [OF node]] by (auto simp: gives_def elim!: yields_mono)
  then have "yields (lands cs ps c0 h (\<lambda>s. settled (cfg s)))
      (get_or_fail ''checking standalone pod readiness during upgrade'' (AllPodsReady E 1) (\<lambda>ready.
         if \<not> ready then ends reconcileAfterWaitInterval else standalone_finish E pw) s)"
    by (rule yields_step(2)) (use finish_lands [OF t node] in simp)
  then show ?thesis by (simp add: after_recycle_def)
qed

lemma upgrading_lands:
  assumes t: "on_track E cs ps c0 rv h s" and node: "with_node (status_of (cfg s))"
  shows "yields (lands cs ps c0 h (\<lambda>s'. settled (cfg s')
      \<or> cfg s' = cfg s \<and> from_now (hist s') (\<lambda>h. pod_revision E h = rv))) (handleStandaloneUpgrading E s)"
    and "from_now (hist s) (\<lambda>h. pod_revision E h = rv) \<Longrightarrow>
      yields (lands cs ps c0 h (\<lambda>s. settled (cfg s))) (handleStandaloneUpgrading E s)"
proof -
  have later: "on_track E cs ps c0 rv h s'" "with_node (status_of (cfg s'))" if "goes s s'" for s'
    using on_track_goes [OF t that] node that by (simp_all add: goes_def)
  have settles: "yields (lands cs ps c0 h (\<lambda>s. settled (cfg s))) (after_recycle E pw True s')" if "goes s s'" for s' pw
    by (rule after_recycle_lands [OF later [OF that]])
  let ?P = "\<lambda>s'. settled (cfg s') \<or> cfg s' = cfg s \<and> from_now (hist s') (\<lambda>h. pod_revision E h = rv)"
  show "yields (lands cs ps c0 h ?P) (handleStandaloneUpgrading E s)"
  proof (rule upgrading_reduces [OF t node])
    fix pw s' assume g: "goes s s'"
    have "yields (lands cs ps c0 h ?P) (after_recycle E pw True s'')" if "goes s' s''" for s''
      by (rule lands_mono [OF settles [OF goes_trans [OF g that]]]) simp
    moreover have "yields (lands cs ps c0 h ?P) (after_recycle E pw False s'')"
      if "goes s' s''" "from_now (hist s'') (\<lambda>h. pod_revision E h = rv)" for s''
      using on_track_facts [OF on_track_goes [OF t goes_trans [OF g that(1)]]] that goes_trans [OF g that(1)]
      by (auto simp: after_recycle_def goes_def intro!: lands_ends)
    ultimately show "yields (lands cs ps c0 h ?P) (get_or_fail [] (recycleStandalonePod E) (after_recycle E pw) s')"
      unfolding get_or_fail_def yields_bind
      by (intro yields_mono [OF gives_recycle(1) [OF later [OF g]]]) auto
  qed
  assume now: "from_now (hist s) (\<lambda>h. pod_revision E h = rv)"
  show "yields (lands cs ps c0 h (\<lambda>s. settled (cfg s))) (handleStandaloneUpgrading E s)"
  proof (rule upgrading_reduces [OF t node])
    fix pw s' assume g: "goes s s'"
    show "yields (lands cs ps c0 h (\<lambda>s. settled (cfg s))) (get_or_fail [] (recycleStandalonePod E) (after_recycle E pw) s')"
      unfolding get_or_fail_def yields_bind
      by (rule yields_mono [OF gives_recycle(2) [OF later [OF g] from_now_goes [OF now g]]])
        (use settles goes_trans [OF g] in auto)
  qed
qed

text \<open>Creation and removal of the objects.\<close>

lemma provision_lands:
  assumes t: "on_track E cs ps c0 rv h s"
  shows "yields (lands cs ps c0 h (\<lambda>s'. status_of (cfg s') = Initializing \<and> phase_of (cfg s') = phase_of (cfg s))) (provision E ctx s)"
proof -
  have f: "spec_of s' = rc_Spec c0" "from_now (hist s') (cooperates E (rc_Spec c0))" "buildable E (rc_Spec c0)"
    "in_sequence cs" "tracked cs ps c0 s'" "suffix h (hist s')" "phase_of (cfg s') = phase_of (cfg s)" if "goes s s'" for s'
    using on_track_facts [OF on_track_goes [OF t that]] that by (simp_all add: goes_def)
  have run: "goes s (s'\<lparr>run := SetAuthSecret x (run s')\<rparr>)" if "goes s s'" for s' x
    using that by (simp add: goes_def SetAuthSecret_def)
  have last: "yields (lands cs ps c0 h (\<lambda>s'. status_of (cfg s') = Initializing \<and> phase_of (cfg s') = phase_of (cfg s)))
      (or_fail [] (updateClusterStatus E Initializing) (ends reconcileImmediately) s')" if "goes s s'" for s'
    by (rule yields_record(1) [OF f(5) [OF that] f(4) [OF that] _ records_ops(1) [OF f(2) [OF that]]], rule lands_ends)
      (use f [OF that] in \<open>auto intro: suffix_order.trans\<close>)
  have objects: "yields Q (or_fail ctx (EnsureClusterObjects E owner (spec_of s'') pw) k s')"
    if "goes s s'" and "goes s s''" and "\<And>s''. goes s s'' \<Longrightarrow> yields Q (k s'')" for owner pw k s' s'' Q
    unfolding f(1) [OF that(2)]
    by (rule yields_step(1), rule gives_objects(3) [OF f(2,3) [OF that(1)]]) (use that goes_trans in blast)
  have owner: "yields Q (get_or_fail c (getOwner E) k s')"
    if "goes s s'" and "\<And>x s''. goes s s'' \<Longrightarrow> yields Q (k x s'')" for c k s' Q
    by (rule yields_step(2), rule gives_getOwner [OF f(2) [OF that(1)]]) (use that goes_trans in blast)
  have password: "yields Q (get_or_fail c (GetRedisPassword E (sp_AuthSecretName (spec_of s'))) k s')"
    if "goes s s'" and "\<And>x s''. goes s s'' \<Longrightarrow> yields Q (k x s'')" for c k s' Q
    unfolding f(1) [OF that(1)]
    by (rule yields_step(2), rule gives_password(1) [OF f(2) [OF that(1)]]) (use that goes_trans in blast)
  show ?thesis unfolding provision_def by (rule owner, rule goes_refl, rule password, assumption, rule objects, rule run, assumption, assumption, rule last)
qed

lemma on_track_later:
  "on_track E cs ps c0 rv h s \<Longrightarrow> tracked cs ps c0 s' \<Longrightarrow> suffix (hist s) (hist s') \<Longrightarrow> on_track E cs ps c0 rv h s'"
  unfolding on_track_def using conducive_later suffix_order.trans by blast

lemma on_track_records:
  assumes "on_track E cs ps c0 rv h s"
    and "\<And>s'. on_track E cs ps c0 rv h s' \<Longrightarrow> rc_Status (cfg s') = f (rc_Status (cfg s)) \<Longrightarrow> yields Q (k s')"
  shows "records f None m s \<Longrightarrow> yields Q (or_fail ctx m k s)" "records f u m' s \<Longrightarrow> yields Q (andthen m' k s)"
  by (rule yields_record [OF on_track_facts(5,2) [OF assms(1)]], rule assms(2), rule on_track_later [OF assms(1)], assumption+)+

lemma substatus_lands:
  assumes t: "on_track E cs ps c0 rv h s"
    and k: "\<And>s'. on_track E cs ps c0 rv h s' \<Longrightarrow> phase_of (cfg s') = phase_of (cfg s) \<Longrightarrow> yields Q (k s')"
  shows "yields Q (andthen (updateSubstatus E v) k s)"
proof (cases "substatus_of (cfg s) = v")
  case True
  then show ?thesis using k [OF t] by (simp add: andthen_def updateSubstatus_def)
next
  case False
  then have "records (\<lambda>x. x\<lparr>cs_Substatus := v\<rparr>) () (updateSubstatus E v) s"
    using cooperates_answers(1) [OF on_track_facts(1) [OF t]]
    by (simp add: records_def updateSubstatus_def status_update_def update_status_def set_status_def)
  then show ?thesis by (rule on_track_records(2) [OF t, rotated]) (use k in auto)
qed

lemma ready_applied_lands:
  assumes t: "on_track E cs ps c0 rv h s" and ready: "\<And>x. cs_Status (f x) = Ready"
  shows "yields (lands cs ps c0 h (\<lambda>s. settled (cfg s)))
    (or_fail c1 (write_status E f) (or_fail c2 (setConfigPhaseApplied E) (ends sch)) s)"
proof (rule on_track_records(1) [OF t _ records_ops(3) [OF on_track_facts(1) [OF t]]])
  fix s' assume t': "on_track E cs ps c0 rv h s'" and f: "rc_Status (cfg s') = f (rc_Status (cfg s))"
  show "yields (lands cs ps c0 h (\<lambda>s. settled (cfg s))) (or_fail c2 (setConfigPhaseApplied E) (ends sch) s')"
    by (rule on_track_records(1) [OF t' _ records_ops(2) [OF on_track_facts(1) [OF t']]], rule lands_ends)
      (use ready f in \<open>auto simp: settled_def dest: on_track_facts(5,6)\<close>)
qed

lemma scale_to_zero_lands:
  assumes t: "on_track E cs ps c0 rv h s"
  shows "yields (lands cs ps c0 h (\<lambda>s. settled (cfg s))) (handleScalingToZero E s)"
proof -
  have gone: "yields (lands cs ps c0 h (\<lambda>s. settled (cfg s))) (scale_zero_finish E u)" if u: "on_track E cs ps c0 rv h u" for u
  proof -
    let ?f = "\<lambda>x. x\<lparr>cs_Nodes := Some Map.empty, cs_Status := Ready, cs_Substatus := SubEmpty\<rparr>"
    have "scale_zero_finish E u = or_fail ''updating status after scale-to-zero'' (write_status E ?f)
        (or_fail ''scale-to-zero'' (setConfigPhaseApplied E) (ends reconcileAfterInterval)) u"
      by (simp add: scale_zero_finish_def or_fail_def write_status_def)
    then show ?thesis using ready_applied_lands [OF u, of ?f] by simp
  qed
  have step: "yields Q (or_fail c m k s')"
    if "on_track E cs ps c0 rv h s'" and "gives (\<lambda>e. e = None) (m s') s'"
      and "\<And>s''. on_track E cs ps c0 rv h s'' \<Longrightarrow> yields Q (k s'')" for c m k s' Q
    by (rule yields_step(1)) (use that on_track_goes in blast)+
  note co = on_track_facts(1)
  show ?thesis unfolding handleScalingToZero_def
    by (rule substatus_lands [OF t], rule step, assumption, erule gives_deletions [OF co],
        rule step, assumption, erule gives_deletions [OF co], rule step, assumption, erule gives_deletions [OF co],
        rule step, assumption, erule gives_deletions [OF co])
      (auto intro: gone step gives_DeletePVCs [OF co] substatus_lands)
qed

lemma handleNew_lands:
  assumes t: "on_track E cs ps c0 rv h s"
  shows "yields (lands cs ps c0 h (\<lambda>s'. settled (cfg s') \<or> status_of (cfg s') = Initializing \<and> phase_of (cfg s') = phase_of (cfg s)))
    (handleNew E s)"
proof (cases "primaries (spec_of s) = 0")
  case True
  have "yields (lands cs ps c0 h (\<lambda>s'. settled (cfg s')))
     (or_fail ''updating status for zero-primary cluster''
          (write_status E (\<lambda>x. x\<lparr>cs_Status := Ready, cs_Nodes := Some Map.empty\<rparr>))
          (or_fail [] (setConfigPhaseApplied E) (ends reconcileAfterInterval)) s)"
    by (rule ready_applied_lands [OF t]) simp
  from lands_mono [OF this] True show ?thesis by (simp add: handleNew_def)
next
  case False
  with lands_mono [OF provision_lands [OF t]] show ?thesis by (simp add: handleNew_def)
qed

text \<open>The password on the running node.\<close>

lemma quiet_extends: "keeps (extends quiet s) m \<Longrightarrow> (\<And>r s'. goes s s' \<Longrightarrow> Q r s') \<Longrightarrow> yields Q m"
  by (rule gives_yields [OF gives_of_keeps])

lemma config_set_each_total: "yields (\<lambda>r s'. goes s s') (config_set_each E old new addrs s)"
proof -
  have "keeps (extends quiet s) (config_set_each E old new addrs t)" if "extends quiet s t" for t
    using that
  proof (induction addrs arbitrary: t)
    case (Cons a addrs)
    obtain n x where a: "a = (n, x)" by (cases a)
    show ?case unfolding a config_set_each.simps by (intro keeps_intro Cons.IH; simp add: Cons.prems)
  qed (simp add: keeps_Some)
  from quiet_extends [OF this [OF extends_refl]] show ?thesis .
qed

lemma config_set_each_ok:
  "from_now (hist s) (cooperates E sp) \<Longrightarrow> gives (\<lambda>e. e = None) (config_set_each E old new addrs s) s"
proof (induction addrs arbitrary: s)
  case Nil
  then show ?case by (simp add: gives_Some)
next
  case (Cons a addrs)
  obtain n x where a: "a = (n, x)" by (cases a)
  have set_ok: "gives (\<lambda>e. e = None) (ClientConfigSet E c p v t) t" if "from_now (hist t) (cooperates E sp)" for c p v t
    using cooperates_answers(4) [OF that] by (simp add: ClientConfigSet_def command_def redis_do_def wrapped_def gives_def)
  show ?case unfolding a config_set_each.simps
    by (rule gives_bind [OF set_ok [OF Cons.prems]], simp, rule gives_bind [OF set_ok [OF from_now_goes [OF Cons.prems]]])
      (use Cons.IH from_now_goes [OF from_now_goes [OF Cons.prems]] in auto)
qed

lemma goes_auth: "goes s (t\<lparr>run := SetAuthSecret x (run t)\<rparr>) = goes s t"
  by (simp add: goes_def SetAuthSecret_def)

lemma applyAuthCredentials_total: "yields (\<lambda>r s'. goes s s') (applyAuthCredentials E old new s)"
proof -
  have set_all: "yields (\<lambda>e s'. yields (\<lambda>r. goes s) (case e of Some ce \<Rightarrow> Some (Some ce, s')
      | None \<Rightarrow> do { (e, s') \<leftarrow> UpdateConfigMap E (spec_of s') new s';
                 case e of Some ue \<Rightarrow> Some (Some (wrap ''updating ConfigMap with new auth'' ue), s')
                 | None \<Rightarrow> Some (None, s'\<lparr>run := SetAuthSecret (sp_AuthSecretName (spec_of s')) (run s')\<rparr>) }))
      (config_set_each E old new order t)" if "goes s t" for order t
    by (rule yields_mono [OF config_set_each_total], split option.split, intro conjI allI impI)
      (use that goes_trans in \<open>auto simp: goes_auth split: option.split
        intro!: quiet_extends [OF keeps_updates(1)] intro: goes_trans\<close>)
  have addrs: "keeps (extends quiet s) (GetPodAddresses E s)" by (rule keeps_reads) simp_all
  show ?thesis unfolding applyAuthCredentials_def
    by (simp, rule quiet_extends [OF addrs]) (auto simp: map_order_def intro!: set_all split: sum.split)
qed

lemma standalone_ready_goes:
  "gives (\<lambda>r. snd r = None) (handleStandaloneReady E s) s"
proof -
  have pw: "keeps (extends quiet s) (getPassword E sp s)" for sp s
    unfolding getPassword_def by (intro keeps_intro; simp)
  have rotation: "yields (\<lambda>r s'. goes s s') (reconcileAuthRotation E p s)" for p s
    unfolding reconcileAuthRotation_def
    by (simp, rule quiet_extends [OF keeps_reads(2)])
      (auto intro!: yields_mono [OF applyAuthCredentials_total] intro: goes_trans split: sum.split)
  have up: "keeps (extends quiet s) (standaloneNodeReachable E p s)" for p s
    unfolding standaloneNodeReachable_def by (intro keeps_intro; simp)
  show ?thesis unfolding handleStandaloneReady_def gives_def
    by (simp, rule quiet_extends [OF pw], rule yields_mono [OF rotation], rule quiet_extends [OF up])
      (auto simp: ends_def intro: goes_trans)
qed

section \<open>A changed configuration\<close>

definition reachable_for_auth :: "env \<Rightarrow> history \<Rightarrow> bool" where
  "reachable_for_auth E h = ((\<exists>cm. e_get_cm E h = Inr cm) \<and> (\<exists>pods. e_list_pods E h = Inr pods))"

lemma applyAuthCredentials_ok:
  assumes co: "from_now (hist s) (cooperates E sp)" and auth: "from_now (hist s) (reachable_for_auth E)"
  shows "gives (\<lambda>e. e = None) (applyAuthCredentials E old new s) s"
proof -
  have addrs: "gives (\<lambda>r. \<exists>x. r = Inr x) (GetPodAddresses E s) s"
    using from_nowD [OF auth suffix_order.refl] by (auto simp: reachable_for_auth_def GetPodAddresses_def gives_defs)
  have update: "gives (\<lambda>e. e = None) (UpdateConfigMap E sp' pw t) t" if "goes s t" for sp' pw t
    using from_nowD [OF from_now_goes [OF auth that] suffix_order.refl]
      cooperates_answers(2) [OF from_now_log [OF from_now_goes [OF co that]]]
    by (auto simp: UpdateConfigMap_def gives_defs failed_def reachable_for_auth_def)
  have finish: "gives (\<lambda>e. e = None) (do { (e, t) \<leftarrow> UpdateConfigMap E (spec_of t) new t;
      case e of Some ue \<Rightarrow> Some (Some (wrap ''updating ConfigMap with new auth'' ue), t)
      | None \<Rightarrow> Some (None, t\<lparr>run := SetAuthSecret (sp_AuthSecretName (spec_of t)) (run t)\<rparr>) }) t" if "goes s t" for t
    by (rule gives_bind [OF update [OF that]]) (simp add: gives_def goes_auth)
  show ?thesis unfolding applyAuthCredentials_def
  proof (rule gives_bind [OF addrs], elim exE, simp only: sum.case, rule gives_bind [where P = "\<lambda>x. True"])
    fix s1 order s2 assume "goes s s1" and "goes s1 s2"
    then have g: "goes s s2" by (rule goes_trans)
    show "gives (\<lambda>e. e = None) (do { (e, t) \<leftarrow> config_set_each E old new order s2;
        case e of Some ce \<Rightarrow> Some (Some ce, t)
        | None \<Rightarrow> do { (e, t) \<leftarrow> UpdateConfigMap E (spec_of t) new t;
             case e of Some ue \<Rightarrow> Some (Some (wrap ''updating ConfigMap with new auth'' ue), t)
             | None \<Rightarrow> Some (None, t\<lparr>run := SetAuthSecret (sp_AuthSecretName (spec_of t)) (run t)\<rparr>) } }) s2"
      by (rule gives_bind [OF config_set_each_ok [OF from_now_goes [OF co g]]]) (use finish g goes_trans in auto)
  qed (simp add: gives_def map_order_def)
qed

lemma applyAuthToAllNodes_ok:
  assumes t: "on_track E cs ps c0 rv h s" and auth: "from_now (hist s) (reachable_for_auth E)"
  shows "gives (\<lambda>e. e = None) (applyAuthToAllNodes E p s) s"
proof -
  have pw: "gives (\<lambda>x. True) (getPassword E sp u) u" for sp u
    by (rule gives_of_keeps) (unfold getPassword_def, intro keeps_intro; simp)
  show ?thesis unfolding applyAuthToAllNodes_def
    by (rule gives_bind [OF pw], rule gives_bind [OF pw])
      (metis applyAuthCredentials_ok from_now_goes auth on_track_facts(1) [OF t])
qed

definition changing :: "redkey_config \<Rightarrow> config_phase \<Rightarrow> bool" where
  "changing c ph = (phase_of c = ph \<and> (status_of c = Initializing \<or> status_of c = Upgrading \<or> status_of c = ScalingToZero))"

lemma config_change_lands:
  assumes t: "on_track E cs ps c0 rv h s" and same: "status_of (cfg s) = Ready" "status_of p = Ready"
    and auth: "sp_AuthSecretName (rc_Spec p) = sp_AuthSecretName (rc_Spec c0) \<or> from_now (hist s) (reachable_for_auth E)"
  shows "yields (lands cs ps c0 h (\<lambda>s'. settled (cfg s') \<or> changing (cfg s') (phase_of (cfg s))))
    (handleStandaloneConfigChange E p s)"
proof -
  let ?report = "DetectChanges (rc_Spec p) (spec_of s)" and ?P = "\<lambda>s'. settled (cfg s') \<or> changing (cfg s') (phase_of (cfg s))"
  have set_status: "yields (lands cs ps c0 h ?P) (or_fail [] (updateClusterStatus E v) (ends reconcileImmediately) s')"
    if "goes s s'" "v = Upgrading \<or> v = ScalingToZero" for v s'
    by (rule on_track_records(1) [OF on_track_goes [OF t that(1)] _ records_ops(1) [OF on_track_facts(1) [OF on_track_goes [OF t that(1)]]]],
        rule lands_ends)
      (use that in \<open>auto simp: changing_def goes_def dest: on_track_facts(5,6)\<close>)
  have create: "yields (lands cs ps c0 h ?P) (ensureStandaloneObjects E s')" if "goes s s'" for s'
    unfolding ensureStandaloneObjects_def
    by (rule lands_mono [OF provision_lands [OF on_track_goes [OF t that]]]) (use that in \<open>auto simp: changing_def goes_def\<close>)
  have applied: "yields (lands cs ps c0 h ?P) (or_fail [] (setConfigPhaseApplied E) (ends reconcileAfterInterval) s')"
    if "goes s s'" for s'
    by (rule on_track_records(1) [OF on_track_goes [OF t that] _ records_ops(2) [OF on_track_facts(1) [OF on_track_goes [OF t that]]]],
        rule lands_ends)
      (use that same in \<open>auto simp: settled_def goes_def dest: on_track_facts(5,6)\<close>)
  let ?k = "\<lambda>s'. if HasTopologyChanges ?report then
       if primaries (spec_of s') = 0
       then or_fail [] (updateClusterStatus E ScalingToZero) (ends reconcileImmediately) s'
       else ensureStandaloneObjects E s'
     else if HasKubernetesChanges ?report \<or> HasRedisConfigChanges ?report
     then or_fail [] (updateClusterStatus E Upgrading) (ends reconcileImmediately) s'
     else adopt_status E ''updating standalone status from previous'' p
            (or_fail [] (setConfigPhaseApplied E) (ends reconcileAfterInterval)) s'"
  have rest: "yields (lands cs ps c0 h ?P) (?k s')" if "goes s s'" for s'
    using set_status [OF that] create [OF that] applied [OF that] same that
    by (simp add: adopt_status_def goes_def)
  show ?thesis
  proof (cases "HasAuthChanges ?report")
    case False
    then show ?thesis using rest [OF goes_refl] by (simp add: handleStandaloneConfigChange_def apply_auth_change_def Let_def)
  next
    case True
    then have "from_now (hist s) (reachable_for_auth E)"
      using auth on_track_facts(4) [OF t] by (simp add: DetectChanges_def Let_def)
    note auth_ok = applyAuthToAllNodes_ok [OF t this]
    have "yields (lands cs ps c0 h ?P) (or_fail ctx (applyAuthToAllNodes E p) ?k s)" for ctx
      by (rule yields_step(1), rule auth_ok, rule rest)
    then show ?thesis using True by (simp add: handleStandaloneConfigChange_def apply_auth_change_def Let_def)
  qed
qed

section \<open>One cycle\<close>

text \<open>How far a stored configuration is from being settled, in cycles. A fresh one has not been started; one
  that changes an existing node follows a ready one.\<close>

definition fresh :: "redkey_config option \<Rightarrow> redkey_config \<Rightarrow> bool" where
  "fresh prev c = (phase_of c = PhaseEmpty \<or> phase_of c = Pending \<and> (prev = None \<longrightarrow> status_of c = StatusEmpty)
     \<or> phase_of c = InProgress \<and> status_of c = StatusEmpty \<and> prev = None)"

definition within :: "env \<Rightarrow> string \<Rightarrow> redkey_config option \<Rightarrow> nat \<Rightarrow> redkey_config \<Rightarrow> history \<Rightarrow> bool" where
  "within E rv prev k c h = (settled c
     \<or> 1 \<le> k \<and> phase_of c = InProgress \<and> (status_of c \<in> {Initializing, Configuring, ScalingToZero}
         \<or> status_of c = Upgrading \<and> from_now h (\<lambda>h. pod_revision E h = rv))
     \<or> 2 \<le> k \<and> phase_of c = InProgress \<and> status_of c = Upgrading
     \<or> 3 \<le> k \<and> fresh prev c)"

lemma within_changing: "changing c InProgress \<Longrightarrow> within E rv prev 2 c h"
  by (auto simp: within_def changing_def)

lemma within_settled: "settled c \<Longrightarrow> within E rv prev k c h"
  by (simp add: within_def)

lemma within_mono: "within E rv prev k c h \<Longrightarrow> k \<le> l \<Longrightarrow> within E rv prev l c h"
  by (auto simp: within_def)

text \<open>Resuming what is in progress.\<close>

lemma resume_lands:
  assumes t: "on_track E cs ps c0 rv h s" and w: "within E rv prev k (cfg s) (hist s)" and ph: "phase_of (cfg s) \<noteq> PhaseEmpty"
    "phase_of (cfg s) \<noteq> Pending"
  shows "yields (lands cs ps c0 h (\<lambda>s'. within E rv prev (k - 1) (cfg s') (hist s'))) (ReconcileCluster E prev s)"
proof -
  let ?L = "\<lambda>k. lands cs ps c0 h (\<lambda>s'. within E rv prev k (cfg s') (hist s'))"
  have sa: "ReconcileCluster E prev s = reconcileStandalone E prev s"
    using on_track_facts(4,8) [OF t] by (simp add: ReconcileCluster_def)
  have up: "yields (?L j) m" if "yields (lands cs ps c0 h (\<lambda>s'. settled (cfg s'))) m" for j m
    by (rule lands_mono [OF that]) (rule within_settled)
  from w consider "settled (cfg s)"
    | "1 \<le> k" "status_of (cfg s) \<in> {Initializing, Configuring}"
    | "1 \<le> k" "status_of (cfg s) = ScalingToZero"
    | "1 \<le> k" "status_of (cfg s) = Upgrading" "from_now (hist s) (\<lambda>h. pod_revision E h = rv)"
    | "2 \<le> k" "phase_of (cfg s) = InProgress" "status_of (cfg s) = Upgrading"
    | "3 \<le> k" "phase_of (cfg s) = InProgress" "status_of (cfg s) = StatusEmpty" "prev = None"
    using ph by (auto simp: within_def fresh_def)
  then show ?thesis
  proof cases
    case 1
    have "yields (?L (k - 1)) (handleStandaloneReady E s)"
      by (rule gives_yields [OF standalone_ready_goes])
        (use 1 on_track_facts(5,6) [OF on_track_goes [OF t]] in \<open>auto simp: lands_def goes_def within_settled\<close>)
    then show ?thesis using 1 by (simp add: sa reconcileStandalone_def settled_def)
  next
    case 2
    from up [OF initializing_lands [OF t]] 2 show ?thesis by (auto simp: sa reconcileStandalone_def with_node_def)
  next
    case 3
    from up [OF scale_to_zero_lands [OF t]] 3 show ?thesis by (simp add: sa reconcileStandalone_def)
  next
    case 4
    from up [OF upgrading_lands(2) [OF t]] 4 show ?thesis by (simp add: sa reconcileStandalone_def with_node_def)
  next
    case 5
    then have node: "with_node (status_of (cfg s))" by (simp add: with_node_def)
    have "yields (?L (k - 1)) (handleStandaloneUpgrading E s)"
      by (rule lands_mono [OF upgrading_lands(1) [OF t node]]) (use 5 in \<open>auto simp: within_def\<close>)
    then show ?thesis using 5 by (simp add: sa reconcileStandalone_def)
  next
    case 6
    have "yields (?L (k - 1)) (handleNew E s)"
      by (rule lands_mono [OF handleNew_lands [OF t]]) (use 6 in \<open>auto simp: within_def\<close>)
    then show ?thesis using 6 sa by (simp add: reconcileStandalone_def)
  qed
qed

text \<open>Starting what is pending.\<close>

definition follows_ready :: "env \<Rightarrow> redkey_config option \<Rightarrow> config_spec \<Rightarrow> history \<Rightarrow> bool" where
  "follows_ready E prev sp h = (\<forall>p. prev = Some p \<longrightarrow> status_of p = Ready
     \<and> (sp_AuthSecretName (rc_Spec p) = sp_AuthSecretName sp \<or> from_now h (reachable_for_auth E)))"

lemma start_lands:
  assumes t: "on_track E cs ps c0 rv h s" and ph: "phase_of (cfg s) = Pending"
    and new: "prev = None \<longrightarrow> status_of (cfg s) = StatusEmpty" and p: "follows_ready E prev (rc_Spec c0) (hist s)"
  shows "yields (lands cs ps c0 h (\<lambda>s'. within E rv prev 2 (cfg s') (hist s'))) (reconcile_phase E prev s)"
proof -
  let ?L = "lands cs ps c0 h (\<lambda>s'. within E rv prev 2 (cfg s') (hist s'))"
  have rest: "yields ?L (or_fail [] (copyPreviousClusterStatus E prev) (start_config_change E prev) s1)"
    if t1: "on_track E cs ps c0 rv h s1" and ph1: "phase_of (cfg s1) = InProgress" and st1: "status_of (cfg s1) = status_of (cfg s)"
      and later: "suffix (hist s) (hist s1)" for s1
  proof (cases prev)
    case None
    have "yields ?L (handleNew E s1)"
      by (rule lands_mono [OF handleNew_lands [OF t1]]) (use ph1 in \<open>auto simp: within_def\<close>)
    then show ?thesis using None new st1 on_track_facts(4,8) [OF t1]
      by (simp add: or_fail_def copyPreviousClusterStatus_def start_config_change_def ReconcileCluster_def reconcileStandalone_def)
  next
    case (Some pc)
    let ?f = "\<lambda>x. (rc_Status pc)\<lparr>cs_ConfigPhase := cs_ConfigPhase x\<rparr>"
    have pc: "status_of pc = Ready"
      "sp_AuthSecretName (rc_Spec pc) = sp_AuthSecretName (rc_Spec c0) \<or> from_now (hist s) (reachable_for_auth E)"
      using p Some by (simp_all add: follows_ready_def)
    have go: "yields ?L (handleStandaloneConfigChange E pc s2)"
      if t2: "on_track E cs ps c0 rv h s2" and f: "rc_Status (cfg s2) = ?f (rc_Status (cfg s1))" and l2: "suffix (hist s1) (hist s2)" for s2
      by (rule lands_mono [OF config_change_lands [OF t2]])
        (use f pc ph1 from_now_later [OF _ suffix_order.trans [OF later l2]] in \<open>auto intro: within_settled within_changing\<close>)
    have "yields ?L (or_fail [] (write_status E ?f) (start_config_change E prev) s1)"
      by (rule yields_record(1) [OF on_track_facts(5,2) [OF t1] _ records_ops(3) [OF on_track_facts(1) [OF t1]]])
        (use Some go on_track_later [OF t1] on_track_facts(8) [OF t] tracked_spec in \<open>auto simp: start_config_change_def\<close>)
    then show ?thesis using Some by (simp add: or_fail_def copyPreviousClusterStatus_def)
  qed
  have "yields ?L (reconcile_pending E prev s)"
    unfolding reconcile_pending_def
  proof (rule yields_record(1) [OF on_track_facts(5,2) [OF t] _ records_ops(4) [OF on_track_facts(1) [OF t]]])
    fix s1 assume s1: "tracked cs ps c0 s1" "suffix (hist s) (hist s1)"
      and f: "rc_Status (cfg s1) = (rc_Status (cfg s))\<lparr>cs_ConfigPhase := InProgress\<rparr>"
    show "yields ?L (or_fail [] (copyPreviousClusterStatus E prev) (start_config_change E prev) s1)"
      by (rule rest [OF on_track_later [OF t s1] _ _ s1(2)]) (simp_all add: f)
  qed
  then show ?thesis using ph by (simp add: reconcile_phase_def)
qed

lemma init_phases_last:
  "list_all finished ps \<Longrightarrow> init_phases E (ps @ [c]) s = Some (ps @ [inited c],
     if phase_of c = PhaseEmpty then log (StatusWrite (inited c) (e_status E (hist s) (inited c))) s else s)"
proof (induction ps)
  case Nil
  then show ?case by (simp add: initConfigPhase_def update_status_def inited_def Let_def)
next
  case (Cons p ps)
  then show ?case by (auto simp: finished_def)
qed

text \<open>The settings a configuration brings leave at least one attempt to connect.\<close>

definition retries_ok :: "config_spec \<Rightarrow> bool" where
  "retries_ok sp = (\<forall>rc. 0 < connectionMaxRetries rc \<longrightarrow> 0 < connectionMaxRetries (SetFromRobinConfig (sp_RobinConfig sp) rc))"

lemma retries_kept:
  "retries_ok (rc_Spec (effective_config c prev)) \<Longrightarrow> 0 < connectionMaxRetries rc
   \<Longrightarrow> 0 < connectionMaxRetries (fst (applyRobinConfig E c prev rc))"
  by (simp add: retries_ok_def applyRobinConfig_def Let_def SetAuthSecret_def SetStandalone_def SetTopology_def)

text \<open>Where the loop stands between two cycles.\<close>

definition stands :: "env \<Rightarrow> redkey_config list \<Rightarrow> redkey_config list \<Rightarrow> redkey_config \<Rightarrow> string \<Rightarrow> nat \<Rightarrow> st \<Rightarrow> bool" where
  "stands E cs ps c0 rv k s = (conducive E cs (rc_Spec c0) rv (hist s) \<and> 0 < connectionMaxRetries (run s)
     \<and> follows_ready E (latest_applied ps) (rc_Spec c0) (hist s)
     \<and> (\<exists>c. stored cs (hist s) = ps @ [c] \<and> static c = static c0 \<and> within E rv (latest_applied ps) k c (hist s)))"

lemma stands_later:
  assumes "stands E cs ps c0 rv j s" and "suffix (hist s) (hist s')" and "0 < connectionMaxRetries (run s')"
    and "stored cs (hist s') = ps @ [c]" and "static c = static c0" and "within E rv (latest_applied ps) k c (hist s')"
  shows "stands E cs ps c0 rv k s'"
  using assms conducive_later [OF _ assms(2)] from_now_later [OF _ assms(2)]
  unfolding stands_def follows_ready_def by blast

lemma within_later: "within E rv prev k c h \<Longrightarrow> suffix h h' \<Longrightarrow> within E rv prev k c h'"
  using from_now_later unfolding within_def by blast

lemma latest_applied_in: "latest_applied ps = Some p \<Longrightarrow> p \<in> set ps"
  by (auto simp: latest_applied_def dest: last_applied_below_Some)

lemma finish_stands:
  assumes st: "stands E cs ps c0 rv j s0" and land: "lands cs ps c0 (hist s0) (\<lambda>s'. within E rv (latest_applied ps) k (cfg s') (hist s')) r s"
    and rok: "\<forall>d\<in>set ps \<union> {c0}. retries_ok (rc_Spec d)"
  shows "yields (\<lambda>r s'. stands E cs ps c0 rv k s') (finish_cycle E (latest_applied ps) ph sch s)"
proof -
  let ?rc = "fst (applyRobinConfig E (cfg s) (latest_applied ps) (run s))" and ?s = "\<lambda>h. s\<lparr>run := fst (applyRobinConfig E (cfg s) (latest_applied ps) (run s)), hist := h\<rparr>"
  have tr: "tracked cs ps c0 s" and w: "within E rv (latest_applied ps) k (cfg s) (hist s)" and suf: "suffix (hist s0) (hist s)"
    using land by (simp_all add: lands_def)
  have "retries_ok (rc_Spec (effective_config (cfg s) (latest_applied ps)))"
    using rok tr latest_applied_in [of ps] by (auto simp: effective_config_def tracked_def static_def split: option.split)
  from retries_kept [OF this] tr have rc: "0 < connectionMaxRetries ?rc" by (simp add: tracked_def)
  have after: "stands E cs ps c0 rv k t" if "run t = ?rc" "hist t = hist s \<or> hist t = Read ListConfigs # hist s" for t
  proof -
    have h: "suffix (hist s) (hist t)" "stored cs (hist t) = stored cs (hist s)" using that(2) by (auto simp: suffix_def)
    show ?thesis
      by (rule stands_later [OF st, where c = "cfg s"])
        (use that(1) h rc tr suffix_order.trans [OF suf h(1)] within_later [OF w h(1)] in \<open>simp_all add: tracked_def\<close>)
  qed
  obtain rc' iv where a: "applyRobinConfig E (cfg s) (latest_applied ps) (run s) = (rc', iv)" by (rule prod.exhaust)
  obtain more where "hasMoreActionableConfigs E (cfg s) (s\<lparr>run := rc'\<rparr>) = Some (more, log (Read ListConfigs) (s\<lparr>run := rc'\<rparr>))"
    by (cases "e_list_configs E (hist s)") (auto simp: hasMoreActionableConfigs_def listConfigs_def k8s_get_def)
  then show ?thesis
    using after [of "s\<lparr>run := rc'\<rparr>"] after [of "log (Read ListConfigs) (s\<lparr>run := rc'\<rparr>)"] by (simp add: finish_cycle_def a Let_def)
qed

lemma reconcile_stands:
  assumes st: "stands E cs ps c0 rv k s" and ps: "list_all finished ps" and rok: "\<forall>d\<in>set ps \<union> {c0}. retries_ok (rc_Spec d)"
  shows "yields (\<lambda>r s'. stands E cs ps c0 rv (k - 1) s') (reconcile E iv s)"
proof -
  let ?prev = "latest_applied ps"
  obtain c where L: "stored cs (hist s) = ps @ [c]" and c: "static c = static c0" and w: "within E rv ?prev k c (hist s)"
    and con: "conducive E cs (rc_Spec c0) rv (hist s)" and retries: "0 < connectionMaxRetries (run s)"
    and fr: "follows_ready E ?prev (rc_Spec c0) (hist s)" using st by (auto simp: stands_def)
  have seq: "in_sequence cs" and api: "api_stores E cs (hist s)" and co: "from_now (hist s) (cooperates E (rc_Spec c0))"
    using con by (simp_all add: conducive_def)
  have "in_sequence (ps @ [c])" using seq L in_sequence_stored by metis
  moreover have phases: "phase_of c \<in> {PhaseEmpty, Pending, InProgress, Applied}"
    using w by (auto simp: within_def settled_def fresh_def)
  ultimately have t: "target_at ps c []" using ps by (auto simp: target_at_def finished_def)
  have l: "e_list_configs E (hist s) = Inr (ps @ [c])" using api L by (simp add: api_stores_def)
  let ?s0 = "s\<lparr>hist := ChooseOrder # Read ListConfigs # hist s\<rparr>"
  obtain s1 where sel: "selectConfig E s = Some (Inr (?prev, Some (inited c)), s1)"
    and in1: "init_phases E (ps @ [c]) ?s0 = Some (map inited (ps @ [c]), s1)"
    using selectConfig_target [OF l t] by blast
  have s1: "s1 = (if phase_of c = PhaseEmpty then log (StatusWrite (inited c) None) ?s0 else ?s0)"
    using in1 cooperates_answers(1) [OF from_now_later [OF co, of "ChooseOrder # Read ListConfigs # hist s"]]
    by (auto simp: init_phases_last [OF ps] suffix_Cons split: if_splits)
  let ?s2 = "s1\<lparr>cfg := inited c\<rparr>"
  have stored1: "stored cs (hist s1) = ps @ [inited c]"
  proof (cases "phase_of c = PhaseEmpty")
    case True
    have "stored cs (hist ?s0) = ps @ [c]" using L by simp
    moreover have "distinct (map rc_Name (ps @ [c]))" using \<open>in_sequence (ps @ [c])\<close> by (simp add: in_sequence_def)
    ultimately show ?thesis using record_write_at [of "ps @ [c]" "length ps" "inited c"] True by (simp add: s1)
  next
    case False
    then show ?thesis using L by (simp add: s1 inited_def)
  qed
  have suf: "suffix (hist s) (hist s1)" by (auto simp: s1 suffix_def)
  have ot: "on_track E cs ps c0 rv (hist s) ?s2"
    using conducive_later [OF con suf] stored1 c retries suf by (simp add: on_track_def tracked_def s1)
  have land: "yields (lands cs ps c0 (hist s) (\<lambda>s'. within E rv ?prev (k - 1) (cfg s') (hist s'))) (reconcile_phase E ?prev ?s2)"
  proof (cases "phase_of c = PhaseEmpty \<or> phase_of c = Pending")
    case True
    then have k: "3 \<le> k" and fresh: "fresh ?prev c" using w by (auto simp: within_def settled_def)
    have "yields (lands cs ps c0 (hist s) (\<lambda>s'. within E rv ?prev 2 (cfg s') (hist s'))) (reconcile_phase E ?prev ?s2)"
      by (rule start_lands [OF ot])
        (use True fresh fr from_now_later [OF _ suf] in \<open>auto simp: inited_def initial_status_def fresh_def follows_ready_def\<close>)
    then show ?thesis by (rule lands_mono) (use k within_mono in fastforce)
  next
    case False
    have "yields (lands cs ps c0 (hist s) (\<lambda>s'. within E rv ?prev (k - 1) (cfg s') (hist s'))) (ReconcileCluster E ?prev ?s2)"
      by (rule resume_lands [OF ot]) (use False within_later [OF w suf] in \<open>auto simp: inited_def\<close>)
    then show ?thesis using False by (simp add: reconcile_phase_def inited_def)
  qed
  have valid: "validConfigPhase (phase_of (inited c)) True"
    using phases by (auto simp: validConfigPhase_def inited_def initial_status_def)
  have "yields (\<lambda>out s'. yields (\<lambda>r s'. stands E cs ps c0 rv (k - 1) s')
      (if snd out \<noteq> None then Some ((fst out, True, iv), s')
       else finish_cycle E ?prev (phase_of (inited c)) (fst out) s')) (reconcile_phase E ?prev ?s2)"
    by (rule yields_mono [OF land]) (use finish_stands [OF st _ rok] in \<open>auto simp: lands_def\<close>)
  then show ?thesis by (simp add: reconcile_def sel valid)
qed

section \<open>The loop\<close>

lemma stands_slept: "stands E cs ps c0 rv k s \<Longrightarrow> stands E cs ps c0 rv k (log (Sleep d) s)"
proof -
  assume st: "stands E cs ps c0 rv k s"
  have suf: "suffix (hist s) (Sleep d # hist s)" by (auto simp: suffix_def)
  obtain c where "stored cs (hist s) = ps @ [c]" "static c = static c0" "within E rv (latest_applied ps) k c (hist s)"
    "0 < connectionMaxRetries (run s)" using st by (auto simp: stands_def)
  then show ?thesis using within_later [OF _ suf] suf by (intro stands_later [OF st, where c = c]) simp_all
qed

lemma poll_stands:
  assumes "list_all finished ps" and "\<forall>d\<in>set ps \<union> {c0}. retries_ok (rc_Spec d)"
  shows "stands E cs ps c0 rv k s \<Longrightarrow> yields (\<lambda>b s'. \<not> b \<and> stands E cs ps c0 rv (k - n) s') (poll E n r s)"
proof (induction n arbitrary: k r s)
  case 0
  then show ?case by (cases r) simp
next
  case (Suc n)
  obtain sch onError iv where r: "r = (sch, onError, iv)" by (cases r)
  let ?s = "log (Sleep (nextWaitDuration iv sch onError)) s"
  have "from_now (hist s) (cooperates E (rc_Spec c0))" using Suc.prems by (simp add: stands_def conducive_def)
  from cooperates_answers(3) [OF this] have awake: "sleep E (nextWaitDuration iv sch onError) s = Some (None, ?s)"
    by (simp add: sleep_def)
  have "yields (\<lambda>r s'. yields (\<lambda>b s'. \<not> b \<and> stands E cs ps c0 rv (k - Suc n) s') (poll E n r s')) (reconcile E iv ?s)"
    by (rule yields_mono [OF reconcile_stands [OF stands_slept [OF Suc.prems] assms]]) (use Suc.IH in force)
  then show ?case by (simp add: r awake)
qed


text \<open>A node that runs another image: the new configuration is started, the pod recycled.\<close>

definition single_spec :: config_spec where
  "single_spec = base_spec\<lparr>sp_Mode := ''standalone'', sp_Primaries := 1, sp_ReplicasPerPrimary := 0\<rparr>"

definition running_config :: redkey_config where
  "running_config = start_config\<lparr>rc_Name := ''config-0'', rc_Spec := single_spec\<lparr>sp_Sequence := 0, sp_Image := ''redis:7''\<rparr>,
     rc_Status := initial_status\<lparr>cs_ConfigPhase := Applied, cs_Status := Ready\<rparr>\<rparr>"

definition new_config :: redkey_config where
  "new_config = start_config\<lparr>rc_Spec := single_spec\<lparr>sp_Sequence := 1, sp_Image := ''redis:8''\<rparr>\<rparr>"

definition recreated :: "history \<Rightarrow> bool" where
  "recreated h = list_ex (\<lambda>e. e = Write (DeletePodObj ''redkey-0'') None) h"

definition live_pod :: "history \<Rightarrow> pod" where
  "live_pod h = \<lparr>po_Name = ''redkey-0'', po_PodIP = ''10.0.0.1'',
     po_PodLabels = Some [PodTemplateHashLabel \<mapsto> if recreated h then ''rev'' else ''old''], po_Ready = True, po_Images = []\<rparr>"

definition live_env :: env where
  "live_env = calm_env\<lparr>e_list_configs := (\<lambda>h. Inr (stored [running_config, new_config] h)),
     e_get_secret := (\<lambda>h n. Inr \<lparr>sd_Data = Map.empty\<rparr>), e_get_pod := (\<lambda>h n. Inr (live_pod h)),
     e_list_pods := (\<lambda>h. Inr [live_pod h])\<rparr>"

lemma live_answers:
  "e_list_configs live_env h = Inr (stored [running_config, new_config] h)" "e_get_secret live_env h n = Inr \<lparr>sd_Data = Map.empty\<rparr>"
  "e_get_pod live_env h n = Inr (live_pod h)" "e_list_pods live_env h = Inr [live_pod h]" "e_cluster live_env = ''redkey''"
  "e_get_sts live_env h = Inr empty_sts" "e_is_standalone live_env sp = (sp_Mode sp = ''standalone'')"
  "e_get_cm live_env h = Inr \<lparr>cm_Labels = None, cm_Annotations = None, cm_Data = None\<rparr>"
  by (simp_all add: live_env_def calm_env_def)

lemma recreated_later: "suffix (Write (DeletePodObj ''redkey-0'') None # h) h' \<Longrightarrow> recreated h'"
  by (auto simp: suffix_def recreated_def)

lemma live_name: "pod_name live_env 0 = ''redkey-0''"
  by (simp add: pod_name_def live_answers Itoa_zero)

lemma live_cooperates: "cooperates live_env sp h"
  by (simp add: cooperates_def live_env_def calm_env_def findable_def)

lemma live_node: "node_runs live_env ''rev'' h"
  by (simp add: node_runs_def live_answers live_name empty_sts_def live_pod_def)

lemma live_buildable: "buildable live_env (rc_Spec new_config)"
  by (simp add: buildable_def desired_statefulset_def buildStatefulSet_def desired_service_def applyStatefulSetOverride_def
      applyServiceOverride_def new_config_def single_spec_def base_spec_def live_env_def calm_env_def Let_def)

lemma live_conducive: "conducive live_env [running_config, new_config] (rc_Spec new_config) ''rev'' []"
  using live_buildable live_cooperates live_node
  by (auto simp: conducive_def from_now_def api_stores_def live_answers pod_revision_def live_pod_def live_name
      entries_def recreated_later in_sequence_def running_config_def new_config_def start_config_def single_spec_def base_spec_def seq_of_def)


end
