(* ===== verification/Settings_Source.thy ===== *)
theory Settings_Source
  imports Lifecycle_Machine Config_Store
begin

text \<open>
  Where the settings of the runtime configuration come from: a cycle of the reconciler, however it ends, leaves
  them alone or loads those of one configuration the API listed. (The name of the auth Secret is the exception:
  handlers record it on their way, \<open>settings\<close> leaves it out.)
\<close>

section \<open>The choice of a configuration\<close>

text \<open>The API answered a list with a configuration of this specification, some time before \<open>h\<close>.\<close>

definition listed :: "env \<Rightarrow> config_spec \<Rightarrow> history \<Rightarrow> bool" where
  "listed E sp h = (\<exists>h' items c. suffix (Read ListConfigs # h') h \<and> e_list_configs E h' = Inr items \<and> c \<in> set items
     \<and> rc_Spec c = sp)"

lemma listed_later: "listed E sp h \<Longrightarrow> suffix h h' \<Longrightarrow> listed E sp h'"
  unfolding listed_def using suffix_order.trans by blast

text \<open>An operation that only adds to the history.\<close>

definition only_logs :: "st \<Rightarrow> st \<Rightarrow> bool" where
  "only_logs s s' = (s' = s\<lparr>hist := hist s'\<rparr> \<and> suffix (hist s) (hist s'))"

lemma only_logs_refl [simp]: "only_logs s s"
  by (simp add: only_logs_def)

lemma only_logs_log [simp]: "only_logs s (log e s)"
  by (simp add: only_logs_def log_def suffix_def)

lemma only_logs_trans: "only_logs a b \<Longrightarrow> only_logs b c \<Longrightarrow> only_logs a c"
  unfolding only_logs_def using suffix_order.trans
  by (metis st.surjective st.update_convs(1))

lemma listConfigs_listed:
  assumes "listConfigs E b s = Some (r, s')"
  shows "only_logs s s' \<and> (\<forall>cs c. r = Inr cs \<longrightarrow> c \<in> set cs \<longrightarrow> listed E (rc_Spec c) (hist s'))"
proof (cases "e_list_configs E (hist s)")
  case (Inl k)
  then show ?thesis using assms by (auto simp: listConfigs_def k8s_get_def)
next
  case (Inr items)
  have "listed E (rc_Spec c) (e # Read ListConfigs # hist s)" "listed E (rc_Spec c) (Read ListConfigs # hist s)"
    if "c \<in> set items" for c e
    unfolding listed_def using Inr that suffix_ConsI [OF suffix_order.refl, of "Read ListConfigs # hist s" e]
    by (metis suffix_order.refl)+
  then show ?thesis using assms Inr only_logs_trans [OF only_logs_log only_logs_log]
    by (auto simp: listConfigs_def k8s_get_def map_order_def split: if_splits)
qed

lemma static_superseded [simp]: "static (superseded c) = static c"
  by (simp add: superseded_def)

lemma map_static_update: "map static (cs[i := superseded (cs ! i)]) = map static cs"
  by (metis list_update_id map_update static_superseded)

lemma supersede_each_static:
  "supersede_each E configs sel idxs s = Some ((cs, t), s') \<Longrightarrow> sel < length configs \<Longrightarrow> \<forall>i\<in>set idxs. i < length configs
   \<Longrightarrow> map static cs = map static configs \<and> t < length configs \<and> only_logs s s'"
proof (induction idxs arbitrary: configs s)
  case (Cons i idxs)
  let ?cs = "configs[i := superseded (configs ! i)]"
  obtain e s1 where w: "update_status E (?cs ! i) s = Some (e, s1)" and l: "only_logs s s1"
    by (simp add: update_status_def Let_def)
  show ?case
  proof (cases e)
    case None
    then have "supersede_each E ?cs sel idxs s1 = Some ((cs, t), s')" using Cons.prems(1) w by (simp add: Let_def)
    from Cons.IH [OF this] show ?thesis using Cons.prems l only_logs_trans [OF l] by (simp add: map_static_update)
  next
    case (Some k)
    then show ?thesis using Cons.prems w l by (auto simp: Let_def map_static_update)
  qed
qed simp

definition in_range :: "redkey_config list \<Rightarrow> SupersedingResult \<Rightarrow> bool" where
  "in_range configs r = (sr_Selected r < length configs \<and> list_all (\<lambda>i. i < length configs) (sr_Superseded r))"

lemma supersede_chain_below:
  "current < length configs \<Longrightarrow> in_range configs res \<Longrightarrow> in_range configs (supersede_chain configs b current nxt res)"
proof (induction configs b current nxt res rule: supersede_chain.induct)
  case (1 configs b current nxt res)
  let ?res = "res\<lparr>sr_Superseded := sr_Superseded res @ [current], sr_Selected := nxt\<rparr>"
  have step: "in_range configs ?res" if "nxt < length configs" using that 1(2,3) by (simp add: in_range_def)
  show ?case
    by (subst supersede_chain.simps, cases b) (use 1 step in \<open>auto simp: Let_def\<close>)
qed

lemma ApplySuperseding_below:
  assumes "i < length configs"
  shows "in_range configs (ApplySuperseding configs i)"
proof -
  have start: "in_range configs \<lparr>sr_Selected = i, sr_Superseded = []\<rparr>" using assms by (simp add: in_range_def)
  then show ?thesis
    unfolding ApplySuperseding_def Let_def using supersede_chain_below [OF assms start] by simp
qed

lemma index_below: "indexOfConfig configs c < int (length configs)"
  by (auto simp: indexOfConfig_def dest: find_index_Some split: option.split)

lemma lastAppliedBefore_below:
  "lastAppliedBefore configs i = Some j \<Longrightarrow> i \<le> int (length configs) \<Longrightarrow> j < length configs"
  unfolding lastAppliedBefore_def by (drule last_applied_below_Some) linarith

lemma SelectConfig_below:
  assumes "SelectConfig configs = (previous, Some i)"
  shows "i < length configs \<and> (\<forall>j. previous = Some j \<longrightarrow> j < length configs)"
proof (cases "find_index (\<lambda>c. \<not> finished c) configs")
  case (Some k)
  then have "k < length configs" using find_index_Some by blast
  then show ?thesis using assms Some lastAppliedBefore_below [of configs "int k"]
    by (auto simp: SelectConfig_def split: if_splits)
next
  case None
  show ?thesis
  proof (cases "lastApplied configs")
    case None
    then show ?thesis using assms \<open>find_index _ configs = None\<close> by (auto simp: SelectConfig_def split: if_splits)
  next
    case (Some l)
    then have "l < length configs" using last_applied_below_Some by (fastforce simp: lastApplied_def)
    then show ?thesis
      using assms Some \<open>find_index _ configs = None\<close> less_imp_le [OF index_below [of configs "configs ! l"]]
        lastAppliedBefore_below [of configs "indexOfConfig configs (configs ! l)"]
      by (auto simp: SelectConfig_def split: if_splits)
  qed
qed

lemma static_mem: "map static cs = map static ds \<Longrightarrow> i < length cs \<Longrightarrow> \<exists>d\<in>set ds. rc_Spec (cs ! i) = rc_Spec d"
proof -
  assume eq: "map static cs = map static ds" and i: "i < length cs"
  then have l: "length cs = length ds" by (metis length_map)
  have "static (cs ! i) = static (ds ! i)" using eq i l by (metis nth_map)
  then show ?thesis using i l by (auto simp: static_def)
qed

lemma map_static_inited: "map static (map inited cs) = map static cs"
  by simp

lemma selectConfig_listed:
  assumes "selectConfig E s = Some (Inr (previous, Some c), s')"
  shows "only_logs s s' \<and> listed E (rc_Spec c) (hist s') \<and> (\<forall>p. previous = Some p \<longrightarrow> listed E (rc_Spec p) (hist s'))"
proof -
  obtain items s1 where l: "listConfigs E True s = Some (Inr items, s1)" "items \<noteq> []"
    using assms by (auto simp: selectConfig_def split: bind_splits sum.splits if_splits)
  obtain s2 where i: "init_phases E items s1 = Some (map inited items, s2)" and f: "s2 = s1\<lparr>hist := hist s2\<rparr>"
    and g: "grows (initialises items) s1 s2" using init_phases_total by blast
  have l2: "only_logs s1 s2" using f grows_suffix [OF g] by (simp add: only_logs_def)
  obtain prev k where sel: "SelectConfig (map inited items) = (prev, Some k)"
    using assms l i by (auto simp: selectConfig_def split: prod.splits option.splits)
  let ?r = "ApplySuperseding (map inited items) k"
  obtain cs t where cs: "(if sr_Superseded ?r \<noteq> [] then applySupersedingStatus E (map inited items) ?r s2
      else Some ((map inited items, k), s2)) = Some ((cs, t), s')"
    and c: "c = cs ! t" and p: "previous = map_option ((!) cs) prev"
    using assms l i sel by (auto simp: selectConfig_def Let_def split: bind_splits if_splits)
  have b: "k < length (map inited items)" "\<And>j. prev = Some j \<Longrightarrow> j < length (map inited items)"
    using SelectConfig_below [OF sel] by auto
  have st: "map static cs = map static items \<and> t < length items \<and> only_logs s2 s'"
    using cs b(1) supersede_each_static [of E "map inited items" "sr_Selected ?r" "sr_Superseded ?r" s2 cs t s']
      ApplySuperseding_below [OF b(1)] map_static_inited [of items]
    by (auto simp: applySupersedingStatus_def in_range_def list_all_iff simp del: map_map split: if_splits)
  then have len: "length cs = length items" by (metis length_map)
  have later: "only_logs s1 s'" using only_logs_trans [OF l2] st by blast
  have mem: "listed E (rc_Spec (cs ! j)) (hist s')" if "j < length items" for j
  proof -
    have "j < length cs" using len that by simp
    with st obtain d where "d \<in> set items" "rc_Spec (cs ! j) = rc_Spec d" using static_mem by blast
    then show ?thesis using listConfigs_listed [OF l(1)] listed_later later by (auto simp: only_logs_def)
  qed
  show ?thesis
    using only_logs_trans [OF conjunct1 [OF listConfigs_listed [OF l(1)]] later] mem st b c p by auto
qed

section \<open>A cycle\<close>

text \<open>The settings of a specification, over those in force.\<close>

definition load :: "env \<Rightarrow> config_spec \<Rightarrow> RuntimeConfig \<Rightarrow> RuntimeConfig" where
  "load E sp rc = SetStandalone (e_is_standalone E sp)
     (SetTopology (sp_Primaries sp) (sp_ReplicasPerPrimary sp) (SetFromRobinConfig (sp_RobinConfig sp) rc))"

lemma load_settings: "settings (load E sp rc) = load E sp (settings rc)"
proof -
  have "SetFromRobinConfig r (rc\<lparr>authSecret := []\<rparr>) = (SetFromRobinConfig r rc)\<lparr>authSecret := []\<rparr>" for r rc
    by (cases r) (auto simp: SetFromRobinConfig_def Let_def set_parts split: option.split)
  then show ?thesis by (simp add: load_def settings_def SetStandalone_def SetTopology_def)
qed

lemma apply_loads: "settings (fst (applyRobinConfig E c prev rc)) = settings (load E (rc_Spec (effective_config c prev)) rc)"
  by (simp add: applyRobinConfig_def load_def Let_def)

lemma selectConfig_logs: "selectConfig E s = Some (r, s') \<Longrightarrow> only_logs s s'"
proof (cases "\<exists>p c. r = Inr (p, Some c)")
  case True
  then show "selectConfig E s = Some (r, s') \<Longrightarrow> only_logs s s'" using selectConfig_listed by blast
next
  case False
  assume sel: "selectConfig E s = Some (r, s')"
  obtain x s1 where l: "listConfigs E True s = Some (x, s1)" using sel by (auto simp: selectConfig_def split: bind_splits)
  have l1: "only_logs s s1" using listConfigs_listed [OF l] by blast
  show "only_logs s s'"
  proof (cases "\<exists>items. x = Inr items \<and> items \<noteq> []")
    case False
    then show ?thesis using sel l l1 by (auto simp: selectConfig_def split: sum.splits if_splits)
  next
    case True
    then obtain items where x: "x = Inr items" "items \<noteq> []" by blast
    obtain s2 where i: "init_phases E items s1 = Some (map inited items, s2)" and f: "s2 = s1\<lparr>hist := hist s2\<rparr>"
      and g: "grows (initialises items) s1 s2" using init_phases_total by blast
    have "only_logs s1 s2" using f grows_suffix [OF g] by (simp add: only_logs_def)
    moreover have "s' = s2" using sel l x i False
      by (auto simp: selectConfig_def Let_def split: prod.splits option.splits bind_splits if_splits)
    ultimately show ?thesis using only_logs_trans [OF l1] by simp
  qed
qed

lemma reconcile_phase_reached_any:
  "stays (\<lambda>s'. settings (run s') = settings (run s) \<and> spec_of s' = spec_of s \<and> suffix (hist s) (hist s')) (reconcile_phase E prev s)"
proof -
  have "closed (e_is_standalone E (spec_of s)) (spec_of s) prev UNIV" by (simp add: closed_def)
  from reached_reconcile_phase [OF this stage_start] show ?thesis
    by (rule stays_mono) (auto simp: reached_def stage_def dest: grows_suffix)
qed

text \<open>Every cycle loads the settings of one listed configuration, or none.\<close>

lemma reconcile_loads:
  assumes "reconcile E iv s = Some (r, s')"
  shows "suffix (hist s) (hist s') \<and> (settings (run s') = settings (run s)
    \<or> (\<exists>sp. listed E sp (hist s') \<and> settings (run s') = settings (load E sp (run s))))"
proof -
  obtain x s1 where sel: "selectConfig E s = Some (x, s1)" using assms by (auto simp: reconcile_def split: bind_splits)
  have l1: "suffix (hist s) (hist s1)" "run s1 = run s" using selectConfig_logs [OF sel]
    by (auto simp: only_logs_def) (metis st.ext_inject st.surjective st.update_convs(1))
  show ?thesis
  proof (cases "\<exists>prev c. x = Inr (prev, Some c) \<and> validConfigPhase (phase_of c) True")
    case False
    then show ?thesis using assms sel l1 by (auto simp: reconcile_def split: sum.splits option.splits if_splits)
  next
    case True
    then obtain prev c where x: "x = Inr (prev, Some c)" "validConfigPhase (phase_of c) True" by blast
    have ls: "listed E (rc_Spec c) (hist s1)" "\<And>p. prev = Some p \<Longrightarrow> listed E (rc_Spec p) (hist s1)"
      using selectConfig_listed [OF sel [unfolded x]] by auto
    obtain out s2 where ph: "reconcile_phase E prev (s1\<lparr>cfg := c\<rparr>) = Some (out, s2)"
      using assms sel x by (auto simp: reconcile_def split: bind_splits)
    have s2: "settings (run s2) = settings (run s1)" "spec_of s2 = rc_Spec c" "suffix (hist s1) (hist s2)"
      using staysD [OF reconcile_phase_reached_any ph] by auto
    show ?thesis
    proof (cases "snd out")
      case (Some e)
      then show ?thesis using assms sel x ph s2 l1 suffix_order.trans by (auto simp: reconcile_def)
    next
      case None
      let ?rc = "fst (applyRobinConfig E (cfg s2) prev (run s2))"
      have fin: "finish_cycle E prev (phase_of c) (fst out) s2 = Some (r, s')"
        using assms sel x ph None by (simp add: reconcile_def)
      have "run s' = ?rc \<and> suffix (hist s2) (hist s')"
        using fin by (auto simp: finish_cycle_def hasMoreActionableConfigs_def Let_def only_logs_def split: prod.splits bind_splits if_splits
            dest!: listConfigs_listed) (metis st.ext_inject st.surjective st.update_convs(1,3))+
      moreover have "listed E (rc_Spec (effective_config (cfg s2) prev)) (hist s2)"
        using ls s2 listed_later by (auto simp: effective_config_def split: option.splits)
      moreover have "settings ?rc = settings (load E (rc_Spec (effective_config (cfg s2) prev)) (run s))"
        using s2(1) l1(2) by (simp add: apply_loads load_settings)
      ultimately show ?thesis using l1(1) s2(3) listed_later suffix_order.trans by metis
    qed
  qed
qed

end
