(* ===== verification/Go_Floats.thy ===== *)
theory Go_Floats
  imports Go_Strings
begin

text \<open>
  \<open>strconv.ParseFloat\<close> for 64 bits on ASCII text: decimal and hexadecimal literals with underscores
  between digits, infinities and NaN, and the range error of a number no double is nearest to. A finite
  value is kept as it was written: \<open>Finite neg m b e\<close> stands for the double nearest to \<open>m * b ^ e\<close>, negated
  when \<open>neg\<close>.
\<close>

datatype float64 = Finite bool int int int | Infinite bool | NotANumber

definition float_of_int :: "int \<Rightarrow> float64" where
  "float_of_int i = Finite (i < 0) \<bar>i\<bar> 10 0"

definition lower :: "char \<Rightarrow> char" where
  "lower c = (if CHR ''A'' \<le> c \<and> c \<le> CHR ''Z'' then char_of (of_char c + 32 :: nat) else c)"

definition hex_letter :: "char \<Rightarrow> int option" where
  "hex_letter c = (if CHR ''a'' \<le> lower c \<and> lower c \<le> CHR ''f'' then Some (of_char (lower c) - 87) else None)"

text \<open>The loop of \<open>readFloat\<close> over the mantissa: whether a point, a digit or an underscore was seen, the
  mantissa and its digits after the point; the rest starts at the first character that ends it.\<close>

fun scan_mantissa :: "bool \<Rightarrow> bool \<Rightarrow> bool \<Rightarrow> int \<Rightarrow> nat \<Rightarrow> string \<Rightarrow> bool \<times> int \<times> nat \<times> string" where
  "scan_mantissa hex dot digits m k [] = (digits, m, k, [])"
| "scan_mantissa hex dot digits m k (c # cs) =
     (if c = CHR ''_'' then scan_mantissa hex dot digits m k cs
      else if c = CHR ''.'' then
        (if dot then (digits, m, k, c # cs) else scan_mantissa hex True digits m k cs)
      else if is_digit c then
        scan_mantissa hex dot True (m * (if hex then 16 else 10) + digit_val c) (if dot then Suc k else k) cs
      else case (if hex then hex_letter c else None) of
             Some d \<Rightarrow> scan_mantissa hex dot True (m * 16 + d) (if dot then Suc k else k) cs
           | None \<Rightarrow> (digits, m, k, c # cs))"

text \<open>The digits of the exponent, no longer accumulated from 10000 on; \<open>None\<close> when anything else follows.\<close>

fun scan_exponent :: "int \<Rightarrow> string \<Rightarrow> int option" where
  "scan_exponent e [] = Some e"
| "scan_exponent e (c # cs) =
     (if c = CHR ''_'' then scan_exponent e cs
      else if is_digit c then scan_exponent (if e < 10000 then e * 10 + digit_val c else e) cs
      else None)"

definition read_exponent :: "string \<Rightarrow> int option" where
  "read_exponent s =
     (let (neg, ds) = (case s of c # cs \<Rightarrow> if c = CHR ''+'' then (False, cs) else if c = CHR ''-'' then (True, cs)
                                  else (False, s)
                       | [] \<Rightarrow> (False, s))
      in case ds of
           [] \<Rightarrow> None
         | d # _ \<Rightarrow> if is_digit d then map_option (\<lambda>e. if neg then - e else e) (scan_exponent 0 ds) else None)"

text \<open>\<open>underscoreOK\<close>: an underscore stands between two digits, or between the prefix and a digit.\<close>

datatype seen = SawNothing | SawDigit | SawUnderscore | SawOther

fun underscores_from :: "bool \<Rightarrow> seen \<Rightarrow> string \<Rightarrow> bool" where
  "underscores_from hex saw [] = (saw \<noteq> SawUnderscore)"
| "underscores_from hex saw (c # cs) =
     (if is_digit c \<or> hex \<and> hex_letter c \<noteq> None then underscores_from hex SawDigit cs
      else if c = CHR ''_'' then saw = SawDigit \<and> underscores_from hex SawUnderscore cs
      else saw \<noteq> SawUnderscore \<and> underscores_from hex SawOther cs)"

definition split_sign :: "string \<Rightarrow> bool \<times> string" where
  "split_sign s = (case s of c # cs \<Rightarrow> if c = CHR ''-'' then (True, cs) else if c = CHR ''+'' then (False, cs)
                                     else (False, s)
                   | [] \<Rightarrow> (False, []))"

definition underscoreOK :: "string \<Rightarrow> bool" where
  "underscoreOK s =
     (let u = snd (split_sign s)
      in case u of
           z # x # rest \<Rightarrow>
             if z = CHR ''0'' \<and> lower x \<in> {CHR ''b'', CHR ''o'', CHR ''x''}
             then underscores_from (lower x = CHR ''x'') SawDigit rest
             else underscores_from False SawNothing u
         | _ \<Rightarrow> underscores_from False SawNothing u)"

text \<open>Half an ulp above the largest double: from there on the nearest double is infinite.\<close>

definition too_large :: "int \<Rightarrow> int \<Rightarrow> int \<Rightarrow> bool" where
  "too_large m b e =
     (if 0 \<le> e then 2 ^ 1024 - 2 ^ 970 \<le> m * b ^ nat e else (2 ^ 1024 - 2 ^ 970) * b ^ nat (- e) \<le> m)"

text \<open>\<open>None\<close> is an error, of syntax or of range; the callers only look at whether there is one.\<close>

definition read_float :: "string \<Rightarrow> float64 option" where
  "read_float s =
     (let (neg, u) = split_sign s;
          hex = (case u of z # x # _ # _ \<Rightarrow> z = CHR ''0'' \<and> lower x = CHR ''x'' | _ \<Rightarrow> False);
          (digits, m, k, rest) = scan_mantissa hex False False 0 0 (if hex then drop 2 u else u);
          b = (if hex then 2 else 10);
          shift = (if hex then 4 * int k else int k);
          result = (\<lambda>e. if CHR ''_'' \<in> set s \<and> \<not> underscoreOK s \<or> too_large m b (e - shift) then None
                        else Some (Finite neg m b (e - shift)))
      in if \<not> digits then None
         else case rest of
                [] \<Rightarrow> if hex then None else result 0
              | c # cs \<Rightarrow> if lower c = (if hex then CHR ''p'' else CHR ''e'')
                          then (case read_exponent cs of None \<Rightarrow> None | Some e \<Rightarrow> result e)
                          else None)"

definition ParseFloat :: "string \<Rightarrow> float64 option" where
  "ParseFloat s =
     (let (neg, u) = split_sign s; w = map lower u
      in if w = ''inf'' \<or> w = ''infinity'' then Some (Infinite neg)
         else if map lower s = ''nan'' then Some NotANumber
         else read_float s)"

text \<open>A number printed in decimal notation is read as that number.\<close>

lemma digit_not_mark: "is_digit c \<Longrightarrow> c \<noteq> CHR ''_'' \<and> c \<noteq> CHR ''.'' \<and> c \<noteq> CHR ''-'' \<and> c \<noteq> CHR ''+''"
  by (auto simp: is_digit_def)

definition digits_value :: "string \<Rightarrow> int" where
  "digits_value ds = foldl (\<lambda>m c. m * 10 + digit_val c) 0 ds"

lemma scan_mantissa_digits:
  "\<forall>c\<in>set ds. is_digit c \<Longrightarrow>
   scan_mantissa False dot digits m k (ds @ rest)
     = scan_mantissa False dot (digits \<or> ds \<noteq> []) (foldl (\<lambda>m c. m * 10 + digit_val c) m ds)
         (if dot then k + length ds else k) rest"
  by (induction ds arbitrary: digits m k) (simp_all add: digit_not_mark)

lemma not_special:
  assumes "is_digit c" shows "map lower (c # cs) \<noteq> ''inf''" "map lower (c # cs) \<noteq> ''infinity''" "map lower (c # cs) \<noteq> ''nan''"
proof -
  have "lower c = c" using assms by (auto simp: lower_def is_digit_def less_eq_char_def)
  then show "map lower (c # cs) \<noteq> ''inf''" "map lower (c # cs) \<noteq> ''infinity''" "map lower (c # cs) \<noteq> ''nan''"
    using assms by (auto simp: is_digit_def)
qed

lemma ParseFloat_decimal:
  assumes "\<forall>c\<in>set (c # cs). is_digit c" and "\<forall>d\<in>set ds. is_digit d"
    and "\<not> too_large (digits_value (c # cs @ ds)) 10 (- int (length ds))"
  shows "ParseFloat ((c # cs) @ ''.'' @ ds) = Some (Finite False (digits_value (c # cs @ ds)) 10 (- int (length ds)))"
proof -
  let ?s = "(c # cs) @ ''.'' @ ds"
  have c: "is_digit c" using assms by simp
  have sign: "split_sign ?s = (False, ?s)" using digit_not_mark [OF c] by (simp add: split_sign_def)
  have us: "CHR ''_'' \<notin> set ?s" using assms digit_not_mark by auto
  have nohex: "(case ?s of z # x # _ # _ \<Rightarrow> z = CHR ''0'' \<and> lower x = CHR ''x'' | _ \<Rightarrow> False) = False"
    using assms(1) by (cases cs) (auto split: list.splits simp: is_digit_def lower_def less_eq_char_def)
  have scan: "scan_mantissa False False False 0 0 ?s = (True, digits_value (c # cs @ ds), length ds, [])"
    using scan_mantissa_digits [OF assms(1), of False False 0 0 "''.'' @ ds"] scan_mantissa_digits [OF assms(2), of True True _ 0 "[]"]
    by (simp add: digits_value_def)
  have "read_float ?s = Some (Finite False (digits_value (c # cs @ ds)) 10 (- int (length ds)))"
    unfolding read_float_def sign prod.case Let_def nohex if_False scan using us assms(3) by simp
  then show ?thesis using not_special [OF c, of "cs @ ''.'' @ ds"] sign by (simp add: ParseFloat_def)
qed

end
