(* ===== verification/Metrics_Manager.thy ===== *)
theory Metrics_Manager
  imports Go_Floats World
begin

text \<open>
  \<open>metrics/manager.go\<close>: gauges that are registered when they are first written, with the label keys of
  that first write. The Prometheus client library is not part of the repository: the calls made to it
  are recorded in order, newest first, and the record \<open>prometheus\<close> says how the library reacts -
  whether a registration is accepted (\<open>MustRegister\<close> panics otherwise), whether a gauge has a series
  for a label set (\<open>With\<close> panics otherwise), and whether the registry is one that can be reset, as the one
  of \<open>registry.go\<close> is. The read-write lock makes each operation atomic.
\<close>

type_synonym labels = "string \<rightharpoonup> string"

datatype gauge_value = SetTo float64 | SetToCurrentTime

datatype gauge_call =
    RegisterGauge string string "string list"
  | SetGauge string labels gauge_value
  | ResetGauge string
  | ResetRegistryCall

record prometheus =
  pm_registers :: "gauge_call list \<Rightarrow> string \<Rightarrow> string \<Rightarrow> string list \<Rightarrow> bool"
  pm_has_series :: "gauge_call list \<Rightarrow> string \<Rightarrow> labels \<Rightarrow> bool"
  pm_resettable :: bool

text \<open>The manager: the label keys of every metric registered so far, and the calls made.\<close>

record MetricsManager =
  mm_metrics :: "string \<rightharpoonup> string list"
  mm_calls :: "gauge_call list"

definition NewMetricsManager :: MetricsManager where
  "NewMetricsManager = \<lparr>mm_metrics = Map.empty, mm_calls = []\<rparr>"

definition call :: "gauge_call \<Rightarrow> MetricsManager \<Rightarrow> MetricsManager" where
  "call g m = m\<lparr>mm_calls := g # mm_calls m\<rparr>"

section \<open>Names and labels\<close>

function trim_metric_prefixes :: "string \<Rightarrow> string" where
  "trim_metric_prefixes s =
     (if prefix ''redis_'' s then trim_metric_prefixes (drop 6 s)
      else if prefix ''redkey_'' s then trim_metric_prefixes (drop 7 s)
      else s)"
  by auto
termination
  by (relation "measure length") (auto elim!: prefixE)

declare trim_metric_prefixes.simps [simp del]

definition metricName :: "string \<Rightarrow> string" where
  "metricName key = ''redkey_'' @ trim_metric_prefixes (ReplaceAll key ''-'' ''_'')"

text \<open>The keys of a map, sorted.\<close>

definition sorted_keys :: "(string \<rightharpoonup> 'a) \<Rightarrow> string list" where
  "sorted_keys m = sorted_list_of_set (dom m)"

definition mergeLabels :: "labels \<Rightarrow> labels \<Rightarrow> labels \<times> string list" where
  "mergeLabels a b = (let merged = a ++ b in (merged, sorted_keys merged))"

text \<open>The loop that drops repeated keys in place; \<open>kept\<close> is \<open>normalized[:write]\<close>, last first.\<close>

fun drop_repeated :: "string list \<Rightarrow> string list \<Rightarrow> string list" where
  "drop_repeated kept [] = rev kept"
| "drop_repeated kept (key # keys) =
     (if kept \<noteq> [] \<and> hd kept = key then drop_repeated kept keys else drop_repeated (key # kept) keys)"

definition normalizeLabelKeys :: "string list \<Rightarrow> string list" where
  "normalizeLabelKeys keys = drop_repeated [] (sort keys)"

definition value_or_empty :: "labels \<Rightarrow> string \<Rightarrow> string" where
  "value_or_empty m k = (case m k of None \<Rightarrow> [] | Some v \<Rightarrow> v)"

definition labelsForKeys :: "labels \<Rightarrow> string list \<Rightarrow> labels" where
  "labelsForKeys m labelKeys = (\<lambda>k. if k \<in> set labelKeys then Some (value_or_empty m k) else None)"

section \<open>Updates and resets\<close>

text \<open>Find the metric or register it, then set the series of its labels.\<close>

definition find_or_register ::
  "prometheus \<Rightarrow> string \<Rightarrow> string \<Rightarrow> string list \<Rightarrow> MetricsManager \<Rightarrow> (string list \<times> MetricsManager) option" where
  "find_or_register P fullName name sortedKeys m =
     (case mm_metrics m fullName of
        Some labelKeys \<Rightarrow> Some (labelKeys, m)
      | None \<Rightarrow>
          let help = ''Redis dynamic metric: '' @ name
          in if pm_registers P (mm_calls m) fullName help sortedKeys
             then Some (sortedKeys, (call (RegisterGauge fullName help sortedKeys) m)
                         \<lparr>mm_metrics := (mm_metrics m)(fullName \<mapsto> sortedKeys)\<rparr>)
             else None)"

definition set_series ::
  "prometheus \<Rightarrow> string \<Rightarrow> labels \<Rightarrow> gauge_value \<Rightarrow> MetricsManager \<Rightarrow> MetricsManager option" where
  "set_series P fullName l v m =
     (if pm_has_series P (mm_calls m) fullName l then Some (call (SetGauge fullName l v) m) else None)"

definition UpdateDynamicMetric ::
  "prometheus \<Rightarrow> string \<Rightarrow> labels \<Rightarrow> labels \<Rightarrow> float64 \<Rightarrow> MetricsManager \<Rightarrow> MetricsManager option" where
  "UpdateDynamicMetric P name l additionalLabels v m =
     (let (mergedLabels, sortedKeys) = mergeLabels l additionalLabels; fullName = metricName name
      in do { (labelKeys, m) \<leftarrow> find_or_register P fullName name sortedKeys m;
              set_series P fullName (labelsForKeys mergedLabels labelKeys) (SetTo v) m })"

definition UpdateDynamicMetricWithTime ::
  "prometheus \<Rightarrow> string \<Rightarrow> labels \<Rightarrow> string list \<Rightarrow> MetricsManager \<Rightarrow> MetricsManager option" where
  "UpdateDynamicMetricWithTime P name l keys m =
     (let fullName = metricName name
      in do { (labelKeys, m) \<leftarrow> find_or_register P fullName name (normalizeLabelKeys keys) m;
              set_series P fullName (labelsForKeys l labelKeys) SetToCurrentTime m })"

definition ResetMetrics :: "env \<Rightarrow> MetricsManager \<Rightarrow> st \<Rightarrow> MetricsManager op" where
  "ResetMetrics E m w =
     do { (names, w) \<leftarrow> map_order E (sorted_keys (mm_metrics m)) w;
          Some (foldl (\<lambda>m n. call (ResetGauge n) m) m names, w) }"

definition ResetMetricByName :: "string \<Rightarrow> MetricsManager \<Rightarrow> MetricsManager" where
  "ResetMetricByName name m =
     (if mm_metrics m (metricName name) = None then m else call (ResetGauge (metricName name)) m)"

definition ResetRegistry :: "prometheus \<Rightarrow> MetricsManager \<Rightarrow> bool \<times> MetricsManager" where
  "ResetRegistry P m =
     (if pm_resettable P then (True, (call ResetRegistryCall m)\<lparr>mm_metrics := Map.empty\<rparr>) else (False, m))"

section \<open>Names\<close>

definition canonical_name :: "string \<Rightarrow> bool" where
  "canonical_name n = (\<exists>k. n = ''redkey_'' @ k \<and> \<not> prefix ''redis_'' k \<and> \<not> prefix ''redkey_'' k \<and> CHR ''-'' \<notin> set k)"

lemma trim_no_prefix: "\<not> prefix ''redis_'' (trim_metric_prefixes s) \<and> \<not> prefix ''redkey_'' (trim_metric_prefixes s)"
  by (induction s rule: trim_metric_prefixes.induct) (subst (1 2) trim_metric_prefixes.simps, simp)

lemma trim_suffix: "suffix (trim_metric_prefixes s) s"
proof (induction s rule: trim_metric_prefixes.induct)
  case (1 s)
  then show ?case
    by (subst trim_metric_prefixes.simps)
      (auto intro: suffix_order.order_trans [OF _ suffix_drop])
qed

lemma ReplaceAll_removes: "c \<notin> set new \<Longrightarrow> c \<notin> set (ReplaceAll s [c] new)"
  by (induction s "[c]" new rule: ReplaceAll.induct) auto

lemma metricName_canonical: "canonical_name (metricName key)"
proof -
  have "CHR ''-'' \<notin> set (ReplaceAll key ''-'' ''_'')" by (rule ReplaceAll_removes) simp
  then have "CHR ''-'' \<notin> set (trim_metric_prefixes (ReplaceAll key ''-'' ''_''))"
    using set_mono_suffix [OF trim_suffix] by blast
  then show ?thesis using trim_no_prefix unfolding canonical_name_def metricName_def by blast
qed

lemma ReplaceAll_absent: "c \<notin> set s \<Longrightarrow> ReplaceAll s [c] new = s"
  by (induction s "[c]" new rule: ReplaceAll.induct) auto

lemma metricName_of_canonical: "canonical_name n \<Longrightarrow> metricName n = n"
proof -
  assume "canonical_name n"
  then obtain k where k: "n = ''redkey_'' @ k" "\<not> prefix ''redis_'' k" "\<not> prefix ''redkey_'' k" "CHR ''-'' \<notin> set k"
    by (auto simp: canonical_name_def)
  have "ReplaceAll n ''-'' ''_'' = n" by (rule ReplaceAll_absent) (simp add: k)
  moreover have "trim_metric_prefixes k = k" using k by (simp add: trim_metric_prefixes.simps)
  moreover have "trim_metric_prefixes n = trim_metric_prefixes k"
    by (subst trim_metric_prefixes.simps) (simp add: k)
  ultimately show ?thesis by (simp add: metricName_def k)
qed

section \<open>Label keys\<close>

lemma drop_repeated_set: "set (drop_repeated kept keys) = set kept \<union> set keys"
  by (induction kept keys rule: drop_repeated.induct) (auto dest: hd_in_set)

lemma drop_repeated_sorted:
  "sorted (rev kept @ keys) \<Longrightarrow> distinct kept \<Longrightarrow> sorted (drop_repeated kept keys) \<and> distinct (drop_repeated kept keys)"
proof (induction kept keys rule: drop_repeated.induct)
  case (2 kept key keys)
  have ord: "x \<le> key" if "x \<in> set kept" for x using 2(3) that by (auto simp: sorted_append)
  have hd: "x \<le> hd kept" if "x \<in> set kept" for x
    using 2(3) that by (cases kept) (auto simp: sorted_append)
  show ?case
  proof (cases "kept \<noteq> [] \<and> hd kept = key")
    case True
    then show ?thesis using 2 by (simp add: sorted_append)
  next
    case False
    have "key \<notin> set kept"
    proof
      assume k: "key \<in> set kept"
      then have "hd kept \<le> key" using ord by (cases kept) auto
      then show False using hd [OF k] False k by (cases kept) auto
    qed
    then show ?thesis using 2 False by auto
  qed
qed simp

lemma normalizeLabelKeys_eq: "normalizeLabelKeys keys = sorted_list_of_set (set keys)"
  using drop_repeated_sorted [of "[]" "sort keys"] drop_repeated_set [of "[]" "sort keys"]
  unfolding normalizeLabelKeys_def
  by (metis append_Nil distinct.simps(1) empty_set rev.simps(1) set_sort sorted_list_of_set.idem_if_sorted_distinct
      sorted_sort sup_bot_left)

lemma sorted_keys_props [simp]: "sorted (sorted_keys m)" "distinct (sorted_keys m)"
  by (simp_all add: sorted_keys_def)

lemma set_sorted_keys: "finite (dom m) \<Longrightarrow> set (sorted_keys m) = dom m"
  by (simp add: sorted_keys_def)

lemma dom_labelsForKeys [simp]: "dom (labelsForKeys m ks) = set ks"
  by (auto simp: labelsForKeys_def dom_def)

section \<open>What the calls amount to\<close>

text \<open>The gauges of the current registry with their label keys, and the series they expose.\<close>

fun registered :: "gauge_call list \<Rightarrow> string \<rightharpoonup> string list" where
  "registered [] = Map.empty"
| "registered (RegisterGauge n h ks # cs) = (registered cs)(n \<mapsto> ks)"
| "registered (ResetRegistryCall # cs) = Map.empty"
| "registered (SetGauge n l v # cs) = registered cs"
| "registered (ResetGauge n # cs) = registered cs"

fun series :: "gauge_call list \<Rightarrow> (string \<times> labels) set" where
  "series [] = {}"
| "series (SetGauge n l v # cs) = insert (n, l) (series cs)"
| "series (ResetGauge n # cs) = {(m, l) \<in> series cs. m \<noteq> n}"
| "series (ResetRegistryCall # cs) = {}"
| "series (RegisterGauge n h ks # cs) = series cs"

lemma finite_registered [simp]: "finite (dom (registered cs))"
  by (induction cs rule: registered.induct) (simp_all add: dom_if Collect_conv_if)

text \<open>The library is used as it asks to be: no name is registered twice in a registry, names are canonical
  and label keys sorted without repetition, and a series is only asked for with exactly the label keys its
  gauge was registered with.\<close>

fun well_used :: "gauge_call list \<Rightarrow> bool" where
  "well_used [] = True"
| "well_used (RegisterGauge n h ks # cs) =
     (registered cs n = None \<and> canonical_name n \<and> sorted ks \<and> distinct ks \<and> well_used cs)"
| "well_used (SetGauge n l v # cs) = ((\<exists>ks. registered cs n = Some ks \<and> dom l = set ks) \<and> well_used cs)"
| "well_used (ResetGauge n # cs) = (registered cs n \<noteq> None \<and> well_used cs)"
| "well_used (ResetRegistryCall # cs) = well_used cs"

text \<open>A library that accepts what it documents to accept: the registration of a new canonical name with
  distinct keys, and a label set with exactly the keys of its gauge.\<close>

definition accepting :: "prometheus \<Rightarrow> bool" where
  "accepting P =
     ((\<forall>cs n h ks. well_used cs \<and> registered cs n = None \<and> canonical_name n \<and> distinct ks \<longrightarrow> pm_registers P cs n h ks)
    \<and> (\<forall>cs n l ks. well_used cs \<and> registered cs n = Some ks \<and> dom l = set ks \<longrightarrow> pm_has_series P cs n l))"

definition manager_ok :: "(string \<Rightarrow> labels \<Rightarrow> bool) \<Rightarrow> MetricsManager \<Rightarrow> bool" where
  "manager_ok G m = (mm_metrics m = registered (mm_calls m) \<and> well_used (mm_calls m)
     \<and> (\<forall>(n, l) \<in> series (mm_calls m). G n l))"

text \<open>\<open>returns L I x\<close>: \<open>x\<close> is a result (rather than a panic) when \<open>L\<close> holds, and any result satisfies \<open>I\<close>.\<close>

definition returns :: "bool \<Rightarrow> ('a \<Rightarrow> bool) \<Rightarrow> 'a option \<Rightarrow> bool" where
  "returns L I x = ((L \<longrightarrow> x \<noteq> None) \<and> (\<forall>y. x = Some y \<longrightarrow> I y))"

named_theorems returns_intro "rules that push an invariant through an operation of the collector"

lemma returns_Some [returns_intro]: "I y \<Longrightarrow> returns L I (Some y)"
  by (simp add: returns_def)

lemma returns_bind [returns_intro]:
  "returns L I m \<Longrightarrow> (\<And>y. I y \<Longrightarrow> returns L J (f y)) \<Longrightarrow> returns L J (m \<bind> f)"
  by (cases m) (auto simp: returns_def)

lemma returns_if [returns_intro]:
  "(c \<Longrightarrow> returns L I m) \<Longrightarrow> (\<not> c \<Longrightarrow> returns L I n) \<Longrightarrow> returns L I (if c then m else n)"
  by simp

lemma returns_option [returns_intro]:
  "(x = None \<Longrightarrow> returns L I m) \<Longrightarrow> (\<And>y. x = Some y \<Longrightarrow> returns L I (f y)) \<Longrightarrow>
   returns L I (case x of None \<Rightarrow> m | Some y \<Rightarrow> f y)"
  by (cases x) auto

lemma returns_mono: "returns L I x \<Longrightarrow> (\<And>y. I y \<Longrightarrow> J y) \<Longrightarrow> returns L J x"
  by (auto simp: returns_def)

lemma returns_of_keeps: "keeps I m \<Longrightarrow> returns L (\<lambda>(r, s). I s) m"
  by (auto simp: keeps_def returns_def)

lemma find_or_register_ok:
  assumes m: "manager_ok G m" and k: "canonical_name n" "sorted ks" "distinct ks"
  shows "returns (accepting P) (\<lambda>(ks, m'). manager_ok G m' \<and> registered (mm_calls m') n = Some ks)
    (find_or_register P n name ks m)"
proof (cases "mm_metrics m n")
  case None
  then have "accepting P \<longrightarrow> pm_registers P (mm_calls m) n (''Redis dynamic metric: '' @ name) ks"
    using m k by (auto simp: manager_ok_def accepting_def)
  then show ?thesis using m k None
    by (simp add: find_or_register_def Let_def returns_def manager_ok_def call_def)
qed (use m in \<open>simp add: find_or_register_def returns_def manager_ok_def\<close>)

lemma set_series_ok:
  assumes "manager_ok G m" and "registered (mm_calls m) n = Some ks" and "dom l = set ks" and "G n l"
  shows "returns (accepting P) (manager_ok G) (set_series P n l v m)"
  using assms by (auto simp: set_series_def returns_def manager_ok_def call_def accepting_def)

lemma update_ok:
  assumes "manager_ok G m" and "\<And>ks. G (metricName name) (labelsForKeys (l ++ extra) ks)"
  shows "returns (accepting P) (manager_ok G) (UpdateDynamicMetric P name l extra v m)"
  unfolding UpdateDynamicMetric_def mergeLabels_def Let_def prod.case
  by (rule returns_bind [OF find_or_register_ok [OF assms(1) metricName_canonical]])
    (simp, simp, clarsimp, rule set_series_ok, assumption+, simp_all add: assms(2))

lemma update_time_ok:
  assumes "manager_ok G m" and "\<And>ks. G (metricName name) (labelsForKeys l ks)"
  shows "returns (accepting P) (manager_ok G) (UpdateDynamicMetricWithTime P name l keys m)"
  unfolding UpdateDynamicMetricWithTime_def Let_def
  by (rule returns_bind [OF find_or_register_ok [OF assms(1) metricName_canonical]])
    (simp add: normalizeLabelKeys_eq, simp add: normalizeLabelKeys_eq, clarsimp, rule set_series_ok, assumption+, simp_all add: assms(2))

lemma reset_each:
  "set names \<subseteq> dom (mm_metrics m) \<Longrightarrow> manager_ok G m \<Longrightarrow>
   (let m' = foldl (\<lambda>m n. call (ResetGauge n) m) m names
    in manager_ok G m' \<and> mm_metrics m' = mm_metrics m \<and> series (mm_calls m') = {(n, l) \<in> series (mm_calls m). n \<notin> set names})"
proof (induction names arbitrary: m)
  case (Cons n names)
  have "manager_ok G (call (ResetGauge n) m)" using Cons.prems by (auto simp: manager_ok_def call_def)
  moreover have "mm_metrics (call (ResetGauge n) m) = mm_metrics m" by (simp add: call_def)
  ultimately show ?case using Cons.IH [of "call (ResetGauge n) m"] Cons.prems
    by (auto simp: Let_def call_def)
qed (auto simp: manager_ok_def)

lemma series_registered: "well_used cs \<Longrightarrow> (n, l) \<in> series cs \<Longrightarrow> registered cs n \<noteq> None"
  by (induction cs rule: well_used.induct) auto

text \<open>After a reset no series is left, whatever they were.\<close>

lemma ResetMetrics_ok:
  assumes "manager_ok G m"
  shows "\<exists>m' w'. ResetMetrics E m w = Some (m', w') \<and> w' = log ChooseOrder w \<and> manager_ok G' m' \<and> series (mm_calls m') = {}"
proof -
  let ?names = "shuffle (e_order E (hist w)) (sorted_keys (mm_metrics m))"
  let ?m = "foldl (\<lambda>m n. call (ResetGauge n) m) m ?names"
  have names: "set ?names = dom (mm_metrics m)"
    using assms by (simp add: set_sorted_keys manager_ok_def)
  then have "manager_ok G ?m" and s: "series (mm_calls ?m) = {(n, l) \<in> series (mm_calls m). n \<notin> set ?names}"
    using reset_each [of ?names m G] assms by (auto simp: Let_def)
  moreover have "series (mm_calls ?m) = {}"
    unfolding s names using assms series_registered by (auto simp: manager_ok_def dom_def)
  ultimately show ?thesis by (simp add: ResetMetrics_def map_order_def manager_ok_def)
qed

lemma ResetMetricByName_ok: "manager_ok G m \<Longrightarrow> manager_ok G (ResetMetricByName name m)"
  by (auto simp: ResetMetricByName_def manager_ok_def call_def)

lemma ResetRegistry_ok:
  "manager_ok G m \<Longrightarrow> ResetRegistry P m = (True, m') \<Longrightarrow> manager_ok G' m' \<and> series (mm_calls m') = {}"
  by (auto simp: ResetRegistry_def manager_ok_def call_def split: if_splits)

lemma NewMetricsManager_ok: "manager_ok G NewMetricsManager"
  by (simp add: manager_ok_def NewMetricsManager_def)

end
