(* ===== verification/Registry.thy ===== *)
theory Registry
  imports Metrics_Manager
begin

text \<open>
  \<open>metrics/registry.go\<close>: the registry that can be emptied. It passes every operation on to a registry of the Prometheus
  library, which it replaces by a new one when it is reset. The library is the record \<open>registry_library\<close>. The lock makes
  each operation atomic.
\<close>

record ('r, 'c, 'f) registry_library =
  lib_NewRegistry :: 'r
  lib_Register :: "'r \<Rightarrow> 'c \<Rightarrow> 'r \<times> err option"
  lib_MustRegister :: "'r \<Rightarrow> 'c list \<Rightarrow> 'r option"
  lib_Unregister :: "'r \<Rightarrow> 'c \<Rightarrow> 'r \<times> bool"
  lib_Gather :: "'r \<Rightarrow> 'f list \<times> err option"

record 'r ResettableRegistry =
  rr_registry :: 'r

definition NewResettableRegistry :: "('r, 'c, 'f) registry_library \<Rightarrow> 'r ResettableRegistry" where
  "NewResettableRegistry L = \<lparr>rr_registry = lib_NewRegistry L\<rparr>"

definition registry_Register ::
  "('r, 'c, 'f) registry_library \<Rightarrow> 'c \<Rightarrow> 'r ResettableRegistry \<Rightarrow> 'r ResettableRegistry \<times> err option" where
  "registry_Register L collector r =
     (let (reg, e) = lib_Register L (rr_registry r) collector in (r\<lparr>rr_registry := reg\<rparr>, e))"

text \<open>\<open>None\<close>: the library panics.\<close>

definition registry_MustRegister ::
  "('r, 'c, 'f) registry_library \<Rightarrow> 'c list \<Rightarrow> 'r ResettableRegistry \<Rightarrow> 'r ResettableRegistry option" where
  "registry_MustRegister L collectors r =
     map_option (\<lambda>reg. r\<lparr>rr_registry := reg\<rparr>) (lib_MustRegister L (rr_registry r) collectors)"

definition registry_Unregister ::
  "('r, 'c, 'f) registry_library \<Rightarrow> 'c \<Rightarrow> 'r ResettableRegistry \<Rightarrow> 'r ResettableRegistry \<times> bool" where
  "registry_Unregister L collector r =
     (let (reg, ok) = lib_Unregister L (rr_registry r) collector in (r\<lparr>rr_registry := reg\<rparr>, ok))"

definition registry_Gather :: "('r, 'c, 'f) registry_library \<Rightarrow> 'r ResettableRegistry \<Rightarrow> 'f list \<times> err option" where
  "registry_Gather L r = lib_Gather L (rr_registry r)"

definition registry_Reset :: "('r, 'c, 'f) registry_library \<Rightarrow> 'r ResettableRegistry \<Rightarrow> 'r ResettableRegistry" where
  "registry_Reset L r = r\<lparr>rr_registry := lib_NewRegistry L\<rparr>"

lemma reset_is_new: "registry_Reset L r = NewResettableRegistry L"
  by (simp add: registry_Reset_def NewResettableRegistry_def)

section \<open>The calls of the metrics manager\<close>

text \<open>A gauge is registered with its name, its help text and its label keys. The other calls of the manager are on
  gauges, which the registry does not see.\<close>

type_synonym gauge_desc = "string \<times> string \<times> string list"

fun replay :: "('r, gauge_desc, 'f) registry_library \<Rightarrow> gauge_call list \<Rightarrow> 'r ResettableRegistry option" where
  "replay L [] = Some (NewResettableRegistry L)"
| "replay L (RegisterGauge n h ks # cs) = replay L cs \<bind> registry_MustRegister L [(n, h, ks)]"
| "replay L (ResetRegistryCall # cs) = map_option (registry_Reset L) (replay L cs)"
| "replay L (SetGauge n l v # cs) = replay L cs"
| "replay L (ResetGauge n # cs) = replay L cs"

text \<open>A library whose registries hold gauges by name, as the views \<open>held\<close> tell, and which accepts every
  new name that is canonical, with distinct keys.\<close>

definition holds_gauges :: "('r, gauge_desc, 'f) registry_library \<Rightarrow> ('r \<Rightarrow> string \<rightharpoonup> string list) \<Rightarrow> bool" where
  "holds_gauges L held = (held (lib_NewRegistry L) = Map.empty
     \<and> (\<forall>r n h ks. held r n = None \<and> canonical_name n \<and> distinct ks
         \<longrightarrow> (\<exists>r'. lib_MustRegister L r [(n, h, ks)] = Some r' \<and> held r' = (held r)(n \<mapsto> ks))))"

text \<open>So the registry holds what \<open>registered\<close> says of the calls, and no call in good use panics.\<close>

lemma replay_registered:
  assumes "holds_gauges L held" and "well_used cs"
  shows "\<exists>r. replay L cs = Some r \<and> held (rr_registry r) = registered cs"
  using assms(2)
proof (induction cs rule: well_used.induct)
  case 1
  then show ?case using assms(1) by (simp add: NewResettableRegistry_def holds_gauges_def)
next
  case (2 n h ks cs)
  then obtain r where r: "replay L cs = Some r" "held (rr_registry r) = registered cs" and
      new: "registered cs n = None" "canonical_name n" "distinct ks" by auto
  then obtain r' where "lib_MustRegister L (rr_registry r) [(n, h, ks)] = Some r'" "held r' = (registered cs)(n \<mapsto> ks)"
    using assms(1) new unfolding holds_gauges_def by metis
  then show ?case using r by (auto simp: registry_MustRegister_def fun_eq_iff)
next
  case (5 cs)
  then obtain r where "replay L cs = Some r" by auto
  then show ?case using assms(1) by (simp add: registry_Reset_def holds_gauges_def)
qed auto

lemma held_gauges_example: "holds_gauges \<lparr>lib_NewRegistry = Map.empty, lib_Register = (\<lambda>r (n, h, ks). (r(n \<mapsto> ks), None)),
    lib_MustRegister = (\<lambda>r cs. Some (foldl (\<lambda>r (n, h, ks). r(n \<mapsto> ks)) r cs)), lib_Unregister = (\<lambda>r (n, h, ks). (r(n := None), r n \<noteq> None)),
    lib_Gather = (\<lambda>r. ([], None))\<rparr> id"
  by (simp add: holds_gauges_def)

end
