(* ===== verification/Collector.thy ===== *)
theory Collector
  imports Metrics_Manager Health_Remediation
begin

text \<open>
  \<open>metrics/collector.go\<close>: the loop that reads INFO from every node and the health of the cluster and
  exposes them as gauges. The collector runs beside the reconciler, with a health checker of its own; its
  world is a state \<open>st\<close> whose history holds its own interactions, whose client cache is that of its
  checker, and whose runtime configuration is the one it shares with the reconciler, read once per cycle.
  The deadlines of single operations show as errors of the environment.
\<close>

record node_info =
  ni_name :: string
  ni_addr :: string

record collector =
  co_cluster :: string
  co_namespace :: string
  co_world :: st
  co_manager :: MetricsManager
  co_cachedPassword :: string
  co_cachedAuthSecret :: string
  co_passwordLoaded :: bool
  co_labelsLoaded :: bool
  co_labels :: go_map
  co_labelKeys :: "string list"
  co_clients :: go_map
  co_clientsPassword :: string
  co_lastNodeIDs :: "string list"

definition NewCollector :: "string \<Rightarrow> string \<Rightarrow> st \<Rightarrow> collector" where
  "NewCollector clusterName ns w =
     \<lparr>co_cluster = clusterName, co_namespace = ns,
      co_world = w\<lparr>hc_clients := Map.empty, hc_clientsPassword := []\<rparr>,
      co_manager = NewMetricsManager, co_cachedPassword = [], co_cachedAuthSecret = [],
      co_passwordLoaded = False, co_labelsLoaded = False, co_labels = None, co_labelKeys = [],
      co_clients = None, co_clientsPassword = [], co_lastNodeIDs = []\<rparr>"

definition on_world :: "(st \<Rightarrow> 'r op) \<Rightarrow> collector \<Rightarrow> ('r \<times> collector) option" where
  "on_world f c = do { (r, w) \<leftarrow> f (co_world c); Some (r, c\<lparr>co_world := w\<rparr>) }"

definition on_manager :: "(MetricsManager \<Rightarrow> MetricsManager option) \<Rightarrow> collector \<Rightarrow> collector option" where
  "on_manager f c = do { m \<leftarrow> f (co_manager c); Some (c\<lparr>co_manager := m\<rparr>) }"

fun each :: "('a \<Rightarrow> 'c \<Rightarrow> 'c option) \<Rightarrow> 'a list \<Rightarrow> 'c \<Rightarrow> 'c option" where
  "each f [] c = Some c"
| "each f (x # xs) c = do { c \<leftarrow> f x c; each f xs c }"

section \<open>Labels\<close>

definition buildCommonMetadataTags :: "collector \<Rightarrow> labels" where
  "buildCommonMetadataTags c =
     [''cluster'' \<mapsto> co_cluster c, ''namespace'' \<mapsto> co_namespace c] ++ entries (metricsLabels (run (co_world c)))"

definition buildNodeTags :: "string \<Rightarrow> collector \<Rightarrow> labels" where
  "buildNodeTags nodeName c = (buildCommonMetadataTags c)(''instanceId'' \<mapsto> nodeName)"

definition sortedMetricsLabelKeys :: "go_map \<Rightarrow> string list" where
  "sortedMetricsLabelKeys m = sorted_keys (entries m)"

text \<open>A missing key reads as the empty string.\<close>

definition equalStringMaps :: "go_map \<Rightarrow> go_map \<Rightarrow> bool" where
  "equalStringMaps a b =
     (card (dom (entries a)) = card (dom (entries b))
      \<and> list_all (\<lambda>k. value_or_empty (entries b) k = value_or_empty (entries a) k) (sorted_keys (entries a)))"

definition reconcileMetricsLabelSchema :: "env \<Rightarrow> prometheus \<Rightarrow> collector \<Rightarrow> collector option" where
  "reconcileMetricsLabelSchema E P c =
     (let currentLabels = metricsLabels (run (co_world c));
          currentKeys = sortedMetricsLabelKeys currentLabels;
          adopted = (\<lambda>c. c\<lparr>co_labels := currentLabels, co_labelKeys := currentKeys\<rparr>)
      in if \<not> co_labelsLoaded c then Some (adopted (c\<lparr>co_labelsLoaded := True\<rparr>))
         else if co_labelKeys c \<noteq> currentKeys then
           (case ResetRegistry P (co_manager c) of
              (True, m) \<Rightarrow> Some (adopted (c\<lparr>co_manager := m\<rparr>))
            | (False, _) \<Rightarrow>
                do { (m, c) \<leftarrow> on_world (ResetMetrics E (co_manager c)) c; Some (adopted (c\<lparr>co_manager := m\<rparr>)) })
         else if \<not> equalStringMaps (co_labels c) currentLabels then
           do { (m, c) \<leftarrow> on_world (ResetMetrics E (co_manager c)) c;
                Some (c\<lparr>co_manager := m, co_labels := currentLabels\<rparr>) }
         else Some c)"

section \<open>Password, nodes and clients\<close>

definition collector_getPassword :: "env \<Rightarrow> collector \<Rightarrow> ((err + string) \<times> collector) option" where
  "collector_getPassword E c =
     (let secretName = authSecret (run (co_world c));
          c = (if secretName \<noteq> co_cachedAuthSecret c
               then c\<lparr>co_passwordLoaded := False, co_cachedAuthSecret := secretName\<rparr> else c);
          text = (\<lambda>what. what @ co_namespace c @ ''/'' @ secretName)
      in if co_passwordLoaded c then Some (Inr (co_cachedPassword c), c)
         else if secretName = [] then Some (Inr [], c\<lparr>co_passwordLoaded := True, co_cachedPassword := []\<rparr>)
         else do { (r, c) \<leftarrow> on_world (k8s_get (\<lambda>E h. e_get_secret E h secretName) (GetSecret secretName) E) c;
                   case r of
                     Inl k \<Rightarrow> Some (Inl (wrap (text ''reading auth secret '') (kerr_text k)), c)
                   | Inr secret \<Rightarrow>
                       (case sd_Data secret SecretPasswordKey of
                          None \<Rightarrow> Some (Inl (text ''auth secret '' @ '' missing key '' @ quote SecretPasswordKey), c)
                        | Some pw \<Rightarrow> Some (Inr pw, c\<lparr>co_cachedPassword := pw, co_passwordLoaded := True\<rparr>)) })"

definition discoverNodes :: "env \<Rightarrow> collector \<Rightarrow> (node_info list \<times> collector) option" where
  "discoverNodes E c =
     (if sint (tp_Primaries (topology_of (run (co_world c)))) \<le> 0 then Some ([], c)
      else do { (r, c) \<leftarrow> on_world (k8s_get e_list_pods ListPods E) c;
                Some (case r of
                        Inl k \<Rightarrow> []
                      | Inr pods \<Rightarrow>
                          map (\<lambda>pod. \<lparr>ni_name = po_Name pod, ni_addr = po_PodIP pod @ '':'' @ Itoa DefaultPort\<rparr>)
                            (filter (\<lambda>pod. po_PodIP pod \<noteq> []) pods), c) })"

definition closeAllClients :: "collector \<Rightarrow> collector" where
  "closeAllClients c = c\<lparr>co_clients := None\<rparr>"

definition reconcileClientPool :: "node_info list \<Rightarrow> string \<Rightarrow> collector \<Rightarrow> collector" where
  "reconcileClientPool currentNodes password c =
     (case co_clients c of
        None \<Rightarrow> c\<lparr>co_clients := Some Map.empty, co_clientsPassword := password\<rparr>
      | Some clients \<Rightarrow>
          if co_clientsPassword c \<noteq> password
          then (closeAllClients c)\<lparr>co_clients := Some Map.empty, co_clientsPassword := password\<rparr>
          else c\<lparr>co_clients := Some (clients |` (ni_addr ` set currentNodes))\<rparr>)"

definition poolGetOrCreateClient :: "string \<Rightarrow> string \<Rightarrow> collector \<Rightarrow> client \<times> collector" where
  "poolGetOrCreateClient addr password c =
     (let c = (case co_clients c of None \<Rightarrow> c\<lparr>co_clients := Some Map.empty, co_clientsPassword := password\<rparr>
               | Some _ \<Rightarrow> c)
      in case entries (co_clients c) addr of
           Some pw \<Rightarrow> ((addr, pw), c)
         | None \<Rightarrow> ((addr, password), c\<lparr>co_clients := Some ((entries (co_clients c))(addr \<mapsto> password))\<rparr>))"

definition poolDiscardClient :: "string \<Rightarrow> collector \<Rightarrow> collector" where
  "poolDiscardClient addr c =
     (case co_clients c of None \<Rightarrow> c | Some clients \<Rightarrow> c\<lparr>co_clients := Some (clients(addr := None))\<rparr>)"

section \<open>The metrics of a node\<close>

definition processSingleMetric ::
  "prometheus \<Rightarrow> string \<Rightarrow> string \<Rightarrow> labels \<Rightarrow> MetricsManager \<Rightarrow> MetricsManager option" where
  "processSingleMetric P name rawValue tags m =
     (case atoi rawValue of
        Some i \<Rightarrow> UpdateDynamicMetric P name tags Map.empty (float_of_int i) m
      | None \<Rightarrow>
          (case ParseFloat rawValue of
             Some f \<Rightarrow> UpdateDynamicMetric P name tags Map.empty f m
           | None \<Rightarrow> UpdateDynamicMetric P name tags [name \<mapsto> rawValue] (float_of_int (- 1)) m))"

definition processSubmetrics ::
  "prometheus \<Rightarrow> string \<Rightarrow> string \<Rightarrow> labels \<Rightarrow> MetricsManager \<Rightarrow> MetricsManager option" where
  "processSubmetrics P name rawValue tags m =
     each (\<lambda>part m. case Cut part ''='' of
                      None \<Rightarrow> Some m
                    | Some (subKey, subVal) \<Rightarrow>
                        processSingleMetric P (name @ ''_'' @ ReplaceAll subKey ''-'' ''_'') subVal tags m)
       (Split (CHR '','') rawValue) m"

definition info_metric ::
  "prometheus \<Rightarrow> string list \<Rightarrow> (string \<rightharpoonup> string) \<Rightarrow> labels \<Rightarrow> string \<Rightarrow> MetricsManager \<Rightarrow> MetricsManager option" where
  "info_metric P infoKeys info tags key m =
     (let v = value_or_empty info key; normKey = ReplaceAll key ''-'' ''_''
      in if prefix ''db'' key \<or> Contains v ''slave0'' \<or> normKey \<notin> set infoKeys then Some m
         else if Contains v ''='' then processSubmetrics P normKey v tags m
         else processSingleMetric P normKey v tags m)"

definition keyspace_metric ::
  "prometheus \<Rightarrow> (string \<rightharpoonup> string) \<Rightarrow> labels \<Rightarrow> string \<Rightarrow> MetricsManager \<Rightarrow> MetricsManager option" where
  "keyspace_metric P keyspaces tags dbName m =
     each (\<lambda>part m. case Cut part ''='' of
                      None \<Rightarrow> Some m
                    | Some (subKey, subVal) \<Rightarrow>
                        (case ParseFloat subVal of
                           Some f \<Rightarrow> UpdateDynamicMetric P (''keyspace_'' @ subKey) tags [''database'' \<mapsto> dbName] f m
                         | None \<Rightarrow> Some m))
       (Split (CHR '','') (value_or_empty keyspaces dbName)) m"

definition collectNode ::
  "env \<Rightarrow> prometheus \<Rightarrow> string \<Rightarrow> string list \<Rightarrow> node_info \<Rightarrow> collector \<Rightarrow> (err option \<times> collector) option" where
  "collectNode E P password infoKeys n c =
     (let (rc, c) = poolGetOrCreateClient (ni_addr n) password c
      in do { (raw, c) \<leftarrow> on_world (GetInfo E rc) c;
              case raw of
                Inl e \<Rightarrow> Some (Some e, poolDiscardClient (ni_addr n) c)
              | Inr raw \<Rightarrow>
                  (let info = ParseInfoAll raw;
                       tags = buildNodeTags (ni_name n) c;
                       keyspaces = (\<lambda>k. if prefix ''db'' k then info k else None)
                   in do { (keys, c) \<leftarrow> on_world (map_order E (sorted_keys info)) c;
                           c \<leftarrow> on_manager (each (info_metric P infoKeys info tags) keys) c;
                           (dbs, c) \<leftarrow> on_world (map_order E (sorted_keys keyspaces)) c;
                           c \<leftarrow> on_manager (each (keyspace_metric P keyspaces tags) dbs) c;
                           Some (None, c) }) })"

section \<open>The metrics of the cluster\<close>

definition processClusterInfo :: "env \<Rightarrow> prometheus \<Rightarrow> cluster_info \<Rightarrow> collector \<Rightarrow> collector option" where
  "processClusterInfo E P info c =
     (let tags = buildCommonMetadataTags c; infoTags = tags(''cluster_state'' \<mapsto> ci_State info)
      in do { (infoLabelKeys, c) \<leftarrow> on_world (map_order E (sorted_keys infoTags)) c;
              c \<leftarrow> on_manager (UpdateDynamicMetricWithTime P ''cluster_info'' infoTags infoLabelKeys) c;
              (keys, c) \<leftarrow> on_world (map_order E (sorted_keys (ci_raw info))) c;
              on_manager (each (\<lambda>k m. case ParseFloat (value_or_empty (ci_raw info) k) of
                                  Some f \<Rightarrow> UpdateDynamicMetric P (''cluster_info_'' @ ReplaceAll k ''-'' ''_'') tags Map.empty f m
                                | None \<Rightarrow> Some m) keys) c })"

definition node_fingerprint :: "cluster_node \<Rightarrow> string" where
  "node_fingerprint n =
     cn_ID n @ ''|'' @ cn_IP n @ ''|'' @ cn_Flags n @ ''|'' @ cn_Slots n @ ''|'' @ cn_Primary n @ ''|'' @ cn_State n"

definition processClusterNodes :: "env \<Rightarrow> prometheus \<Rightarrow> cluster_node list \<Rightarrow> collector \<Rightarrow> collector option" where
  "processClusterNodes E P nodes c =
     (let currentIDs = sort (map node_fingerprint nodes);
          c = (if co_lastNodeIDs c \<noteq> currentIDs
               then c\<lparr>co_manager := ResetMetricByName ''nodes_metrics'' (co_manager c), co_lastNodeIDs := currentIDs\<rparr>
               else c)
      in each (\<lambda>n c.
                let tags = (buildCommonMetadataTags c)(''nodeId'' \<mapsto> cn_ID n, ''nodeIp'' \<mapsto> cn_IP n,
                      ''role'' \<mapsto> cn_Flags n, ''slots'' \<mapsto> cn_Slots n, ''primaryId'' \<mapsto> cn_Primary n,
                      ''state'' \<mapsto> cn_State n)
                in do { (labelKeys, c) \<leftarrow> on_world (map_order E (sorted_keys tags)) c;
                        on_manager (UpdateDynamicMetricWithTime P ''nodes_metrics'' tags labelKeys) c })
           nodes c)"

definition boolToFloat :: "bool \<Rightarrow> float64" where
  "boolToFloat b = float_of_int (if b then 1 else 0)"

definition processClusterHealthMetrics :: "prometheus \<Rightarrow> report \<Rightarrow> collector \<Rightarrow> collector option" where
  "processClusterHealthMetrics P rep c =
     (let tags = buildCommonMetadataTags c
      in on_manager (each (\<lambda>(name, f). UpdateDynamicMetric P name tags Map.empty f)
           [(''cluster_membership_ok'', boolToFloat (rp_MembershipOK rep)),
            (''cluster_slots_covered_ok'', boolToFloat (rp_SlotsCoveredOK rep)),
            (''cluster_balanced_ok'', boolToFloat (rp_BalancedOK rep)),
            (''cluster_healthy'', boolToFloat (rp_Healthy rep)),
            (''cluster_check_errors'', float_of_int (int (length (rp_ClusterCheckErrors rep)))),
            (''cluster_check_warnings'', float_of_int (int (length (rp_ClusterCheckWarnings rep)))),
            (''cluster_check_command_output_code'', float_of_int (rp_ClusterCheckCommandOutputCode rep))]) c)"

definition collectClusterMetrics ::
  "env \<Rightarrow> prometheus \<Rightarrow> node_info list \<Rightarrow> string \<Rightarrow> collector \<Rightarrow> collector option" where
  "collectClusterMetrics E P nodes password c =
     (if nodes = [] then Some c
      else let topology = topology_of (run (co_world c));
               healthNodes = map (\<lambda>n. \<lparr>hn_Name = ni_name n, hn_Addr = ni_addr n\<rparr>) nodes
           in do { ((rep, _), c) \<leftarrow> on_world (Check E healthNodes password (sint (tp_Primaries topology))
                                               (sint (tp_ReplicasPerPrimary topology))) c;
                   c \<leftarrow> (case rp_ClusterInfo rep of None \<Rightarrow> Some c | Some info \<Rightarrow> processClusterInfo E P info c);
                   c \<leftarrow> (if rp_ClusterNodes rep = [] then Some c
                         else processClusterNodes E P (rp_ClusterNodes rep) c);
                   processClusterHealthMetrics P rep c })"

section \<open>The cycle and the loop\<close>

text \<open>The counts of collected and failed nodes are only logged.\<close>

definition collect :: "env \<Rightarrow> prometheus \<Rightarrow> collector \<Rightarrow> collector option" where
  "collect E P c =
     do { c \<leftarrow> reconcileMetricsLabelSchema E P c;
          let infoKeys = redisInfoKeys (run (co_world c))
          in do { (pw, c) \<leftarrow> collector_getPassword E c;
                  case pw of
                    Inl e \<Rightarrow> Some c
                  | Inr password \<Rightarrow>
                      do { (nodes, c) \<leftarrow> discoverNodes E c;
                           if nodes = [] then Some c
                           else let c = reconcileClientPool nodes password c
                                in do { c \<leftarrow> (if infoKeys = [] then Some c
                                              else each (\<lambda>n c. map_option snd (collectNode E P password infoKeys n c)) nodes c);
                                        if standalone (run (co_world c)) then Some c
                                        else collectClusterMetrics E P nodes password c } } } }"

definition set_run :: "RuntimeConfig \<Rightarrow> collector \<Rightarrow> collector" where
  "set_run rc c = c\<lparr>co_world := (co_world c)\<lparr>run := rc\<rparr>\<rparr>"

text \<open>The polling loop, for the cycles whose shared runtime configurations are given: while the collector
  waits, the reconciler may have loaded other settings.\<close>

fun collector_loop :: "env \<Rightarrow> prometheus \<Rightarrow> RuntimeConfig list \<Rightarrow> collector \<Rightarrow> collector option" where
  "collector_loop E P [] c = Some c"
| "collector_loop E P (rc # rcs) c =
     do { (done, c) \<leftarrow> on_world (sleep E (metricsInterval (run (co_world c)))) c;
          if done \<noteq> None then Some (closeAllClients c)
          else do { c \<leftarrow> collect E P (set_run rc c); collector_loop E P rcs c } }"

section \<open>What a cycle preserves\<close>

text \<open>The labels a metric may set itself: the fixed ones, and the metric's own name (the label a textual
  value goes into).\<close>

definition own_label :: "string \<Rightarrow> string \<Rightarrow> bool" where
  "own_label n k = (metricName k = n \<or> k \<in> {''instanceId'', ''database'', ''cluster_state'', ''nodeId'', ''nodeIp'',
     ''role'', ''slots'', ''primaryId'', ''state''})"

text \<open>A series whose metadata labels, as far as it has them, have the given values.\<close>

definition current :: "labels \<Rightarrow> string \<Rightarrow> labels \<Rightarrow> bool" where
  "current tags n l = (\<forall>k v. l k \<noteq> None \<and> tags k = Some v \<longrightarrow> l k = Some v \<or> own_label n k)"

lemma current_labels:
  assumes "\<And>k v. tags k = Some v \<Longrightarrow> m k = Some v \<or> own_label n k"
  shows "current tags n (labelsForKeys m ks)"
proof -
  have "labelsForKeys m ks k = Some v \<or> own_label n k" if "labelsForKeys m ks k \<noteq> None" "tags k = Some v" for k v
    using assms [OF that(2)] that(1) by (auto simp: labelsForKeys_def value_or_empty_def split: if_splits)
  then show ?thesis by (simp add: current_def)
qed

definition fixed :: "collector \<Rightarrow> string \<times> string \<times> go_map \<times> string list \<times> bool \<times> RuntimeConfig" where
  "fixed c = (co_cluster c, co_namespace c, co_labels c, co_labelKeys c, co_labelsLoaded c, run (co_world c))"

text \<open>What the collector asks for: the Secret, the pods, and queries and checks with the password.\<close>

definition collecting :: "string \<Rightarrow> event \<Rightarrow> bool" where
  "collecting pw e = (case e of
      Query a p q \<Rightarrow> p = pw
    | Cli args vars inp r \<Rightarrow> take 2 args = [''--cluster'', ''check''] \<and> vars = cli_auth pw
    | Read r \<Rightarrow> r = ListPods \<or> (\<exists>n. r = GetSecret n)
    | CheckContext \<Rightarrow> True
    | ChooseOrder \<Rightarrow> True
    | _ \<Rightarrow> False)"

definition pools_ok :: "collector \<Rightarrow> bool" where
  "pools_ok c = (cache_ok (co_world c) \<and> (\<forall>a p. entries (co_clients c) a = Some p \<longrightarrow> p = co_clientsPassword c))"

definition in_cycle :: "collector \<Rightarrow> string \<Rightarrow> collector \<Rightarrow> bool" where
  "in_cycle c0 pw c = (manager_ok (current (buildCommonMetadataTags c0)) (co_manager c) \<and> fixed c = fixed c0
     \<and> extends (collecting pw) (co_world c0) (co_world c) \<and> pools_ok c)"

lemma tags_fixed: "fixed c = fixed c' \<Longrightarrow> buildCommonMetadataTags c = buildCommonMetadataTags c'"
  by (simp add: fixed_def buildCommonMetadataTags_def)

lemma returns_each:
  "I c \<Longrightarrow> (\<And>x c. x \<in> set xs \<Longrightarrow> I c \<Longrightarrow> returns L I (f x c)) \<Longrightarrow> returns L I (each f xs c)"
proof (induction xs arbitrary: c)
  case (Cons x xs)
  show ?case unfolding each.simps
    by (rule returns_bind [where I = I]) (use Cons in auto)
qed (simp add: returns_Some)

lemma returns_on_manager:
  assumes "in_cycle c0 pw c"
    and "manager_ok (current (buildCommonMetadataTags c0)) (co_manager c) \<Longrightarrow>
      returns L (manager_ok (current (buildCommonMetadataTags c0))) (f (co_manager c))"
  shows "returns L (in_cycle c0 pw) (on_manager f c)"
proof -
  have "returns L (manager_ok (current (buildCommonMetadataTags c0))) (f (co_manager c))"
    using assms by (simp add: in_cycle_def)
  then show ?thesis unfolding on_manager_def
    by (rule returns_bind) (use assms(1) in \<open>simp add: in_cycle_def fixed_def pools_ok_def returns_Some\<close>)
qed

lemma returns_on_world:
  assumes "in_cycle c0 pw c" and "keeps (\<lambda>w. extends (collecting pw) (co_world c) w \<and> cache_ok w) (f (co_world c))"
  shows "returns L (\<lambda>(r, c). in_cycle c0 pw c) (on_world f c)"
proof -
  obtain r w where f: "f (co_world c) = Some (r, w)" "extends (collecting pw) (co_world c) w" "cache_ok w"
    using assms(2) by (auto simp: keeps_def)
  have "extends (collecting pw) (co_world c0) w" using extends_trans f(2) assms(1) by (auto simp: in_cycle_def)
  moreover have "run w = run (co_world c)" using f(2) by (simp add: extends_def)
  ultimately show ?thesis using assms(1) f(1,3)
    by (simp add: on_world_def returns_def in_cycle_def fixed_def pools_ok_def)
qed

lemma returns_order: "in_cycle c0 pw c \<Longrightarrow> returns L (\<lambda>(r, c). in_cycle c0 pw c) (on_world (map_order E xs) c)"
  by (rule returns_on_world)
    (auto simp: map_order_def keeps_def collecting_def in_cycle_def pools_ok_def cache_ok_def)

section \<open>Node metrics\<close>

lemma tagged_extra:
  assumes "\<And>k v. T k = Some v \<Longrightarrow> tags k = Some v \<or> own_label n k" and "\<And>k. k \<in> dom extra \<Longrightarrow> own_label n k"
  shows "current T n (labelsForKeys (tags ++ extra) ks)"
proof (rule current_labels)
  fix k v
  assume "T k = Some v"
  then show "(tags ++ extra) k = Some v \<or> own_label n k"
    using assms(1) [of k v] assms(2) [of k] by (cases "extra k") (auto simp: map_add_def)
qed

text \<open>A set of tags that extends the metadata only by labels of a metric's own.\<close>

definition extending :: "labels \<Rightarrow> labels \<Rightarrow> bool" where
  "extending T tags = (\<forall>k v. T k = Some v \<longrightarrow> tags k = Some v \<or> (\<forall>n. own_label n k))"

lemma extending_refl [simp]: "extending T T"
  by (simp add: extending_def)

lemma extending_upd: "extending T tags \<Longrightarrow> (\<And>n. own_label n k) \<Longrightarrow> extending T (tags(k \<mapsto> v))"
  by (auto simp: extending_def)

lemma own_fixed [simp]:
  "own_label n ''instanceId''" "own_label n ''database''" "own_label n ''cluster_state''" "own_label n ''nodeId''"
  "own_label n ''nodeIp''" "own_label n ''role''" "own_label n ''slots''" "own_label n ''primaryId''" "own_label n ''state''"
  by (simp_all add: own_label_def)

lemma update_current:
  assumes "extending T tags" and "\<And>k. k \<in> dom extra \<Longrightarrow> own_label (metricName name) k"
  shows "manager_ok (current T) m \<Longrightarrow> returns (accepting P) (manager_ok (current T)) (UpdateDynamicMetric P name tags extra v m)"
  by (erule update_ok, rule tagged_extra) (use assms in \<open>auto simp: extending_def\<close>)

lemma update_time_current:
  assumes "extending T tags"
  shows "manager_ok (current T) m \<Longrightarrow> returns (accepting P) (manager_ok (current T)) (UpdateDynamicMetricWithTime P name tags keys m)"
  by (erule update_time_ok, rule current_labels) (use assms in \<open>auto simp: extending_def\<close>)

lemma single_current:
  assumes "extending T tags" and "manager_ok (current T) m"
  shows "returns (accepting P) (manager_ok (current T)) (processSingleMetric P name v tags m)"
  unfolding processSingleMetric_def
  by (intro returns_option update_current assms) (auto simp: own_label_def)

lemma submetrics_current:
  assumes "extending T tags" and "manager_ok (current T) m"
  shows "returns (accepting P) (manager_ok (current T)) (processSubmetrics P name v tags m)"
  unfolding processSubmetrics_def
  by (rule returns_each, rule assms(2)) (auto intro!: returns_intro single_current assms(1) split: option.splits)

lemma info_current:
  assumes "extending T tags" and "manager_ok (current T) m"
  shows "returns (accepting P) (manager_ok (current T)) (info_metric P ks info tags key m)"
  unfolding info_metric_def Let_def
  by (intro returns_if returns_Some submetrics_current single_current assms)

lemma keyspace_current:
  assumes "extending T tags" and "manager_ok (current T) m"
  shows "returns (accepting P) (manager_ok (current T)) (keyspace_metric P spaces tags key m)"
  unfolding keyspace_metric_def
  by (rule returns_each, rule assms(2)) (auto intro!: returns_intro update_current assms(1) split: option.splits if_splits)

section \<open>A cycle\<close>

lemma in_cycle_tags: "in_cycle c0 pw c \<Longrightarrow> buildCommonMetadataTags c = buildCommonMetadataTags c0"
  by (rule tags_fixed) (simp add: in_cycle_def)

text \<open>The clients of the pool all use the password of the cycle.\<close>

definition in_pass :: "collector \<Rightarrow> string \<Rightarrow> collector \<Rightarrow> bool" where
  "in_pass c0 pw c = (in_cycle c0 pw c \<and> co_clientsPassword c = pw \<and> co_clients c \<noteq> None)"

lemma in_pass_cycle: "in_pass c0 pw c \<Longrightarrow> in_cycle c0 pw c"
  by (simp add: in_pass_def)

lemma pass_on_manager:
  assumes "in_pass c0 pw c"
    and "manager_ok (current (buildCommonMetadataTags c0)) (co_manager c) \<Longrightarrow>
      returns L (manager_ok (current (buildCommonMetadataTags c0))) (f (co_manager c))"
  shows "returns L (in_pass c0 pw) (on_manager f c)"
  using returns_on_manager [where f = f and L = L, OF in_pass_cycle [OF assms(1)] assms(2)] assms(1)
  by (auto simp: returns_def in_pass_def on_manager_def split: bind_splits)

lemma pass_on_world:
  assumes "in_pass c0 pw c" and "keeps (\<lambda>w. extends (collecting pw) (co_world c) w \<and> cache_ok w) (f (co_world c))"
  shows "returns L (\<lambda>(r, c). in_pass c0 pw c) (on_world f c)"
  using returns_on_world [where f = f and L = L, OF in_pass_cycle [OF assms(1)] assms(2)] assms(1)
  by (auto simp: returns_def in_pass_def on_world_def split: bind_splits)

lemma pass_order: "in_pass c0 pw c \<Longrightarrow> returns L (\<lambda>(r, c). in_pass c0 pw c) (on_world (map_order E xs) c)"
  by (rule pass_on_world)
    (auto simp: map_order_def keeps_def collecting_def in_pass_def in_cycle_def pools_ok_def cache_ok_def)

lemma pool_client:
  assumes "in_pass c0 pw c" and "poolGetOrCreateClient addr pw c = (rc, c')"
  shows "rc = (addr, pw) \<and> in_pass c0 pw c'"
  using assms
  by (auto simp: poolGetOrCreateClient_def in_pass_def in_cycle_def pools_ok_def fixed_def entries_def Let_def
      split: option.splits if_splits)

lemma pool_discard: "in_pass c0 pw c \<Longrightarrow> in_pass c0 pw (poolDiscardClient addr c)"
  by (auto simp: poolDiscardClient_def in_pass_def in_cycle_def pools_ok_def fixed_def entries_def
      split: option.splits if_splits)

lemma info_collecting:
  "in_pass c0 pw c \<Longrightarrow> returns L (\<lambda>(r, c). in_pass c0 pw c) (on_world (GetInfo E (addr, pw)) c)"
  by (rule pass_on_world)
    (auto simp: GetInfo_def info_section_def redis_query_def keeps_def collecting_def in_pass_def in_cycle_def pools_ok_def
      cache_ok_def split: sum.splits)

lemma node_tags_extending: "in_pass c0 pw c \<Longrightarrow> extending (buildCommonMetadataTags c0) (buildNodeTags name c)"
  unfolding buildNodeTags_def using in_cycle_tags in_pass_cycle by (metis extending_upd extending_refl own_fixed(1))

lemma collectNode_pass:
  assumes "in_pass c0 pw c"
  shows "returns (accepting P) (\<lambda>(r, c). in_pass c0 pw c) (collectNode E P pw ks n c)"
proof -
  obtain rc c1 where g: "poolGetOrCreateClient (ni_addr n) pw c = (rc, c1)" by fastforce
  note rc = pool_client [OF assms g]
  show ?thesis
    unfolding collectNode_def g prod.case Let_def conjunct1 [OF rc]
  proof (rule returns_bind [OF info_collecting [OF conjunct2 [OF rc]]], clarify)
    fix raw c2
    assume c2: "in_pass c0 pw c2"
    show "returns (accepting P) (\<lambda>(r, c). in_pass c0 pw c)
       (case raw of Inl e \<Rightarrow> Some (Some e, poolDiscardClient (ni_addr n) c2)
        | Inr raw \<Rightarrow>
            on_world (map_order E (sorted_keys (ParseInfoAll raw))) c2 \<bind>
            (\<lambda>(keys, c).
                on_manager (each (info_metric P ks (ParseInfoAll raw) (buildNodeTags (ni_name n) c2)) keys) c \<bind>
                (\<lambda>c. on_world (map_order E (sorted_keys (\<lambda>k. if prefix ''db'' k then ParseInfoAll raw k else None))) c \<bind>
                     (\<lambda>(dbs, c).
                         on_manager (each (keyspace_metric P (\<lambda>k. if prefix ''db'' k then ParseInfoAll raw k else None)
                             (buildNodeTags (ni_name n) c2)) dbs) c \<bind> (\<lambda>c. Some (None, c))))))"
    proof (cases raw)
      case (Inl e)
      then show ?thesis using c2 by (simp add: returns_Some pool_discard)
    next
      case (Inr t)
      note tags = node_tags_extending [OF c2, of "ni_name n"]
      show ?thesis
        unfolding Inr sum.case
        apply (rule returns_bind [OF pass_order [OF c2]], clarify)
        apply (rule returns_bind, erule pass_on_manager, erule returns_each, erule info_current [OF tags])
        apply (rule returns_bind, erule pass_order, clarify)
        apply (rule returns_bind, erule pass_on_manager, erule returns_each, erule keyspace_current [OF tags])
        apply (simp add: returns_Some)
        done
    qed
  qed
qed

lemma clusterInfo_pass:
  assumes "in_pass c0 pw c"
  shows "returns (accepting P) (in_pass c0 pw) (processClusterInfo E P info c)"
proof -
  note T = in_cycle_tags [OF in_pass_cycle [OF assms]]
  have ext: "extending (buildCommonMetadataTags c0) ((buildCommonMetadataTags c0)(''cluster_state'' \<mapsto> ci_State info))"
    by (simp add: extending_upd)
  show ?thesis
    unfolding processClusterInfo_def Let_def T
    apply (rule returns_bind [OF pass_order [OF assms]], clarify)
    apply (rule returns_bind, erule pass_on_manager, erule update_time_current [OF ext])
    apply (rule returns_bind, erule pass_order, clarify)
    apply (erule pass_on_manager, erule returns_each, rule returns_option, erule returns_Some)
    apply (erule update_current [OF extending_refl, rotated], simp)
    done
qed

lemma healthMetrics_pass:
  assumes "in_pass c0 pw c"
  shows "returns (accepting P) (in_pass c0 pw) (processClusterHealthMetrics P rep c)"
  unfolding processClusterHealthMetrics_def Let_def in_cycle_tags [OF in_pass_cycle [OF assms]]
  by (rule pass_on_manager [OF assms], erule returns_each)
    (auto intro: update_current [OF extending_refl, rotated])

lemma clusterNodes_pass:
  assumes c: "in_pass c0 pw c"
  shows "returns (accepting P) (in_pass c0 pw) (processClusterNodes E P nodes c)"
proof -
  have ext: "extending (buildCommonMetadataTags c0) ((buildCommonMetadataTags c0)(''nodeId'' \<mapsto> cn_ID n, ''nodeIp'' \<mapsto> cn_IP n,
      ''role'' \<mapsto> cn_Flags n, ''slots'' \<mapsto> cn_Slots n, ''primaryId'' \<mapsto> cn_Primary n, ''state'' \<mapsto> cn_State n))" for n
    by (intro extending_upd extending_refl own_fixed)
  have reset: "in_pass c0 pw (c\<lparr>co_manager := ResetMetricByName name (co_manager c), co_lastNodeIDs := ids\<rparr>)" for name ids
    using c by (auto simp: in_pass_def in_cycle_def fixed_def pools_ok_def ResetMetricByName_ok)
  show ?thesis
    unfolding processClusterNodes_def Let_def
  proof (rule returns_each)
    show "in_pass c0 pw (if co_lastNodeIDs c \<noteq> sort (map node_fingerprint nodes)
       then c\<lparr>co_manager := ResetMetricByName ''nodes_metrics'' (co_manager c),
              co_lastNodeIDs := sort (map node_fingerprint nodes)\<rparr> else c)"
      using c reset by simp
  next
    fix n c1
    assume c1: "in_pass c0 pw c1"
    show "returns (accepting P) (in_pass c0 pw)
       (on_world (map_order E (sorted_keys ((buildCommonMetadataTags c1)(''nodeId'' \<mapsto> cn_ID n, ''nodeIp'' \<mapsto> cn_IP n,
          ''role'' \<mapsto> cn_Flags n, ''slots'' \<mapsto> cn_Slots n, ''primaryId'' \<mapsto> cn_Primary n, ''state'' \<mapsto> cn_State n)))) c1 \<bind>
        (\<lambda>(labelKeys, c). on_manager (UpdateDynamicMetricWithTime P ''nodes_metrics''
          ((buildCommonMetadataTags c1)(''nodeId'' \<mapsto> cn_ID n, ''nodeIp'' \<mapsto> cn_IP n, ''role'' \<mapsto> cn_Flags n,
            ''slots'' \<mapsto> cn_Slots n, ''primaryId'' \<mapsto> cn_Primary n, ''state'' \<mapsto> cn_State n)) labelKeys) c))"
      unfolding in_cycle_tags [OF in_pass_cycle [OF c1]]
      by (rule returns_bind [OF pass_order [OF c1]], clarify) (erule pass_on_manager, erule update_time_current [OF ext])
  qed
qed

lemma keeps_Check_collecting:
  assumes "cache_ok s" and "nodes \<noteq> []"
  shows "keeps (\<lambda>w. extends (collecting pw) s w \<and> cache_ok w) (Check E nodes pw D R s)"
proof -
  have "keeps (extends observing s) (Check E nodes pw D R s)"
    by (rule keeps_Check) (simp_all add: observing_def)
  then obtain r w where w: "Check E nodes pw D R s = Some (r, w)" "extends observing s w" by (auto simp: keeps_def)
  have a: "extends (authenticated pw) s w" "cache_ok w"
    using keepsD [OF keeps_Check_inv [OF assms] w(1)] by (simp_all add: checker_inv_def)
  obtain es where es: "hist w = es @ hist s" "list_all observing es" using w(2) by (auto simp: extends_def grows_def)
  have "list_all (authenticated pw) es" using a(1) es(1) by (auto simp: extends_def grows_def)
  moreover have "collecting pw e" if "observing e" "authenticated pw e" for e
    using that by (cases e) (auto simp: observing_def authenticated_def collecting_def)
  ultimately have "extends (collecting pw) s w"
    using es w(2) by (auto simp: extends_def grows_def list_all_iff)
  then show ?thesis using w(1) a(2) by (simp add: keeps_def)
qed

lemma clusterMetrics_pass:
  assumes "in_pass c0 pw c"
  shows "returns (accepting P) (in_pass c0 pw) (collectClusterMetrics E P nodes pw c)"
proof (cases "nodes = []")
  case False
  then have "keeps (\<lambda>w. extends (collecting pw) (co_world c) w \<and> cache_ok w)
      (Check E (map (\<lambda>n. \<lparr>hn_Name = ni_name n, hn_Addr = ni_addr n\<rparr>) nodes) pw D R (co_world c))" for D R
    using assms by (intro keeps_Check_collecting) (simp_all add: in_pass_def in_cycle_def pools_ok_def)
  note check = pass_on_world [where f = "Check E (map (\<lambda>n. \<lparr>hn_Name = ni_name n, hn_Addr = ni_addr n\<rparr>) nodes) pw D R" for D R,
      OF assms this]
  show ?thesis
    unfolding collectClusterMetrics_def Let_def
    apply (simp only: False if_False)
    apply (rule returns_bind [OF check], clarify)
    apply (rule returns_bind, rule returns_option, erule returns_Some, erule clusterInfo_pass)
    apply (rule returns_bind, rule returns_if, erule returns_Some, erule clusterNodes_pass)
    apply (erule healthMetrics_pass)
    done
qed (use assms in \<open>simp add: collectClusterMetrics_def returns_Some\<close>)

section \<open>The start of a cycle\<close>

definition labels_of :: "collector \<Rightarrow> labels" where
  "labels_of c = [''cluster'' \<mapsto> co_cluster c, ''namespace'' \<mapsto> co_namespace c] ++ entries (co_labels c)"

text \<open>Between cycles: every series carries the metadata recorded with the label schema, which is the one
  the last cycle saw.\<close>

definition collector_ok :: "collector \<Rightarrow> bool" where
  "collector_ok c = (manager_ok (current (labels_of c)) (co_manager c) \<and> pools_ok c
     \<and> co_labelKeys c = sorted_keys (entries (co_labels c)) \<and> finite (dom (entries (co_labels c)))
     \<and> (\<not> co_labelsLoaded c \<longrightarrow> series (mm_calls (co_manager c)) = {}))"

lemma manager_ok_empty: "manager_ok G m \<Longrightarrow> series (mm_calls m) = {} \<Longrightarrow> manager_ok G' m"
  by (simp add: manager_ok_def)

lemma equalStringMaps_eq:
  assumes "finite (dom (entries a))" "finite (dom (entries b))" "sorted_keys (entries a) = sorted_keys (entries b)"
  shows "equalStringMaps a b \<longleftrightarrow> entries a = entries b"
proof
  assume eq: "equalStringMaps a b"
  have dom: "dom (entries a) = dom (entries b)" using assms by (metis set_sorted_keys)
  show "entries a = entries b"
  proof
    fix k
    show "entries a k = entries b k"
    proof (cases "k \<in> dom (entries a)")
      case True
      then have "value_or_empty (entries b) k = value_or_empty (entries a) k"
        using eq set_sorted_keys [OF assms(1)] by (auto simp: equalStringMaps_def list_all_iff)
      moreover have "k \<in> dom (entries b)" using True dom by simp
      ultimately show ?thesis using True by (auto simp: value_or_empty_def)
    next
      case False
      then have "k \<notin> dom (entries b)" using dom by simp
      with False show ?thesis by (simp add: domIff)
    qed
  qed
qed (simp add: equalStringMaps_def list_all_iff)

lemma adopt_ok:
  assumes "collector_ok c" and "finite (dom (entries (metricsLabels (run (co_world c)))))"
    and "\<And>G. manager_ok G (co_manager c')" and "series (mm_calls (co_manager c')) = {}"
    and "co_world c' = co_world c \<or> co_world c' = log ChooseOrder (co_world c)"
    and "co_labelsLoaded c'" and "co_labels c' = metricsLabels (run (co_world c))"
    and "co_labelKeys c' = sortedMetricsLabelKeys (metricsLabels (run (co_world c)))"
    and "co_cluster c' = co_cluster c" "co_namespace c' = co_namespace c" "co_clients c' = co_clients c"
      "co_clientsPassword c' = co_clientsPassword c"
  shows "collector_ok c' \<and> co_labelsLoaded c' \<and> labels_of c' = buildCommonMetadataTags c'
    \<and> (\<forall>pw. extends (collecting pw) (co_world c) (co_world c'))"
proof -
  have w: "run (co_world c') = run (co_world c)" "cache_ok (co_world c') = cache_ok (co_world c)"
      "extends (collecting pw) (co_world c) (co_world c')" for pw
    using assms(5) by (auto simp: cache_ok_def collecting_def)
  have "pools_ok c'" using w(2) assms(1,11,12) by (simp add: pools_ok_def collector_ok_def)
  then show ?thesis using assms(2-4,6-10) w
    by (simp add: collector_ok_def labels_of_def buildCommonMetadataTags_def sortedMetricsLabelKeys_def)
qed

lemma schema_ok:
  assumes c: "collector_ok c" and fin: "finite (dom (entries (metricsLabels (run (co_world c)))))"
  shows "\<exists>c'. reconcileMetricsLabelSchema E P c = Some c' \<and> collector_ok c' \<and> co_labelsLoaded c'
    \<and> labels_of c' = buildCommonMetadataTags c' \<and> (\<forall>pw. extends (collecting pw) (co_world c) (co_world c'))"
proof -
  let ?labels = "metricsLabels (run (co_world c))"
  have m: "manager_ok (current (labels_of c)) (co_manager c)" using c by (simp add: collector_ok_def)
  obtain m1 w1 where r: "ResetMetrics E (co_manager c) (co_world c) = Some (m1, w1)"
    and w1: "w1 = co_world c \<or> w1 = log ChooseOrder (co_world c)"
    and m1: "\<And>G. manager_ok G m1" "series (mm_calls m1) = {}"
    using ResetMetrics_ok [OF m] by (metis manager_ok_empty)
  note adopt = adopt_ok [OF c fin]
  note defs = reconcileMetricsLabelSchema_def on_world_def Let_def
  consider (fresh) "\<not> co_labelsLoaded c"
    | (keys) "co_labelsLoaded c" "co_labelKeys c \<noteq> sortedMetricsLabelKeys ?labels"
    | (vals) "co_labelsLoaded c" "co_labelKeys c = sortedMetricsLabelKeys ?labels" "\<not> equalStringMaps (co_labels c) ?labels"
    | (same) "co_labelsLoaded c" "co_labelKeys c = sortedMetricsLabelKeys ?labels" "equalStringMaps (co_labels c) ?labels"
    by blast
  then show ?thesis
  proof cases
    case fresh
    let ?c = "c\<lparr>co_labelsLoaded := True, co_labels := ?labels, co_labelKeys := sortedMetricsLabelKeys ?labels\<rparr>"
    have "\<And>G. manager_ok G (co_manager c)" "series (mm_calls (co_manager c)) = {}"
      using c manager_ok_empty [OF m] fresh by (simp_all add: collector_ok_def)
    then have "collector_ok ?c \<and> co_labelsLoaded ?c \<and> labels_of ?c = buildCommonMetadataTags ?c
        \<and> (\<forall>pw. extends (collecting pw) (co_world c) (co_world ?c))" by (intro adopt) simp_all
    moreover have "reconcileMetricsLabelSchema E P c = Some ?c" using fresh by (simp add: defs)
    ultimately show ?thesis by blast
  next
    case keys
    have "\<exists>m2 w2. reconcileMetricsLabelSchema E P c = Some (c\<lparr>co_world := w2, co_manager := m2, co_labels := ?labels,
           co_labelKeys := sortedMetricsLabelKeys ?labels\<rparr>)
        \<and> (w2 = co_world c \<or> w2 = log ChooseOrder (co_world c)) \<and> (\<forall>G. manager_ok G m2) \<and> series (mm_calls m2) = {}"
    proof (cases "pm_resettable P")
      case True
      then obtain m2 where m2: "ResetRegistry P (co_manager c) = (True, m2)" by (simp add: ResetRegistry_def)
      from ResetRegistry_ok [OF m this] have "\<And>G. manager_ok G m2" "series (mm_calls m2) = {}"
        using manager_ok_empty by blast+
      with keys m2 show ?thesis by (intro exI [of _ m2] exI [of _ "co_world c"]) (simp add: defs)
    next
      case False
      then have "ResetRegistry P (co_manager c) = (False, co_manager c)" by (simp add: ResetRegistry_def)
      with m1 w1 keys r show ?thesis by (intro exI [of _ m1] exI [of _ w1]) (simp add: defs)
    qed
    then obtain m2 w2 where rec: "reconcileMetricsLabelSchema E P c = Some (c\<lparr>co_world := w2, co_manager := m2,
        co_labels := ?labels, co_labelKeys := sortedMetricsLabelKeys ?labels\<rparr>)"
      and w2: "w2 = co_world c \<or> w2 = log ChooseOrder (co_world c)"
      and m2: "\<And>G. manager_ok G m2" "series (mm_calls m2) = {}" by blast
    show ?thesis unfolding rec by (rule exI, rule conjI [OF refl], rule adopt) (simp_all add: m2 w2 keys)
  next
    case vals
    then have rec: "reconcileMetricsLabelSchema E P c = Some (c\<lparr>co_world := w1, co_manager := m1, co_labels := ?labels\<rparr>)"
      using r by (simp add: defs)
    show ?thesis unfolding rec by (rule exI, rule conjI [OF refl], rule adopt) (simp_all add: m1 w1 vals)
  next
    case same
    have "co_labelKeys c = sorted_keys (entries (co_labels c))" and fin': "finite (dom (entries (co_labels c)))"
      using c by (simp_all add: collector_ok_def)
    then have "sorted_keys (entries (co_labels c)) = sorted_keys (entries ?labels)"
      using same(2) unfolding sortedMetricsLabelKeys_def by metis
    then have "entries (co_labels c) = entries ?labels" using equalStringMaps_eq [OF fin' fin] same(3) by blast
    then have "labels_of c = buildCommonMetadataTags c" by (simp add: labels_of_def buildCommonMetadataTags_def)
    moreover have "reconcileMetricsLabelSchema E P c = Some c" using same by (simp add: reconcileMetricsLabelSchema_def Let_def)
    ultimately show ?thesis using same(1) c by simp
  qed
qed

definition keeps_cycle :: "collector \<Rightarrow> collector \<Rightarrow> bool" where
  "keeps_cycle c0 c = (co_manager c = co_manager c0 \<and> fixed c = fixed c0 \<and> co_clients c = co_clients c0
     \<and> co_clientsPassword c = co_clientsPassword c0 \<and> (\<forall>pw. extends (collecting pw) (co_world c0) (co_world c))
     \<and> hc_clients (co_world c) = hc_clients (co_world c0) \<and> hc_clientsPassword (co_world c) = hc_clientsPassword (co_world c0))"

lemma password_cycle: "returns True (\<lambda>(r, c'). keeps_cycle c c') (collector_getPassword E c)"
  by (auto simp: collector_getPassword_def returns_def keeps_cycle_def fixed_def on_world_def k8s_get_def collecting_def Let_def
      split: sum.splits option.splits)

lemma nodes_cycle: "returns True (\<lambda>(r, c'). keeps_cycle c c') (discoverNodes E c)"
  by (auto simp: discoverNodes_def returns_def keeps_cycle_def fixed_def on_world_def k8s_get_def collecting_def Let_def
      split: sum.splits option.splits)

lemma pool_pass:
  assumes "pools_ok c" and "manager_ok (current (buildCommonMetadataTags c0)) (co_manager c)" and "fixed c = fixed c0"
    and "extends (collecting pw) (co_world c0) (co_world c)"
  shows "in_pass c0 pw (reconcileClientPool nodes pw c)"
  using assms
  by (auto simp: in_pass_def in_cycle_def reconcileClientPool_def pools_ok_def fixed_def closeAllClients_def entries_def
      restrict_map_def split: option.splits if_splits)

lemma returns_weaken: "returns L I x \<Longrightarrow> (L' \<Longrightarrow> L) \<Longrightarrow> (\<And>y. I y \<Longrightarrow> J y) \<Longrightarrow> returns L' J x"
  by (auto simp: returns_def)

text \<open>The outcome of a cycle: what holds between cycles, and the password everything was asked with.\<close>

definition cycle_done :: "collector \<Rightarrow> collector \<Rightarrow> bool" where
  "cycle_done c c' = (collector_ok c' \<and> labels_of c' = buildCommonMetadataTags c' \<and> run (co_world c') = run (co_world c)
     \<and> (\<exists>pw. extends (collecting pw) (co_world c) (co_world c')))"

lemma collect_ok:
  assumes c: "collector_ok c" and fin: "finite (dom (entries (metricsLabels (run (co_world c)))))"
  shows "returns (accepting P) (cycle_done c) (collect E P c)"
proof -
  obtain c1 where c1: "reconcileMetricsLabelSchema E P c = Some c1" "collector_ok c1" "co_labelsLoaded c1"
      "labels_of c1 = buildCommonMetadataTags c1" "\<And>pw. extends (collecting pw) (co_world c) (co_world c1)"
    using schema_ok [OF c fin] by (metis option.inject)
  have quick: "cycle_done c c2" if "keeps_cycle c1 c2" for c2
  proof -
    have "extends (collecting pw) (co_world c) (co_world c2)" for pw
      using that extends_trans [OF c1(5)] by (simp add: keeps_cycle_def)
    moreover have "labels_of c2 = labels_of c1" "buildCommonMetadataTags c2 = buildCommonMetadataTags c1"
      using that by (auto simp: keeps_cycle_def fixed_def labels_of_def buildCommonMetadataTags_def)
    ultimately show ?thesis using c1(2-4) that
      by (auto simp: cycle_done_def keeps_cycle_def collector_ok_def pools_ok_def cache_ok_def fixed_def extends_def)
  qed
  have full: "cycle_done c c2" if "in_pass c1 pw c2" for pw c2
  proof -
    have "extends (collecting pw) (co_world c) (co_world c2)"
      using that extends_trans [OF c1(5)] by (simp add: in_pass_def in_cycle_def)
    moreover have "labels_of c2 = labels_of c1" "buildCommonMetadataTags c2 = buildCommonMetadataTags c1"
      using that by (auto simp: in_pass_def in_cycle_def fixed_def labels_of_def buildCommonMetadataTags_def)
    ultimately show ?thesis using c1(2-4) that
      by (auto simp: cycle_done_def in_pass_def in_cycle_def collector_ok_def fixed_def extends_def)
  qed
  have pass: "in_pass c1 pw (reconcileClientPool nodes pw c2)" if "keeps_cycle c1 c2" for c2 nodes pw
    using that c1(2,4) by (intro pool_pass) (auto simp: keeps_cycle_def collector_ok_def pools_ok_def cache_ok_def)
  have trans: "keeps_cycle c1 c3" if "keeps_cycle c1 c2" "keeps_cycle c2 c3" for c2 c3
    using that extends_trans unfolding keeps_cycle_def by metis
  show ?thesis
    unfolding collect_def c1(1) Option.bind.simps Let_def
  proof (rule returns_bind [OF returns_weaken [OF password_cycle]], simp, assumption, clarify)
    fix r c2
    assume c2: "keeps_cycle c1 c2"
    show "returns (accepting P) (cycle_done c)
       (case r of Inl e \<Rightarrow> Some c2
        | Inr password \<Rightarrow> discoverNodes E c2 \<bind> (\<lambda>(nodes, c).
            if nodes = [] then Some c
            else (if redisInfoKeys (run (co_world c1)) = [] then Some (reconcileClientPool nodes password c)
                  else each (\<lambda>n c. map_option snd (collectNode E P password (redisInfoKeys (run (co_world c1))) n c)) nodes
                         (reconcileClientPool nodes password c)) \<bind>
                 (\<lambda>c. if standalone (run (co_world c)) then Some c else collectClusterMetrics E P nodes password c)))"
    proof (cases r)
      case (Inl e)
      then show ?thesis by (simp add: returns_Some quick [OF c2])
    next
      case (Inr password)
      have node: "returns (accepting P) (in_pass c1 password) (map_option snd (collectNode E P password ks n c))"
        if "in_pass c1 password c" for ks n c
        using collectNode_pass [OF that, of P E ks n] by (auto simp: returns_def)
      show ?thesis
        unfolding Inr sum.case
        apply (rule returns_bind [OF returns_weaken [OF nodes_cycle]], simp, assumption, clarify)
        apply (rule returns_if, rule returns_Some, rule quick, erule trans [OF c2])
        apply (rule returns_bind, rule returns_if, rule returns_Some, rule pass, erule trans [OF c2])
         apply (rule returns_each, rule pass, erule trans [OF c2], erule node)
        apply (rule returns_if, rule returns_Some, erule full)
        apply (rule returns_mono, erule clusterMetrics_pass, erule full)
        done
    qed
  qed
qed

section \<open>Every cycle\<close>

lemma new_collector_ok: "collector_ok (NewCollector cluster ns w)"
  by (auto simp: collector_ok_def NewCollector_def NewMetricsManager_ok pools_ok_def cache_ok_def entries_def sorted_keys_def
      NewMetricsManager_def manager_ok_def)

lemma loop_ok:
  assumes "collector_ok c" and "\<forall>rc\<in>set rcs. finite (dom (entries (metricsLabels rc)))"
  shows "returns (accepting P) collector_ok (collector_loop E P rcs c)"
  using assms
proof (induction rcs arbitrary: c)
  case (Cons rc rcs)
  obtain ended w where sl: "sleep E (metricsInterval (run (co_world c))) (co_world c) = Some (ended, w)" and w: "cache_ok w \<longleftrightarrow> cache_ok (co_world c)"
    by (simp add: sleep_def cache_ok_def)
  let ?c = "c\<lparr>co_world := w\<rparr>"
  have c1: "collector_ok ?c" using Cons.prems(1) w by (simp add: collector_ok_def labels_of_def pools_ok_def)
  then have run: "collector_ok (set_run rc ?c)" by (simp add: collector_ok_def labels_of_def pools_ok_def set_run_def cache_ok_def)
  have closed: "collector_ok (closeAllClients ?c)"
    using c1 by (simp add: collector_ok_def labels_of_def pools_ok_def closeAllClients_def entries_def)
  have fin: "finite (dom (entries (metricsLabels (run (co_world (set_run rc ?c))))))" using Cons.prems(2) by (simp add: set_run_def)
  have "returns (accepting P) collector_ok (collect E P (set_run rc ?c) \<bind> collector_loop E P rcs)"
    by (rule returns_bind [OF collect_ok [OF run fin]], rule Cons.IH) (use Cons.prems(2) in \<open>auto simp: cycle_done_def\<close>)
  then show ?case using closed by (simp add: on_world_def sl returns_Some)
qed (simp add: returns_Some)

text \<open>A run: a library that accepts everything, one pod whose server does not answer, and a metadata label.\<close>

definition lenient :: prometheus where
  "lenient = \<lparr>pm_registers = (\<lambda>cs n h ks. True), pm_has_series = (\<lambda>cs n l. True), pm_resettable = True\<rparr>"

definition watched_rc :: RuntimeConfig where
  "watched_rc = NewRuntimeConfig\<lparr>redisInfoKeys := [], metricsLabels := Some [''team'' \<mapsto> ''a''],
     topology_of := \<lparr>tp_Primaries = 1, tp_ReplicasPerPrimary = 0\<rparr>\<rparr>"

definition watched_env :: env where
  "watched_env = calm_env\<lparr>e_query := (\<lambda>h a p q. Inl ''down''),
     e_list_pods := (\<lambda>h. Inr [\<lparr>po_Name = ''redkey-0'', po_PodIP = ''10.0.0.1'', po_PodLabels = None, po_Ready = True,
                              po_Images = []\<rparr>])\<rparr>"

definition watcher :: collector where
  "watcher = NewCollector ''redkey'' ''cache'' start_st"

lemma accepting_lenient: "accepting lenient"
  by (simp add: accepting_def lenient_def)

lemma watched_fin: "\<forall>rc\<in>set [] \<union> {watched_rc}. finite (dom (entries (metricsLabels rc)))"
  by (simp add: watched_rc_def entries_def)

lemma update_series:
  assumes "UpdateDynamicMetric lenient name tags extra v m = Some m'"
  shows "series (mm_calls m) \<subseteq> series (mm_calls m') \<and> (mm_metrics m (metricName name) = None \<longrightarrow>
    (metricName name, labelsForKeys (tags ++ extra) (sorted_keys (tags ++ extra))) \<in> series (mm_calls m'))"
  using assms
  by (auto simp: UpdateDynamicMetric_def mergeLabels_def find_or_register_def set_series_def lenient_def call_def Let_def
      split: option.splits)

lemma updates_series:
  "each (\<lambda>(name, f). UpdateDynamicMetric lenient name tags Map.empty f) ms m = Some m' \<Longrightarrow> series (mm_calls m) \<subseteq> series (mm_calls m')"
proof (induction ms arbitrary: m)
  case (Cons x ms)
  then show ?case using update_series by (cases x) (auto split: bind_splits, blast)
qed simp

lemma updates_first:
  "each (\<lambda>(name, f). UpdateDynamicMetric lenient name tags Map.empty f) ((n0, f0) # ms) m = Some m' \<Longrightarrow>
   mm_metrics m (metricName n0) = None \<Longrightarrow> (metricName n0, labelsForKeys tags (sorted_keys tags)) \<in> series (mm_calls m')"
proof -
  assume n: "mm_metrics m (metricName n0) = None"
  assume "each (\<lambda>(name, f). UpdateDynamicMetric lenient name tags Map.empty f) ((n0, f0) # ms) m = Some m'"
  then obtain m1 where m1: "UpdateDynamicMetric lenient n0 tags Map.empty f0 m = Some m1"
    and rest: "each (\<lambda>(name, f). UpdateDynamicMetric lenient name tags Map.empty f) ms m1 = Some m'"
    by (auto split: bind_splits)
  show ?thesis using update_series [OF m1] updates_series [OF rest] n by auto
qed

lemma watched_check:
  "\<exists>w'. Check watched_env [\<lparr>hn_Name = ''redkey-0'', hn_Addr = a\<rparr>] pw D R w = Some ((empty_report, Some e), w')
    \<and> run w' = run w" if "e = wrap (''CLUSTER INFO on '' @ a) ''down''"
proof -
  obtain pw' w1 where g: "getOrCreateClient a pw (reconcileClients [\<lparr>hn_Name = ''redkey-0'', hn_Addr = a\<rparr>] pw w) = ((a, pw'), w1)"
    and w1: "run w1 = run w"
    by (cases "hc_clients (reconcileClients [\<lparr>hn_Name = ''redkey-0'', hn_Addr = a\<rparr>] pw w) a")
      (auto simp: getOrCreateClient_def reconcileClients_def CloseAll_def)
  show ?thesis
    by (simp add: Check_def selectSeed_def probeNode_def g GetClusterInfo_def redis_query_def watched_env_def Let_def w1
        discardClient_def that)
qed

lemma watched_run:
  "\<exists>c l. collect watched_env lenient (set_run watched_rc watcher) = Some c \<and> co_cluster c = ''redkey'' \<and> co_namespace c = ''cache''
    \<and> (metricName ''cluster_membership_ok'', l) \<in> series (mm_calls (co_manager c)) \<and> l ''team'' = Some ''a''"
proof -
  have "collector_ok (set_run watched_rc watcher)"
    using new_collector_ok [of "''redkey''" "''cache''" start_st]
    by (simp add: watcher_def collector_ok_def labels_of_def pools_ok_def set_run_def cache_ok_def)
  from collect_ok [OF this, of lenient watched_env] obtain c where
    c: "collect watched_env lenient (set_run watched_rc watcher) = Some c"
    using watched_fin accepting_lenient by (auto simp: returns_def set_run_def)
  let ?node = "\<lparr>hn_Name = ''redkey-0'', hn_Addr = ''10.0.0.1:'' @ Itoa DefaultPort\<rparr>"
  obtain f where f: "\<And>w. Check watched_env [?node] [] 1 0 w
      = Some ((empty_report, Some (wrap (''CLUSTER INFO on '' @ hn_Addr ?node) ''down'')), f w) \<and> run (f w) = run w"
    using watched_check [OF refl, of "hn_Addr ?node" "[]" 1 0] by (simp, metis)
  have empty: "rp_ClusterInfo empty_report = None" "rp_ClusterNodes empty_report = []" "rp_MembershipOK empty_report = False"
    by (simp_all add: empty_report_def)
  have pods: "e_list_pods watched_env h = Inr [\<lparr>po_Name = ''redkey-0'', po_PodIP = ''10.0.0.1'', po_PodLabels = None, po_Ready = True,
                              po_Images = []\<rparr>]" for h by (simp add: watched_env_def)
  let ?tags = "[''cluster'' \<mapsto> ''redkey'', ''namespace'' \<mapsto> ''cache''] ++ [''team'' \<mapsto> ''a'']"
  have "\<exists>c1. collect watched_env lenient (set_run watched_rc watcher) = processClusterHealthMetrics lenient empty_report c1
      \<and> co_manager c1 = NewMetricsManager \<and> buildCommonMetadataTags c1 = ?tags \<and> co_cluster c1 = ''redkey'' \<and> co_namespace c1 = ''cache''"
    apply (simp add: collect_def reconcileMetricsLabelSchema_def watcher_def NewCollector_def set_run_def watched_rc_def
        collector_getPassword_def NewRuntimeConfig_def NewRuntimeConfigWithReconcilerIntervals_def discoverNodes_def on_world_def
        k8s_get_def pods reconcileClientPool_def collectClusterMetrics_def f [simplified] Let_def empty)
    apply (rule exI, rule conjI, rule refl)
    apply (simp add: buildCommonMetadataTags_def f entries_def)
    done
  then obtain c1 where c1: "processClusterHealthMetrics lenient empty_report c1 = Some c" "co_manager c1 = NewMetricsManager"
    "buildCommonMetadataTags c1 = ?tags" "co_cluster c1 = ''redkey''" "co_namespace c1 = ''cache''" using c by auto
  obtain ms m2 where m2: "each (\<lambda>(name, f). UpdateDynamicMetric lenient name ?tags Map.empty f)
        ((''cluster_membership_ok'', boolToFloat False) # ms) NewMetricsManager = Some m2" and c2: "c = c1\<lparr>co_manager := m2\<rparr>"
    using c1(1) unfolding processClusterHealthMetrics_def on_manager_def c1(2,3) Let_def
    by (auto simp: empty simp del: each.simps split: bind_splits)
  have "(metricName ''cluster_membership_ok'', labelsForKeys ?tags (sorted_keys ?tags)) \<in> series (mm_calls (co_manager c))"
    using updates_first [OF m2] by (simp add: c2 NewMetricsManager_def)
  moreover have team: "labelsForKeys ?tags (sorted_keys ?tags) ''team'' = Some ''a''"
    by (simp add: labelsForKeys_def set_sorted_keys value_or_empty_def)
  ultimately have "collect watched_env lenient (set_run watched_rc watcher) = Some c \<and> co_cluster c = ''redkey'' \<and> co_namespace c = ''cache''
    \<and> (metricName ''cluster_membership_ok'', labelsForKeys ?tags (sorted_keys ?tags)) \<in> series (mm_calls (co_manager c))
    \<and> labelsForKeys ?tags (sorted_keys ?tags) ''team'' = Some ''a''" using c c1(4,5) c2 by simp
  then show ?thesis by blast
qed

lemma cycle_after_loop:
  assumes "collector_loop E P rcs (NewCollector cluster ns w) = Some c0" and "collect E P (set_run rc c0) = Some c"
    and "\<forall>rc\<in>set rcs \<union> {rc}. finite (dom (entries (metricsLabels rc)))"
  shows "cycle_done (set_run rc c0) c"
proof -
  have "collector_ok c0" using loop_ok [OF new_collector_ok, of rcs P E cluster ns w] assms(1,3) by (simp add: returns_def)
  then have "collector_ok (set_run rc c0)" by (simp add: collector_ok_def labels_of_def pools_ok_def set_run_def cache_ok_def)
  from collect_ok [OF this, of P E] assms(2,3) show ?thesis by (simp add: returns_def set_run_def)
qed





text \<open>C13: collecting only observes, with one password: between two moments of the loop, a cycle reads the
  Secret, lists the pods, and otherwise only queries the servers and runs \<open>redis-cli --cluster check\<close>, all of
  it authenticated with one and the same password; it sends no command and writes nothing to Kubernetes.\<close>

theorem collect_only_observes:
  assumes "collector_loop E P rcs (NewCollector cluster ns w) = Some c0" and "collect E P (set_run rc c0) = Some c"
    and "\<forall>rc\<in>set rcs \<union> {rc}. finite (dom (entries (metricsLabels rc)))"
  shows "\<exists>pw. extends (collecting pw) (co_world (set_run rc c0)) (co_world c)"
  using cycle_after_loop [OF assms] by (simp add: cycle_done_def)

lemma collect_only_observes_witness:
  "\<exists>c pw. collect watched_env lenient (set_run watched_rc watcher) = Some c
    \<and> extends (collecting pw) (co_world (set_run watched_rc watcher)) (co_world c)"
proof -
  obtain c where r: "collect watched_env lenient (set_run watched_rc watcher) = Some c" using watched_run by blast
  have "collector_loop watched_env lenient [] (NewCollector ''redkey'' ''cache'' start_st) = Some watcher"
    by (simp add: watcher_def)
  from collect_only_observes [OF this r watched_fin] show ?thesis using r by blast
qed

section \<open>The password is read once\<close>

text \<open>C15: the collector does not notice a rotated password: once it has one, every later read for a secret of
  the same name answers from its cache, whatever the Secret holds by then (\<open>E'\<close> is any later
  environment, \<open>d\<close> any later state with these cached fields), and the API is not asked.\<close>

theorem collector_password_is_stale:
  assumes "collector_getPassword E c = Some (Inr pw, c')"
    and "co_cachedPassword d = co_cachedPassword c'" and "co_cachedAuthSecret d = co_cachedAuthSecret c'"
    and "co_passwordLoaded d = co_passwordLoaded c'"
    and "authSecret (run (co_world d)) = authSecret (run (co_world c))"
  shows "collector_getPassword E' d = Some (Inr pw, d)"
proof -
  have "co_passwordLoaded c' \<and> co_cachedPassword c' = pw \<and> co_cachedAuthSecret c' = authSecret (run (co_world c))"
    using assms(1)
    by (auto simp: collector_getPassword_def on_world_def k8s_get_def Let_def split: if_splits sum.splits option.splits)
  then show ?thesis using assms(2-5) by (simp add: collector_getPassword_def Let_def)
qed

definition secret_env :: "string \<Rightarrow> env" where
  "secret_env pw = calm_env\<lparr>e_get_secret := (\<lambda>h n. Inr \<lparr>sd_Data = [SecretPasswordKey \<mapsto> pw]\<rparr>)\<rparr>"

definition secured :: collector where
  "secured = set_run (SetAuthSecret ''auth'' NewRuntimeConfig) watcher"

lemma collector_password_is_stale_witness:
  "\<exists>c. collector_getPassword (secret_env ''old'') secured = Some (Inr ''old'', c)
    \<and> collector_getPassword (secret_env ''new'') c = Some (Inr ''old'', c)"
proof -
  obtain c where c: "collector_getPassword (secret_env ''old'') secured = Some (Inr ''old'', c)"
    and a: "authSecret (run (co_world c)) = authSecret (run (co_world secured))"
    by (simp add: collector_getPassword_def secured_def watcher_def NewCollector_def set_run_def SetAuthSecret_def on_world_def
        k8s_get_def secret_env_def Let_def)
  from collector_password_is_stale [OF c refl refl refl a] c show ?thesis by blast
qed

end
