(* ===== verification/Server.thy ===== *)
theory Server
  imports Runtime_Config Redis_Slots
begin

text \<open>
  The HTTP server of \<open>metrics/server.go\<close>: the page of Prometheus, and the profiling pages behind a guard that
  reads the shared runtime configuration on every request. Of Go's \<open>net/http\<close> the part the server uses is
  modelled: \<open>ServeMux\<close> on patterns without method, host or wildcard, with its cleaning of paths and its
  redirections. What the pages show is the libraries' and stays abstract: a page is named, not computed.
\<close>

section \<open>Routing\<close>

text \<open>\<open>path.Clean\<close> of a path that starts with a slash: the segments kept so far, the last one first.\<close>

fun clean_segments :: "string list \<Rightarrow> string list \<Rightarrow> string list" where
  "clean_segments kept [] = List.rev kept"
| "clean_segments kept (seg # segs) =
     (if seg = [] \<or> seg = ''.'' then clean_segments kept segs
      else if seg = ''..'' then clean_segments (tl kept) segs
      else clean_segments (seg # kept) segs)"

definition Clean :: "string \<Rightarrow> string" where
  "Clean p = ''/'' @ Join (clean_segments [] (Split (CHR ''/'') p)) ''/''"

definition cleanPath :: "string \<Rightarrow> string" where
  "cleanPath p =
     (if p = [] then ''/''
      else let p = (if hd p \<noteq> CHR ''/'' then ''/'' @ p else p); np = Clean p
           in if last p = CHR ''/'' \<and> np \<noteq> ''/'' then np @ ''/'' else np)"

definition matches :: "string \<Rightarrow> string \<Rightarrow> bool" where
  "matches pattern path = (pattern = path \<or> suffix ''/'' pattern \<and> HasPrefix path pattern)"

text \<open>The most specific pattern is the longest one.\<close>

fun mux_match :: "(string \<times> 'h) list \<Rightarrow> string \<Rightarrow> (string \<times> 'h) option" where
  "mux_match [] path = None"
| "mux_match ((pattern, h) # ps) path =
     (case mux_match ps path of
        Some (p, g) \<Rightarrow> if matches pattern path \<and> length p < length pattern then Some (pattern, h) else Some (p, g)
      | None \<Rightarrow> if matches pattern path then Some (pattern, h) else None)"

datatype 'h routed = Handle 'h | MovedTo string | NoPattern

text \<open>A tree asked for without its last slash, and a path that is not clean, are redirected. A CONNECT
  request is not cleaned.\<close>

definition mux_route :: "(string \<times> 'h) list \<Rightarrow> bool \<Rightarrow> string \<Rightarrow> 'h routed" where
  "mux_route ps connect asked =
     (let path = (if connect then asked else cleanPath asked); found = mux_match ps path
      in if map_option fst found \<noteq> Some path \<and> \<not> suffix ''/'' path
           \<and> map_option fst (mux_match ps (path @ ''/'')) = Some (path @ ''/'') then MovedTo (cleanPath path @ ''/'')
         else if path \<noteq> asked then MovedTo path
         else case found of Some (p, h) \<Rightarrow> Handle h | None \<Rightarrow> NoPattern)"

section \<open>The server\<close>

datatype page = MetricsPage | PprofIndex | PprofCmdline | PprofProfile | PprofSymbol | PprofTrace

datatype response = Page page string | Redirect string | NotFound

text \<open>The configuration is shared with the rest of the process: a request finds it as it is then.\<close>

record 'g server =
  sv_bindAddr :: string
  sv_gatherer :: 'g
  sv_runtimeConfig :: RuntimeConfig

definition NewServer :: "'g \<Rightarrow> string \<Rightarrow> 'g option \<Rightarrow> RuntimeConfig option \<Rightarrow> 'g server" where
  "NewServer default_gatherer bindAddr gatherer rc =
     \<lparr>sv_bindAddr = bindAddr, sv_gatherer = (case gatherer of None \<Rightarrow> default_gatherer | Some g \<Rightarrow> g),
      sv_runtimeConfig = (case rc of None \<Rightarrow> NewRuntimeConfig | Some c \<Rightarrow> c)\<rparr>"

definition ProfilingEnabled :: "RuntimeConfig \<Rightarrow> bool" where
  "ProfilingEnabled rc = profilingEnabled rc"

definition SetProfilingEnabled :: "bool \<Rightarrow> RuntimeConfig \<Rightarrow> RuntimeConfig" where
  "SetProfilingEnabled enabled rc = rc\<lparr>profilingEnabled := enabled\<rparr>"

definition pprofGuard :: "(string \<Rightarrow> response) \<Rightarrow> 'g server \<Rightarrow> string \<Rightarrow> response" where
  "pprofGuard handler sv path = (if \<not> ProfilingEnabled (sv_runtimeConfig sv) then NotFound else handler path)"

definition server_routes :: "(string \<times> ('g server \<Rightarrow> string \<Rightarrow> response)) list" where
  "server_routes =
     [(''/metrics'', \<lambda>sv. Page MetricsPage),
      (''/debug/pprof/'', pprofGuard (Page PprofIndex)),
      (''/debug/pprof/cmdline'', pprofGuard (Page PprofCmdline)),
      (''/debug/pprof/profile'', pprofGuard (Page PprofProfile)),
      (''/debug/pprof/symbol'', pprofGuard (Page PprofSymbol)),
      (''/debug/pprof/trace'', pprofGuard (Page PprofTrace))]"

definition ServeHTTP :: "'g server \<Rightarrow> bool \<Rightarrow> string \<Rightarrow> response" where
  "ServeHTTP sv connect path =
     (case mux_route server_routes connect path of
        Handle h \<Rightarrow> h sv path
      | MovedTo p \<Rightarrow> Redirect p
      | NoPattern \<Rightarrow> NotFound)"

text \<open>\<open>Server.Start\<close> waits for the first of two things: the end of the context, and an error of
  \<open>ListenAndServe\<close> other than \<open>ErrServerClosed\<close>. It returns the error of the shutdown or of the listener.\<close>

datatype server_event = ContextDone "err option" | ServerClosed | ListenFailed err

fun ServerStart :: "server_event list \<Rightarrow> err option option" where
  "ServerStart [] = None"
| "ServerStart (ContextDone e # es) = Some e"
| "ServerStart (ListenFailed e # es) = Some (Some e)"
| "ServerStart (ServerClosed # es) = ServerStart es"

section \<open>What is served\<close>

lemma mux_match_mem: "mux_match ps path = Some (p, h) \<Longrightarrow> (p, h) \<in> set ps \<and> matches p path"
  by (induction ps path arbitrary: p h rule: mux_match.induct) (auto split: option.splits if_splits)

lemma mux_match_longest:
  "mux_match ps path = Some (p, h) \<Longrightarrow> (q, g) \<in> set ps \<Longrightarrow> matches q path \<Longrightarrow> length q \<le> length p"
proof (induction ps path arbitrary: p h rule: mux_match.induct)
  case (2 pattern k ps path)
  show ?case
  proof (cases "mux_match ps path")
    case None
    then have "\<not> matches q path" if "(q, g) \<in> set ps"
      using that by (induction ps path rule: mux_match.induct) (auto split: option.splits if_splits)
    then show ?thesis using 2(2-4) None by (auto split: if_splits)
  next
    case (Some r)
    then show ?thesis using 2 by (cases r) (fastforce split: if_splits)
  qed
qed simp

lemma mux_route_handle:
  "mux_route ps connect path = Handle h \<Longrightarrow> \<exists>p. mux_match ps path = Some (p, h)"
  by (auto simp: mux_route_def Let_def split: if_splits option.splits)

text \<open>A request is answered with a page only by the handler of the longest pattern its path matches.\<close>

lemma ServeHTTP_page:
  assumes "ServeHTTP sv connect path = Page pg q"
  shows "pg = MetricsPage \<and> path = ''/metrics'' \<or> ProfilingEnabled (sv_runtimeConfig sv) \<and> HasPrefix path ''/debug/pprof/''"
proof -
  obtain h where r: "mux_route server_routes connect path = Handle h" and h: "h sv path = Page pg q"
    using assms by (auto simp: ServeHTTP_def split: routed.splits)
  obtain p where "(p, h) \<in> set server_routes" and m: "matches p path"
    using mux_route_handle [OF r] mux_match_mem by metis
  then show ?thesis using h
    by (auto simp: server_routes_def pprofGuard_def matches_def HasPrefix_def suffix_def split: if_splits)
qed

lemma metrics_always_served: "ServeHTTP sv connect ''/metrics'' = Page MetricsPage ''/metrics''"
  by (cases connect) (simp_all add: ServeHTTP_def mux_route_def cleanPath_def Clean_def server_routes_def matches_def HasPrefix_def
      suffix_def)

text \<open>Any other path below the profiling tree shows the index, which looks profiles up by name.\<close>

lemma profile_by_name:
  "ProfilingEnabled (sv_runtimeConfig sv) \<Longrightarrow> ServeHTTP sv connect ''/debug/pprof/heap'' = Page PprofIndex ''/debug/pprof/heap''"
  "ServeHTTP sv connect ''/debug/pprof'' = Redirect ''/debug/pprof/''"
  "ServeHTTP sv False ''/x/../metrics'' = Redirect ''/metrics''"
  by (cases connect; simp add: ServeHTTP_def mux_route_def cleanPath_def Clean_def server_routes_def matches_def HasPrefix_def
      suffix_def pprofGuard_def; fail)+

end
