(* ===== verification/Process.thy ===== *)
theory Process
  imports Server Settings_Source Collector
begin

text \<open>
  The process of \<open>cmd/main.go\<close>: its start from the command line, and the three loops it runs at the same time
  over one runtime configuration - the reconciler, the metrics collector and the HTTP server - as a step
  relation. A step is a whole cycle of a loop, a request, a signal or a failure, in any order; the loops meet
  only in the runtime configuration, whose fields are written under a lock, and in the servers and the API
  (one history). Reading the Kubernetes configuration, making the client and parsing the command line are the
  libraries' and arguments of the model.
\<close>

section \<open>The command line\<close>

record flags =
  fl_clusterName :: string
  fl_namespace :: string
  fl_metricsAddr :: string
  fl_logLevel :: string
  fl_enablePprof :: bool
  fl_reconcileInterval :: int
  fl_reconcileIntervalOnError :: int
  fl_reconcileIntervalOnWait :: int

datatype flag_setting =
    Cluster_Name string | Namespace string | Metrics_Bind_Address string | Log_Level string | Enable_Pprof bool
  | Reconcile_Interval int | Reconcile_Interval_On_Error int | Reconcile_Interval_On_Wait int

definition default_flags :: flags where
  "default_flags =
     \<lparr>fl_clusterName = [], fl_namespace = [], fl_metricsAddr = '':8080'', fl_logLevel = ''info'', fl_enablePprof = False,
      fl_reconcileInterval = seconds DefaultReconcilerIntervalSeconds,
      fl_reconcileIntervalOnError = seconds DefaultReconcilerIntervalOnErrorSeconds,
      fl_reconcileIntervalOnWait = seconds DefaultReconcilerIntervalOnWaitSeconds\<rparr>"

fun set_flag :: "flag_setting \<Rightarrow> flags \<Rightarrow> flags" where
  "set_flag (Cluster_Name v) f = f\<lparr>fl_clusterName := v\<rparr>"
| "set_flag (Namespace v) f = f\<lparr>fl_namespace := v\<rparr>"
| "set_flag (Metrics_Bind_Address v) f = f\<lparr>fl_metricsAddr := v\<rparr>"
| "set_flag (Log_Level v) f = f\<lparr>fl_logLevel := v\<rparr>"
| "set_flag (Enable_Pprof v) f = f\<lparr>fl_enablePprof := v\<rparr>"
| "set_flag (Reconcile_Interval v) f = f\<lparr>fl_reconcileInterval := v\<rparr>"
| "set_flag (Reconcile_Interval_On_Error v) f = f\<lparr>fl_reconcileIntervalOnError := v\<rparr>"
| "set_flag (Reconcile_Interval_On_Wait v) f = f\<lparr>fl_reconcileIntervalOnWait := v\<rparr>"

text \<open>The settings of a command line in their order: the last one of a flag wins.\<close>

definition parse_flags :: "flag_setting list \<Rightarrow> flags" where
  "parse_flags given = fold set_flag given default_flags"

text \<open>\<open>slog.Level.UnmarshalText\<close>: a name in any case, with an offset (\<open>INFO+2\<close>). \<open>ToUpper\<close> is the one of
  ASCII letters.\<close>

definition to_upper :: "char \<Rightarrow> char" where
  "to_upper c = (if CHR ''a'' \<le> c \<and> c \<le> CHR ''z'' then char_of (of_char c - 32 :: nat) else c)"

definition level_base :: "string \<Rightarrow> int option" where
  "level_base name =
     (let n = map to_upper name
      in if n = ''DEBUG'' then Some (-4) else if n = ''INFO'' then Some 0 else if n = ''WARN'' then Some 4
         else if n = ''ERROR'' then Some 8 else None)"

definition parse_level :: "string \<Rightarrow> err + int" where
  "parse_level s =
     (let is_sign = (\<lambda>c. c = CHR ''+'' \<or> c = CHR ''-'');
          name = takeWhile (\<lambda>c. \<not> is_sign c) s;
          rest = dropWhile (\<lambda>c. \<not> is_sign c) s
      in case (if rest = [] then (0, None) else Atoi rest) of
           (_, Some e) \<Rightarrow> Inl (num_error_text rest e)
         | (offset, None) \<Rightarrow>
             (case level_base name of None \<Rightarrow> Inl ''unknown name'' | Some l \<Rightarrow> Inr (i64 (l + offset))))"

section \<open>The process\<close>

text \<open>The reconciler has not run yet, waits for its next cycle, or has returned.\<close>

datatype loop_state = Starting intervals | Waiting reconcileSchedule bool intervals | Stopped

record process =
  pr_st :: st
  pr_loop :: loop_state
  pr_collector :: collector
  pr_server :: "unit server"
  pr_served :: "(history \<times> response) list"
  pr_exit :: "int option"

text \<open>\<open>NewReconciler\<close> with the health reconciler and checker below it: no client, no report. The configuration
  in memory is set by every cycle before it is read.\<close>

definition NewReconciler :: "RuntimeConfig option \<Rightarrow> st \<times> intervals" where
  "NewReconciler given =
     (let rc = (case given of None \<Rightarrow> NewRuntimeConfig | Some rc \<Rightarrow> rc)
      in (\<lparr>hist = [], cfg = start_config, run = rc, hc_clients = Map.empty, hc_clientsPassword = [],
           hr_ephemeral = False, hr_lastReport = None\<rparr>,
          \<lparr>iv_interval = reconcilerInterval rc, iv_onError = reconcilerIntervalOnError rc,
           iv_onWait = reconcilerIntervalOnWait rc\<rparr>))"

definition bootstrap :: "flags \<Rightarrow> RuntimeConfig" where
  "bootstrap f =
     SetProfilingEnabled (fl_enablePprof f)
       (NewRuntimeConfigWithReconcilerIntervals (fl_reconcileInterval f) (fl_reconcileIntervalOnError f)
         (fl_reconcileIntervalOnWait f))"

text \<open>\<open>main\<close> up to the three loops: an exit code, or the process. A command line the flag package refuses
  (\<open>None\<close>) ends the process with its code 2; the two errors are those of \<open>GetConfig\<close> and \<open>client.New\<close>.\<close>

definition main_start :: "err option \<Rightarrow> err option \<Rightarrow> flag_setting list option \<Rightarrow> int + process" where
  "main_start config_err client_err command_line =
     (case command_line of
        None \<Rightarrow> Inl 2
      | Some given \<Rightarrow>
          let f = parse_flags given
          in case parse_level (fl_logLevel f) of
               Inl e \<Rightarrow> Inl 1
             | Inr level \<Rightarrow>
                 if fl_clusterName f = [] then Inl 1
                 else if fl_namespace f = [] then Inl 1
                 else if config_err \<noteq> None then Inl 1
                 else if client_err \<noteq> None then Inl 1
                 else let runtimeConfig = bootstrap f;
                          (s, iv) = NewReconciler (Some runtimeConfig)
                      in Inr \<lparr>pr_st = s, pr_loop = Starting iv,
                              pr_collector = NewCollector (fl_clusterName f) (fl_namespace f) s,
                              pr_server = NewServer () (fl_metricsAddr f) (Some ()) (Some runtimeConfig),
                              pr_served = [], pr_exit = None\<rparr>)"

section \<open>Steps\<close>

definition after_cycle :: "reconcileSchedule \<times> bool \<times> intervals \<Rightarrow> loop_state" where
  "after_cycle r = (case r of (schedule, onError, iv) \<Rightarrow> Waiting schedule onError iv)"

text \<open>One turn of the reconciler's loop; when it returns it closes its clients.\<close>

definition reconciler_turn :: "env \<Rightarrow> loop_state \<Rightarrow> st \<Rightarrow> loop_state op" where
  "reconciler_turn E l s =
     (case l of
        Starting iv \<Rightarrow> do { (r, s) \<leftarrow> reconcile E iv s; Some (after_cycle r, s) }
      | Waiting schedule onError iv \<Rightarrow>
          do { (ended, s) \<leftarrow> sleep E (nextWaitDuration iv schedule onError) s;
               if ended \<noteq> None then Some (Stopped, CloseAll s)
               else do { (r, s) \<leftarrow> reconcile E iv s; Some (after_cycle r, s) } }
      | Stopped \<Rightarrow> Some (Stopped, s))"

text \<open>The collector with the shared history and configuration as they are now.\<close>

definition sees :: "st \<Rightarrow> collector \<Rightarrow> collector" where
  "sees s c = c\<lparr>co_world := (co_world c)\<lparr>hist := hist s, run := run s\<rparr>\<rparr>"

definition collector_turn :: "env \<Rightarrow> prometheus \<Rightarrow> st \<Rightarrow> collector \<Rightarrow> (collector \<times> st) option" where
  "collector_turn E P s c =
     do { c \<leftarrow> collector_loop E P [run s] (sees s c);
          Some (c, s\<lparr>hist := hist (co_world c)\<rparr>) }"

definition request :: "process \<Rightarrow> bool \<Rightarrow> string \<Rightarrow> process" where
  "request p connect path =
     (let sv = (pr_server p)\<lparr>sv_runtimeConfig := run (pr_st p)\<rparr>
      in p\<lparr>pr_server := sv, pr_served := pr_served p @ [(hist (pr_st p), ServeHTTP sv connect path)]\<rparr>)"

text \<open>A panic of a loop ends the process (Go's exit code 2), an error of one loop does (1), and a signal (0).\<close>

inductive process_step :: "env \<Rightarrow> prometheus \<Rightarrow> process \<Rightarrow> process \<Rightarrow> bool" for E P where
  step_reconcile: "pr_exit p = None \<Longrightarrow> reconciler_turn E (pr_loop p) (pr_st p) = Some (l, s)
    \<Longrightarrow> process_step E P p (p\<lparr>pr_st := s, pr_loop := l\<rparr>)"
| step_reconcile_panic: "pr_exit p = None \<Longrightarrow> reconciler_turn E (pr_loop p) (pr_st p) = None
    \<Longrightarrow> process_step E P p (p\<lparr>pr_exit := Some 2\<rparr>)"
| step_collect: "pr_exit p = None \<Longrightarrow> collector_turn E P (pr_st p) (pr_collector p) = Some (c, s)
    \<Longrightarrow> process_step E P p (p\<lparr>pr_st := s, pr_collector := c\<rparr>)"
| step_collect_panic: "pr_exit p = None \<Longrightarrow> collector_turn E P (pr_st p) (pr_collector p) = None
    \<Longrightarrow> process_step E P p (p\<lparr>pr_exit := Some 2\<rparr>)"
| step_request: "pr_exit p = None \<Longrightarrow> process_step E P p (request p connect path)"
| step_server: "pr_exit p = None \<Longrightarrow> ServerStart es = Some (Some e)
    \<Longrightarrow> process_step E P p (p\<lparr>pr_exit := Some 1\<rparr>)"
| step_signal: "pr_exit p = None \<Longrightarrow> process_step E P p (p\<lparr>pr_exit := Some 0\<rparr>)"

section \<open>The loop of the reconciler\<close>

fun turns :: "env \<Rightarrow> nat \<Rightarrow> loop_state \<Rightarrow> st \<Rightarrow> loop_state op" where
  "turns E 0 l s = Some (l, s)"
| "turns E (Suc n) l s = do { (l, s) \<leftarrow> reconciler_turn E l s; turns E n l s }"

lemma turns_stopped: "turns E n Stopped s = Some (Stopped, s)"
  by (induction n) (simp_all add: reconciler_turn_def)

lemma poll_turns:
  "poll E n r s = Some (b, s') \<Longrightarrow>
   \<exists>l. turns E n (after_cycle r) s = Some (l, if b then CloseAll s' else s') \<and> (b \<longleftrightarrow> l = Stopped)"
proof (induction n arbitrary: r s)
  case (Suc n)
  obtain schedule onError iv where r: "r = (schedule, onError, iv)" by (cases r)
  obtain ended s1 where sl: "sleep E (nextWaitDuration iv schedule onError) s = Some (ended, s1)"
    by (simp add: sleep_def)
  show ?case
  proof (cases ended)
    case None
    then obtain r1 s2 where rec: "reconcile E iv s1 = Some (r1, s2)" "poll E n r1 s2 = Some (b, s')"
      using Suc.prems by (auto simp: r sl split: bind_splits)
    from Suc.IH [OF rec(2)] show ?thesis
      by (simp add: r after_cycle_def [of "(schedule, onError, iv)"] reconciler_turn_def sl None rec(1))
  next
    case (Some e)
    then show ?thesis using Suc.prems by (auto simp: r after_cycle_def reconciler_turn_def sl turns_stopped)
  qed
qed (auto simp: after_cycle_def)

text \<open>The turns of the process are the polling loop of \<open>Reconcile_Loop\<close>, closed at its end.\<close>

lemma Start_turns:
  assumes "Start E n s = Some (b, s')"
  shows "\<exists>l. turns E (Suc n) (Starting \<lparr>iv_interval = reconcilerInterval (run s), iv_onError = reconcilerIntervalOnError (run s),
      iv_onWait = reconcilerIntervalOnWait (run s)\<rparr>) s = Some (l, if b then CloseAll s' else s') \<and> (b \<longleftrightarrow> l = Stopped)"
proof -
  let ?iv = "\<lparr>iv_interval = reconcilerInterval (run s), iv_onError = reconcilerIntervalOnError (run s),
      iv_onWait = reconcilerIntervalOnWait (run s)\<rparr>"
  obtain r s1 where r: "reconcile E ?iv s = Some (r, s1)" and p: "poll E n r s1 = Some (b, s')"
    using assms by (auto simp: Start_def Let_def split: bind_splits)
  show ?thesis using poll_turns [OF p] r
    by (simp add: reconciler_turn_def)
qed

section \<open>What holds while the process runs\<close>

text \<open>Maps of labels in the resources are finite, as every Go map is.\<close>

definition finite_labels :: "env \<Rightarrow> bool" where
  "finite_labels E = (\<forall>h items c b m ls. e_list_configs E h = Inr items \<longrightarrow> c \<in> set items \<longrightarrow>
     sp_RobinConfig (rc_Spec c) = Some b \<longrightarrow> rb_Metrics b = Some m \<longrightarrow> MetricsLabels m = Some ls \<longrightarrow> finite (dom ls))"

definition loads :: "env \<Rightarrow> RuntimeConfig \<Rightarrow> config_spec list \<Rightarrow> RuntimeConfig" where
  "loads E rc sps = foldl (\<lambda>rc sp. load E sp rc) rc sps"

lemma loads_snoc: "loads E rc (sps @ [sp]) = load E sp (loads E rc sps)"
  by (simp add: loads_def)

text \<open>The profiling setting of a specification.\<close>

definition asks_profiling :: "config_spec \<Rightarrow> bool" where
  "asks_profiling sp = (\<exists>b. sp_RobinConfig sp = Some b \<and> rb_Profiling b = Some (Some True))"

lemma load_profiling:
  "profilingEnabled (load E sp rc) \<Longrightarrow> asks_profiling sp \<or> profilingEnabled rc"
  by (auto simp: load_def SetStandalone_def SetTopology_def SetFromRobinConfig_def Let_def asks_profiling_def
      split: option.splits)

lemma loads_profiling:
  "profilingEnabled (loads E rc sps) \<Longrightarrow> profilingEnabled rc \<or> (\<exists>sp\<in>set sps. asks_profiling sp)"
  by (induction sps rule: rev_induct) (auto simp: loads_snoc loads_def [of _ _ "[]"] dest: load_profiling)

definition labels_finite :: "RuntimeConfig \<Rightarrow> bool" where
  "labels_finite rc = finite (dom (entries (metricsLabels rc)))"

lemma load_labels:
  assumes "finite_labels E" and "listed E sp h" and "labels_finite rc"
  shows "labels_finite (load E sp rc)"
proof -
  have fin: "finite (dom ls)" if "sp_RobinConfig sp = Some b" "rb_Metrics b = Some m" "MetricsLabels m = Some ls" for b m ls
    using assms(1,2) that unfolding finite_labels_def listed_def by blast
  show ?thesis
  proof (cases "sp_RobinConfig sp")
    case (Some b)
    have "labels_finite (set_metrics (rb_Metrics b) rc')" if "metricsLabels rc' = metricsLabels rc" for rc'
      using that assms(3) fin [OF Some]
      by (auto simp: set_metrics_def labels_finite_def entries_def split: option.split) (metis assign.elims option.sel option.simps(5))
    then show ?thesis
      by (auto simp: Some load_def SetStandalone_def SetTopology_def SetFromRobinConfig_def Let_def labels_finite_def
          set_cluster_def set_reconciler_def split: option.split)
  qed (use assms(3) in \<open>simp add: load_def SetStandalone_def SetTopology_def SetFromRobinConfig_def Let_def labels_finite_def\<close>)
qed

text \<open>The invariant: the settings in force are the bootstrap ones with those of listed configurations loaded
  over them; the collector is well; and a profiling page was served only with profiling in force.\<close>

definition sourced :: "env \<Rightarrow> RuntimeConfig \<Rightarrow> config_spec list \<Rightarrow> st \<Rightarrow> bool" where
  "sourced E rc0 sps s = (settings (run s) = settings (loads E rc0 sps) \<and> list_all (\<lambda>sp. listed E sp (hist s)) sps)"

definition served_ok :: "env \<Rightarrow> bool \<Rightarrow> history \<times> response \<Rightarrow> bool" where
  "served_ok E allowed a = (\<forall>pg q. snd a = Page pg q \<longrightarrow> pg \<noteq> MetricsPage \<longrightarrow>
     allowed \<or> (\<exists>sp. listed E sp (fst a) \<and> asks_profiling sp))"

definition well :: "env \<Rightarrow> RuntimeConfig \<Rightarrow> process \<Rightarrow> bool" where
  "well E rc0 p = ((\<exists>sps. sourced E rc0 sps (pr_st p)) \<and> labels_finite (run (pr_st p)) \<and> collector_ok (pr_collector p)
     \<and> list_all (served_ok E (profilingEnabled rc0)) (pr_served p))"

lemma settings_fields:
  "settings a = settings b \<Longrightarrow> profilingEnabled a = profilingEnabled b \<and> metricsLabels a = metricsLabels b"
  by (cases a; cases b) (simp add: settings_def)

lemma sourced_later:
  "sourced E rc0 sps s \<Longrightarrow> suffix (hist s) (hist s') \<Longrightarrow> settings (run s') = settings (run s) \<Longrightarrow> sourced E rc0 sps s'"
  by (auto simp: sourced_def list_all_iff intro: listed_later)

lemma reconcile_sourced:
  assumes "reconcile E iv s = Some (r, s')" and "sourced E rc0 sps s" and "finite_labels E" and "labels_finite (run s)"
  shows "(\<exists>sps. sourced E rc0 sps s') \<and> labels_finite (run s')"
proof -
  from reconcile_loads [OF assms(1)]
  consider (same) "suffix (hist s) (hist s')" "settings (run s') = settings (run s)"
    | (new) sp where "suffix (hist s) (hist s')" "listed E sp (hist s')" "settings (run s') = settings (load E sp (run s))"
    by blast
  then show ?thesis
  proof cases
    case same
    then show ?thesis using sourced_later [OF assms(2)] assms(4) settings_fields [OF same(2)] by (auto simp: labels_finite_def)
  next
    case new
    have "settings (run s') = settings (loads E rc0 (sps @ [sp]))"
      using new(3) assms(2) by (simp add: loads_snoc load_settings sourced_def)
    moreover have "list_all (\<lambda>sp. listed E sp (hist s')) (sps @ [sp])"
      using new assms(2) by (auto simp: sourced_def list_all_iff intro: listed_later)
    moreover have "labels_finite (run s')"
      using load_labels [OF assms(3) new(2) assms(4)] settings_fields [OF new(3)] by (simp add: labels_finite_def)
    ultimately show ?thesis by (auto simp: sourced_def)
  qed
qed

lemma turn_sourced:
  assumes turn: "reconciler_turn E l s = Some (l', s')" and s: "sourced E rc0 sps s" and fin: "finite_labels E" "labels_finite (run s)"
  shows "(\<exists>sps. sourced E rc0 sps s') \<and> labels_finite (run s')"
proof (cases l)
  case (Starting iv)
  then obtain r where "reconcile E iv s = Some (r, s')" using turn by (auto simp: reconciler_turn_def split: bind_splits)
  then show ?thesis by (rule reconcile_sourced [OF _ s fin])
next
  case (Waiting schedule onError iv)
  obtain ended s1 where sl: "sleep E (nextWaitDuration iv schedule onError) s = Some (ended, s1)" and
    s1: "suffix (hist s) (hist s1)" "run s1 = run s" by (simp add: sleep_def suffix_ConsI log_def)
  have src: "sourced E rc0 sps s1" using sourced_later [OF s s1(1)] s1(2) by simp
  show ?thesis
  proof (cases ended)
    case None
    then obtain r where "reconcile E iv s1 = Some (r, s')"
      using turn Waiting sl by (auto simp: reconciler_turn_def split: bind_splits)
    then show ?thesis using reconcile_sourced [OF _ src fin(1)] fin(2) s1(2) by simp
  next
    case (Some e)
    then have "s' = CloseAll s1" using turn Waiting sl by (simp add: reconciler_turn_def)
    then show ?thesis using src fin(2) s1(2) by (auto simp: sourced_def CloseAll_def)
  qed
next
  case Stopped
  then show ?thesis using turn s fin by (auto simp: reconciler_turn_def)
qed

lemma collector_turn_ok:
  assumes turn: "collector_turn E P s c = Some (c', s')" and c: "collector_ok c" and fin: "labels_finite (run s)"
  shows "collector_ok c' \<and> suffix (hist s) (hist s') \<and> run s' = run s"
proof -
  obtain ended w where sl: "sleep E (metricsInterval (run s)) (co_world (sees s c)) = Some (ended, w)"
    and w: "suffix (hist s) (hist w)" "run w = run s" "hc_clients w = hc_clients (co_world c)"
      "hc_clientsPassword w = hc_clientsPassword (co_world c)"
    by (simp add: sleep_def sees_def log_def suffix_ConsI)
  let ?c = "(sees s c)\<lparr>co_world := w\<rparr>"
  have ok: "collector_ok ?c"
    using c w(3,4) by (simp add: collector_ok_def sees_def labels_of_def pools_ok_def cache_ok_def)
  have ran: "collector_loop E P [run s] (sees s c) =
      (if ended \<noteq> None then Some (closeAllClients ?c) else collect E P (set_run (run s) ?c))"
    using sl by (simp add: on_world_def sees_def cong: bind_option_cong)
  show ?thesis
  proof (cases ended)
    case None
    then obtain col: "collect E P (set_run (run s) ?c) = Some c'" and s': "s' = s\<lparr>hist := hist (co_world c')\<rparr>"
      using turn by (auto simp: collector_turn_def ran simp del: collector_loop.simps split: bind_splits)
    have ok2: "collector_ok (set_run (run s) ?c)" using ok by (simp add: collector_ok_def labels_of_def pools_ok_def set_run_def cache_ok_def)
    have "cycle_done (set_run (run s) ?c) c'"
      using collect_ok [OF ok2, of P E] col fin by (auto simp: returns_def set_run_def labels_finite_def)
    then show ?thesis using s' w(1) suffix_order.trans by (auto simp: cycle_done_def extends_def set_run_def dest!: grows_suffix)
  next
    case (Some e)
    then have c': "c' = closeAllClients ?c" and s': "s' = s\<lparr>hist := hist (co_world c')\<rparr>"
      using turn by (auto simp: collector_turn_def ran simp del: collector_loop.simps)
    have "collector_ok c'" unfolding c' using ok by (simp add: collector_ok_def labels_of_def pools_ok_def closeAllClients_def entries_def)
    then show ?thesis using s' c' w(1) by (simp add: closeAllClients_def)
  qed
qed

lemma request_ok: "well E rc0 p \<Longrightarrow> well E rc0 (request p connect path)"
proof -
  assume p: "well E rc0 p"
  then obtain sps where src: "sourced E rc0 sps (pr_st p)" by (auto simp: well_def)
  have "served_ok E (profilingEnabled rc0) (hist (pr_st p), ServeHTTP sv connect path)" if "sv_runtimeConfig sv = run (pr_st p)"
    for sv :: "unit server"
  proof -
    have "profilingEnabled rc0 \<or> (\<exists>sp. listed E sp (hist (pr_st p)) \<and> asks_profiling sp)" if "profilingEnabled (run (pr_st p))"
      using that src loads_profiling [of E rc0 sps] settings_fields [of "run (pr_st p)" "loads E rc0 sps"]
      by (auto simp: sourced_def list_all_iff)
    then show ?thesis using ServeHTTP_page [of sv connect path] that by (auto simp: served_ok_def ProfilingEnabled_def)
  qed
  then show "well E rc0 (request p connect path)" using p by (auto simp: request_def Let_def well_def)
qed

lemma step_well:
  assumes "process_step E P p p'" and p: "well E rc0 p" and "finite_labels E"
  shows "well E rc0 p'"
  using assms(1)
proof cases
  case (step_reconcile l s)
  then show ?thesis using p turn_sourced [OF _ _ assms(3)] by (auto simp: well_def)
next
  case (step_collect c s)
  then show ?thesis using p collector_turn_ok [OF step_collect(3)] sourced_later [of E rc0 _ "pr_st p" s] by (auto simp: well_def)
next
  case (step_request connect path)
  then show ?thesis using request_ok [OF p] by simp
qed (use p in \<open>auto simp: well_def\<close>)

lemma start_well:
  assumes "main_start config_err client_err (Some given) = Inr p0"
  shows "well E (bootstrap (parse_flags given)) p0"
proof -
  have "labels_finite (bootstrap f)" for f
    by (simp add: labels_finite_def bootstrap_def SetProfilingEnabled_def NewRuntimeConfigWithReconcilerIntervals_def entries_def)
  moreover have src: "\<exists>sps. sourced E rc0 sps s" if "run s = rc0" for rc0 s
    using that by (intro exI [of _ "[]"]) (simp add: sourced_def loads_def)
  ultimately show ?thesis
    using assms by (auto simp: main_start_def Let_def NewReconciler_def well_def new_collector_ok intro!: src split: sum.splits if_splits)
qed

lemma reachable_well:
  assumes "(process_step E P)\<^sup>*\<^sup>* p0 p" and "well E rc0 p0" and "finite_labels E"
  shows "well E rc0 p"
  using assms(1,2) by (induction rule: rtranclp_induct) (auto intro: step_well [OF _ _ assms(3)])

text \<open>C14: however the loops of the process interleave, the settings it runs with are those of its command line
  with the settings of configurations the API has listed loaded over them, one after the other; and it has served
  a profiling page only if profiling was switched on at the command line or by a configuration listed before the
  request.\<close>

theorem settings_come_from_resources:
  assumes "finite_labels E" and "main_start config_err client_err (Some given) = Inr p0" and "(process_step E P)\<^sup>*\<^sup>* p0 p"
  shows "(\<exists>sps. settings (run (pr_st p)) = settings (loads E (bootstrap (parse_flags given)) sps)
        \<and> list_all (\<lambda>sp. listed E sp (hist (pr_st p))) sps)
    \<and> list_all (\<lambda>(h, r). \<forall>pg q. r = Page pg q \<and> pg \<noteq> MetricsPage \<longrightarrow>
        fl_enablePprof (parse_flags given) \<or> (\<exists>sp. listed E sp h \<and> asks_profiling sp)) (pr_served p)"
proof -
  have "well E (bootstrap (parse_flags given)) p" by (rule reachable_well [OF assms(3) start_well [OF assms(2)] assms(1)])
  moreover have "profilingEnabled (bootstrap (parse_flags given)) = fl_enablePprof (parse_flags given)"
    by (simp add: bootstrap_def SetProfilingEnabled_def)
  ultimately show ?thesis unfolding well_def sourced_def served_ok_def list_all_iff by fastforce
qed

text \<open>A run: the reconciler loads an applied configuration that asks for profiling, then a profile is requested.\<close>

definition profiled_config :: redkey_config where
  "profiled_config = start_config\<lparr>
     rc_Spec := base_spec\<lparr>sp_RobinConfig := Some \<lparr>rb_Reconciler = None, rb_Cluster = None, rb_Metrics = None,
       rb_Profiling = Some (Some True)\<rparr>\<rparr>,
     rc_Status := (rc_Status start_config)\<lparr>cs_ConfigPhase := Applied, cs_Status := Maintenance\<rparr>\<rparr>"

definition profiled_env :: env where
  "profiled_env = calm_env\<lparr>e_list_configs := (\<lambda>h. Inr [profiled_config])\<rparr>"

lemma profiled_facts:
  "phase_of profiled_config = Applied" "status_of profiled_config = Maintenance" "seq_of profiled_config = 1"
  "asks_profiling (rc_Spec profiled_config)" "e_list_configs profiled_env h = Inr [profiled_config]"
  "\<not> e_is_standalone profiled_env (rc_Spec profiled_config)"
  "profilingEnabled (SetFromRobinConfig (sp_RobinConfig (rc_Spec profiled_config)) rc)"
  by (simp_all add: profiled_config_def profiled_env_def calm_env_def start_config_def base_spec_def seq_of_def asks_profiling_def
      SetFromRobinConfig_def Let_def)

lemma profiled_select:
  "\<exists>s'. selectConfig profiled_env s = Some (Inr (None, Some profiled_config), s') \<and> run s' = run s"
proof -
  have "target_at [] profiled_config []" by (simp add: target_at_def in_sequence_def profiled_facts)
  from selectConfig_target [of profiled_env s "[]", OF _ this] obtain s' where sel:
    "selectConfig profiled_env s = Some (Inr (latest_applied [], Some (inited profiled_config)), s')" "s' = s\<lparr>hist := hist s'\<rparr>"
    by (auto simp: profiled_facts)
  have "run s' = run s" by (subst sel(2)) simp
  moreover have "inited profiled_config = profiled_config" by (simp add: inited_def profiled_facts)
  ultimately show ?thesis using sel(1) by (simp add: latest_applied_def)
qed

lemma profiled_cycle:
  "\<exists>r s'. reconcile profiled_env iv s = Some (r, s') \<and> profilingEnabled (run s')"
proof -
  obtain s1 where "selectConfig profiled_env s = Some (Inr (None, Some profiled_config), s1)" using profiled_select by blast
  then show ?thesis
    by (simp add: reconcile_def profiled_facts validConfigPhase_def reconcile_phase_def ReconcileCluster_def ends_def
        finish_cycle_def applyRobinConfig_def effective_config_def Let_def SetAuthSecret_def SetStandalone_def SetTopology_def)
      (rule exI [of _ False], simp)
qed

lemma settings_come_from_resources_witness:
  "\<exists>p0 p h. main_start None None (Some [Cluster_Name ''redkey'', Namespace ''ns'']) = Inr p0
    \<and> (process_step profiled_env lenient)\<^sup>*\<^sup>* p0 p \<and> pr_served p = [(h, Page PprofIndex ''/debug/pprof/heap'')]
    \<and> (\<exists>sp. listed profiled_env sp h \<and> asks_profiling sp)"
proof -
  let ?given = "[Cluster_Name ''redkey'', Namespace ''ns'']"
  let ?f = "parse_flags ?given"
  have f: "fl_clusterName ?f = ''redkey''" "fl_namespace ?f = ''ns''" "fl_logLevel ?f = ''info''" "\<not> fl_enablePprof ?f"
    by (simp_all add: parse_flags_def default_flags_def)
  have level: "parse_level ''info'' = Inr 0" by code_simp
  obtain p0 iv where p0: "main_start None None (Some ?given) = Inr p0" and start: "pr_loop p0 = Starting iv" "pr_exit p0 = None" "pr_served p0 = []"
    by (simp add: main_start_def f level NewReconciler_def Let_def)
  obtain r s where cyc: "reconcile profiled_env iv (pr_st p0) = Some (r, s)" and on: "profilingEnabled (run s)"
    using profiled_cycle by blast
  let ?p1 = "p0\<lparr>pr_st := s, pr_loop := after_cycle r\<rparr>" and ?path = "''/debug/pprof/heap''"
  have s1: "process_step profiled_env lenient p0 ?p1"
    by (rule step_reconcile) (simp_all add: start reconciler_turn_def cyc)
  have s2: "process_step profiled_env lenient ?p1 (request ?p1 False ?path)"
    by (rule step_request) (simp add: start)
  have run: "(process_step profiled_env lenient)\<^sup>*\<^sup>* p0 (request ?p1 False ?path)"
    using s1 s2 by (meson converse_rtranclp_into_rtranclp r_into_rtranclp)
  have served: "pr_served (request ?p1 False ?path) = [(hist s, Page PprofIndex ?path)]"
    using on by (simp add: request_def Let_def start profile_by_name ProfilingEnabled_def)
  have "finite_labels profiled_env"
    by (auto simp: finite_labels_def profiled_facts) (auto simp: profiled_config_def)
  from settings_come_from_resources [OF this p0 run] have "\<exists>sp. listed profiled_env sp (hist s) \<and> asks_profiling sp"
    using f(4) by (simp add: served)
  then show ?thesis using p0 run served by blast
qed

end
