(* ===== verification/Spec2Isabelle.thy ===== *)
theory Spec2Isabelle
  imports Prelude Go_Strings Redis_Slots Redis_Nodes Health_Checks Config_Model Config_Plan Runtime_Config
    K8s_Objects World Redis_Client Command K8s_Client Checker Health_Reconciler Health_Remediation Cluster_Ops Scale
    Lifecycle Standalone Upgrade Reconcile_Loop Frames Pass_Frames Lifecycle_Machine Upgrade_Machine
    Upgrade_Deletions Formation Ready_Checked Scale_Down_Safety Destruction
    Config_Store Dead_Ends Unchecked_Flush Standalone_Liveness Settings_Source Go_Floats Metrics_Manager Registry Collector Server Process
begin

text \<open>
  Redkey Robin: the in-cluster reconciler of a Redis cluster.

  Robin is one process per Redis cluster (\<open>cmd/main.go\<close>). It runs three loops over one runtime configuration:
  the reconciler reads the RedkeyConfig resources of the cluster from the Kubernetes API, selects one, and drives
  the Redis servers and the Kubernetes objects towards it - forming a cluster, scaling it, upgrading it, rotating
  its password, repairing it; the metrics collector asks the servers for their figures; the HTTP server shows
  them, and the profiling pages.

  The model of the code, in the order of its layers.
  Prelude: 64-bit integers, slices, the calculus of postconditions of operations, map iteration order.
  Go_Strings, Go_Floats: the functions of Go's strings and strconv packages that the code uses.
  Redis_Slots, Redis_Nodes: the parsers of \<open>internal/redis\<close>.
  Health_Checks: the pure checks of \<open>internal/health/checker.go\<close>.
  Config_Model, Config_Plan: the RedkeyConfig resource, change detection (\<open>config_changes.go\<close>), the selection and
  superseding of configurations (\<open>config_plan.go\<close>, \<open>config_superseding.go\<close>) and the status transitions.
  Runtime_Config: \<open>internal/config/runtime.go\<close>.
  K8s_Objects: the objects built by \<open>internal/kubernetes\<close> and the overrides.
  World: the environment and the state; everything below is an operation on them.
  Redis_Client, K8s_Client: the operations on Redis servers and on the Kubernetes API.
  Command: the redis-cli process of \<open>redis/command.go\<close>, over the operating system.
  Checker, Health_Reconciler, Health_Remediation: \<open>internal/health/checker.go\<close> and
  \<open>internal/reconciler/health_reconciler.go\<close>.
  Cluster_Ops, Lifecycle: the operations and handlers of \<open>cluster_reconciler.go\<close>.
  Scale, Upgrade, Standalone: \<open>scale_reconciler.go\<close> with \<open>scale_zero_reconciler.go\<close>, \<open>upgrade_reconciler.go\<close>,
  \<open>standalone_reconciler.go\<close>.
  Reconcile_Loop: the dispatch on the status, one cycle and the polling loop (\<open>reconciler.go\<close>).
  Metrics_Manager, Registry, Collector, Server: \<open>internal/metrics\<close>.
  Process: \<open>cmd/main.go\<close>, its loops as a step relation.

  What is proved over it, beside the properties of each component in its own theory.
  Frames: what the operations leave alone, as rules for partial invariants: the locale \<open>silent\<close> for the operations
  that record no status and destroy nothing, and its extensions for those that do.
  Pass_Frames: the same for whole passes (locales \<open>observing\<close>, which tolerates what leaves the status alone, and
  \<open>recording\<close>, which tolerates any status).
  Destruction: which passes may delete pods, the StatefulSet and its volumes, or shut servers down.
  Lifecycle_Machine: the documented lifecycle of status and phase as a relation; every dispatch refines it.
  Upgrade_Machine, Upgrade_Deletions: the same for the progress of a rolling upgrade, with its bound, and which
  pods it deletes.
  Formation: forming a cluster hands out every slot once, also when it resumes.
  Ready_Checked: the status Ready is written only after a server or a check vouched for the cluster.
  Scale_Down_Safety: scaling down shuts down only servers that said they are not needed.
  Config_Store: the API server as a store of resources, and what the reconciler selects from it.
  Standalone_Liveness: a cooperative standalone node is configured within three cycles.
  Dead_Ends: two recorded states no number of cycles leaves.
  Unchecked_Flush: the rolling upgrade flushes a primary without looking whether it is still empty.
  Settings_Source, Process: the settings in force come from the command line and from listed resources.

  Conventions. An operation is a function from the state to an option of a result and a new state;
  \<open>None\<close> is a Go panic. Errors are their texts. The environment answers every request as a function of
  the whole history, so it may change its mind between two identical requests. The order in which Go
  ranges over a map is chosen by the environment. The Prometheus library (\<open>prometheus\<close>), the operating system
  (\<open>os\<close>) and the strategic merge of Kubernetes are parameters. Registry models the
  resettable registry and shows that it serves the calls Metrics_Manager makes.

  Loops end because they recurse over a list or over the attempts left. The loops that run as long as the process
  are either counted (\<open>Start E n\<close>, \<open>poll\<close>, \<open>collector_loop\<close>: properties hold for every count) or steps of a relation.

  Not modelled: logging; closing of connections; cancelling a redis-cli process, which nothing does; the hooks for
  tests. The locks of the runtime configuration and of the metrics are atomic operations, and the loops of the
  process interleave by whole cycles. Timeouts of contexts appear as errors the environment may answer with. What
  the metrics and profiling pages show, the parsing of the command line, and the Kubernetes client are libraries.
\<close>

end
